(* ===== verification/Prelude.thy ===== *)
theory Prelude
  imports Main "HOL-Library.Sublist" "HOL-Library.Multiset" "HOL-Library.Char_ord"
    "HOL-Library.List_Lexorder"
begin

text \<open>
  The prelude of the development: the parts of the Go language and of its standard library
  that the components use, and the generic lemmas they share.

  A Go \<^verbatim>\<open>string\<close> and a Go \<^verbatim>\<open>[]byte\<close> are both sequences of bytes; both are \<^typ>\<open>string\<close> here
  (a \<^typ>\<open>char\<close> is one byte).  A Go \<^verbatim>\<open>int\<close> is an \<^typ>\<open>int\<close> or, for lengths and positions that the
  code keeps non-negative, a \<^typ>\<open>nat\<close>; words are used where the width matters.  A Go \<^verbatim>\<open>error\<close>
  result is a sum with the error on the left, and a run-time panic is a value of
  \<open>outcome\<close>, so that no failure of the source disappears in a total HOL function.
\<close>

section \<open>Results\<close>

named_theorems go_defs \<open>definitions that unfold the small library routines\<close>
named_theorems frame_simps \<open>what an operation leaves unchanged\<close>
named_theorems inv_intros \<open>preservation of the component invariants\<close>

text \<open>The message of a Go \<^verbatim>\<open>error\<close> value, and the pair \<^verbatim>\<open>(value, error)\<close> as a sum.\<close>

type_synonym goerror = string
type_synonym 'a result = "goerror + 'a"

text \<open>The run-time panics the source can raise.\<close>

datatype panic = IndexOutOfRange | SliceBounds | DivideByZero | NilDereference | TypeAssertion | ExplicitPanic string

datatype 'a outcome = Ret 'a | Panic panic

fun outcome_bind :: "'a outcome \<Rightarrow> ('a \<Rightarrow> 'b outcome) \<Rightarrow> 'b outcome" where
  "outcome_bind (Ret x) f = f x"
| "outcome_bind (Panic p) f = Panic p"

definition returns :: "'a outcome \<Rightarrow> bool" where
  "returns r \<longleftrightarrow> (case r of Ret _ \<Rightarrow> True | Panic _ \<Rightarrow> False)"

lemma returns_simps [simp]: "returns (Ret x)" "\<not> returns (Panic p)"
  by (simp_all add: returns_def)

lemma outcome_bind_eq_Ret [simp]:
  "outcome_bind r f = Ret y \<longleftrightarrow> (\<exists>x. r = Ret x \<and> f x = Ret y)"
  by (cases r) auto

text \<open>What holds of the result if there is one; the rules follow the shape of a program.\<close>

definition all_ret :: "('a \<Rightarrow> bool) \<Rightarrow> 'a outcome \<Rightarrow> bool" where
  "all_ret P r \<longleftrightarrow> (\<forall>x. r = Ret x \<longrightarrow> P x)"

lemma all_retD: "all_ret P r \<Longrightarrow> r = Ret x \<Longrightarrow> P x"
  by (simp add: all_ret_def)

lemma all_ret_Ret: "P x \<Longrightarrow> all_ret P (Ret x)"
  by (simp add: all_ret_def)

lemma all_ret_bind: "(\<And>x. r = Ret x \<Longrightarrow> all_ret P (f x)) \<Longrightarrow> all_ret P (outcome_bind r f)"
  by (auto simp: all_ret_def)

lemma all_ret_if: "(c \<Longrightarrow> all_ret P a) \<Longrightarrow> (\<not> c \<Longrightarrow> all_ret P b) \<Longrightarrow> all_ret P (if c then a else b)"
  by simp

lemma all_ret_option:
  "(y = None \<Longrightarrow> all_ret P a) \<Longrightarrow> (\<And>x. y = Some x \<Longrightarrow> all_ret P (f x)) \<Longrightarrow> all_ret P (case y of None \<Rightarrow> a | Some x \<Rightarrow> f x)"
  by (simp split: option.split)

lemma all_ret_sum:
  "(\<And>x. y = Inl x \<Longrightarrow> all_ret P (f x)) \<Longrightarrow> (\<And>x. y = Inr x \<Longrightarrow> all_ret P (g x)) \<Longrightarrow>
   all_ret P (case y of Inl x \<Rightarrow> f x | Inr x \<Rightarrow> g x)"
  by (simp split: sum.split)

lemma all_ret_prod: "(\<And>x y. p = (x, y) \<Longrightarrow> all_ret P (f x y)) \<Longrightarrow> all_ret P (case p of (x, y) \<Rightarrow> f x y)"
  by (simp split: prod.split)

lemmas all_ret_intros = all_ret_bind all_ret_if all_ret_option all_ret_sum all_ret_prod all_ret_Ret

section \<open>Strings\<close>

text \<open>\<^verbatim>\<open>bytes.IndexByte\<close> and its counterpart from the end.\<close>

fun IndexByte :: "string \<Rightarrow> char \<Rightarrow> nat option" where
  "IndexByte [] ch = None"
| "IndexByte (x # xs) ch = (if x = ch then Some 0 else map_option Suc (IndexByte xs ch))"

definition LastIndexByte :: "string \<Rightarrow> char \<Rightarrow> nat option" where
  "LastIndexByte s ch = map_option (\<lambda>i. length s - 1 - i) (IndexByte (rev s) ch)"

text \<open>\<^verbatim>\<open>strings.Split(s, sep)\<close> for a separator of one byte, the only kind the source uses.\<close>

fun Split :: "string \<Rightarrow> char \<Rightarrow> string list" where
  "Split [] c = [[]]"
| "Split (x # xs) c =
     (if x = c then [] # Split xs c
      else case Split xs c of [] \<Rightarrow> [[x]] | y # ys \<Rightarrow> (x # y) # ys)"

text \<open>\<^verbatim>\<open>strings.Join(elems, sep)\<close>.\<close>

fun Join :: "string list \<Rightarrow> string \<Rightarrow> string" where
  "Join [] sep = []"
| "Join [x] sep = x"
| "Join (x # y # ys) sep = x @ sep @ Join (y # ys) sep"

text \<open>Reading a map of strings; an absent key reads as the empty string.\<close>

definition lookup_str :: "(string \<Rightarrow> string option) \<Rightarrow> string \<Rightarrow> string" where
  "lookup_str m k = (case m k of None \<Rightarrow> [] | Some v \<Rightarrow> v)"

text \<open>\<^verbatim>\<open>strings.Contains(s, substr)\<close>.\<close>

fun Contains :: "string \<Rightarrow> string \<Rightarrow> bool" where
  "Contains [] sub = (sub = [])"
| "Contains (x # xs) sub = (prefix sub (x # xs) \<or> Contains xs sub)"

text \<open>
  \<^verbatim>\<open>strings.ToLower\<close> and \<^verbatim>\<open>strings.ToUpper\<close> on ASCII letters; a byte of a multi-byte character is
  kept.  (The source applies them to protocol names, table names and one-word commands.)
\<close>

definition lower_char :: "char \<Rightarrow> char" where
  "lower_char c = (if CHR ''A'' \<le> c \<and> c \<le> CHR ''Z'' then char_of ((of_char c :: nat) + 32) else c)"

definition upper_char :: "char \<Rightarrow> char" where
  "upper_char c = (if CHR ''a'' \<le> c \<and> c \<le> CHR ''z'' then char_of ((of_char c :: nat) - 32) else c)"

definition ToLower :: "string \<Rightarrow> string" where
  "ToLower s = map lower_char s"

definition ToUpper :: "string \<Rightarrow> string" where
  "ToUpper s = map upper_char s"

text \<open>
  \<^verbatim>\<open>strings.TrimSpace\<close>.  The white space of \<^verbatim>\<open>unicode.IsSpace\<close> is listed by its UTF-8 encodings, so
  that trimming works on bytes: at the left end the encodings that are a prefix are dropped, at
  the right end those that are a suffix.
\<close>

definition space_encodings :: "string list" where
  "space_encodings =
     [[CHR 0x09], [CHR 0x0A], [CHR 0x0B], [CHR 0x0C], [CHR 0x0D], [CHR 0x20],
      [CHR 0xC2, CHR 0x85], [CHR 0xC2, CHR 0xA0], [CHR 0xE1, CHR 0x9A, CHR 0x80]]
     @ map (\<lambda>n. [CHR 0xE2, CHR 0x80, char_of (0x80 + n :: nat)]) [0, 1, 2, 3, 4, 5, 6, 7, 8, 9, 10]
     @ [[CHR 0xE2, CHR 0x80, CHR 0xA8], [CHR 0xE2, CHR 0x80, CHR 0xA9],
        [CHR 0xE2, CHR 0x80, CHR 0xAF], [CHR 0xE2, CHR 0x81, CHR 0x9F],
        [CHR 0xE3, CHR 0x80, CHR 0x80]]"

definition leading_space :: "string \<Rightarrow> string option" where
  "leading_space s = find (\<lambda>e. prefix e s) space_encodings"

definition trailing_space :: "string \<Rightarrow> string option" where
  "trailing_space s = find (\<lambda>e. suffix e s) space_encodings"

lemma space_encodings_nonempty: "e \<in> set space_encodings \<Longrightarrow> e \<noteq> []"
  by (auto simp: space_encodings_def)

lemma find_SomeD: "find P xs = Some x \<Longrightarrow> P x \<and> x \<in> set xs"
  by (auto simp: find_Some_iff)

lemma leading_space_SomeD: "leading_space s = Some e \<Longrightarrow> prefix e s \<and> e \<noteq> []"
  unfolding leading_space_def by (metis find_SomeD space_encodings_nonempty)

lemma trailing_space_SomeD: "trailing_space s = Some e \<Longrightarrow> suffix e s \<and> e \<noteq> []"
  unfolding trailing_space_def by (metis find_SomeD space_encodings_nonempty)

function TrimLeft :: "string \<Rightarrow> string" where
  "TrimLeft s = (case leading_space s of None \<Rightarrow> s | Some e \<Rightarrow> TrimLeft (drop (length e) s))"
  by pat_completeness auto
termination
  by (relation "measure length")
     (auto dest!: leading_space_SomeD simp: prefix_def)

function TrimRight :: "string \<Rightarrow> string" where
  "TrimRight s =
     (case trailing_space s of None \<Rightarrow> s | Some e \<Rightarrow> TrimRight (take (length s - length e) s))"
  by pat_completeness auto
termination
  by (relation "measure length")
     (auto dest!: trailing_space_SomeD simp: suffix_def)

declare TrimLeft.simps [simp del] TrimRight.simps [simp del]

definition TrimSpace :: "string \<Rightarrow> string" where
  "TrimSpace s = TrimRight (TrimLeft s)"

subsection \<open>Lemmas on strings\<close>

lemma Split_nonempty [simp]: "Split s c \<noteq> []"
  by (induction s) (auto split: list.splits)

lemma Split_no_sep: "c \<notin> set s \<Longrightarrow> Split s c = [s]"
  by (induction s) auto

lemma Split_append_sep: "c \<notin> set s \<Longrightarrow> Split (s @ c # t) c = s # Split t c"
  by (induction s) auto

lemma Split_pieces: "p \<in> set (Split s c) \<Longrightarrow> c \<notin> set p"
  by (induction s arbitrary: p) (auto split: list.splits if_splits)

lemma Join_Cons: "ys \<noteq> [] \<Longrightarrow> Join (x # ys) sep = x @ sep @ Join ys sep"
  by (cases ys) auto

lemma Join_Split: "Join (Split s c) [c] = s"
proof (induction s)
  case (Cons x s)
  show ?case
  proof (cases "Split s c")
    case (Cons y ys)
    with Cons.IH show ?thesis by (cases ys) auto
  qed simp
qed simp

lemma Split_Join:
  assumes "xs \<noteq> []" and "\<forall>x \<in> set xs. c \<notin> set x"
  shows "Split (Join xs [c]) c = xs"
  using assms
proof (induction xs rule: list_nonempty_induct)
  case (single x)
  then show ?case by (simp add: Split_no_sep)
next
  case (cons x xs)
  then show ?case by (simp add: Join_Cons Split_append_sep)
qed

lemma length_Split: "length (Split s c) = Suc (count_list s c)"
  by (induction s) (auto split: list.splits)

lemma Contains_iff_sublist: "Contains s sub \<longleftrightarrow> sublist sub s"
  by (induction s) (auto simp: sublist_Cons_right)

lemma Contains_Nil [simp]: "Contains s []"
  by (cases s) auto

lemma TrimLeft_suffix: "suffix (TrimLeft s) s"
proof (induction s rule: TrimLeft.induct)
  case (1 s)
  then show ?case
    by (subst TrimLeft.simps) (auto split: option.splits intro: suffix_order.trans suffix_drop)
qed

lemma TrimRight_prefix: "prefix (TrimRight s) s"
proof (induction s rule: TrimRight.induct)
  case (1 s)
  then show ?case
    by (subst TrimRight.simps) (auto split: option.splits intro: prefix_order.trans take_is_prefix)
qed

section \<open>Decimal numbers\<close>

text \<open>\<^verbatim>\<open>strconv.Itoa\<close>.\<close>

definition digit_char :: "nat \<Rightarrow> char" where
  "digit_char d = char_of (48 + d)"

fun nat_digits :: "nat \<Rightarrow> string" where
  "nat_digits n = (if n < 10 then [digit_char n] else nat_digits (n div 10) @ [digit_char (n mod 10)])"

declare nat_digits.simps [simp del]

definition Itoa :: "int \<Rightarrow> string" where
  "Itoa i = (if i < 0 then CHR ''-'' # nat_digits (nat (- i)) else nat_digits (nat i))"

text \<open>
  \<^verbatim>\<open>strconv.Atoi\<close>: an optional sign, at least one decimal digit and nothing else, and a value in the
  range of a 64-bit \<^verbatim>\<open>int\<close>; every error is \<^const>\<open>None\<close>, since the source only tests for one.
\<close>

definition digit_val :: "char \<Rightarrow> nat option" where
  "digit_val c = (if CHR ''0'' \<le> c \<and> c \<le> CHR ''9'' then Some (of_char c - 48) else None)"

fun digits_val :: "nat \<Rightarrow> string \<Rightarrow> nat option" where
  "digits_val acc [] = Some acc"
| "digits_val acc (c # cs) =
     (case digit_val c of None \<Rightarrow> None | Some d \<Rightarrow> digits_val (10 * acc + d) cs)"

definition parse_nat :: "string \<Rightarrow> nat option" where
  "parse_nat s = (if s = [] then None else digits_val 0 s)"

definition in_int64 :: "int \<Rightarrow> bool" where
  "in_int64 i \<longleftrightarrow> - (2 ^ 63) \<le> i \<and> i < 2 ^ 63"

definition check_int64 :: "int \<Rightarrow> int option" where
  "check_int64 i = (if in_int64 i then Some i else None)"

definition Atoi :: "string \<Rightarrow> int option" where
  "Atoi s =
     (case s of
        [] \<Rightarrow> None
      | c # cs \<Rightarrow>
          if c = CHR ''-'' then Option.bind (parse_nat cs) (\<lambda>n. check_int64 (- int n))
          else if c = CHR ''+'' then Option.bind (parse_nat cs) (\<lambda>n. check_int64 (int n))
          else Option.bind (parse_nat s) (\<lambda>n. check_int64 (int n)))"

lemma digit_val_digit_char: "d < 10 \<Longrightarrow> digit_val (digit_char d) = Some d"
  by (auto simp: digit_val_def digit_char_def less_eq_char_def)

lemma digits_val_append:
  "digits_val acc (xs @ ys) = Option.bind (digits_val acc xs) (\<lambda>a. digits_val a ys)"
  by (induction xs arbitrary: acc) (auto split: option.splits)

lemma nat_digits_nonempty [simp]: "nat_digits n \<noteq> []"
  by (subst nat_digits.simps) simp

lemma digits_val_nat_digits: "digits_val 0 (nat_digits n) = Some n"
proof (induction n rule: nat_digits.induct)
  case (1 n)
  show ?case
  proof (cases "n < 10")
    case True
    then show ?thesis by (simp add: nat_digits.simps [of n] digit_val_digit_char)
  next
    case False
    with "1.IH" show ?thesis
      by (simp add: nat_digits.simps [of n] digits_val_append digit_val_digit_char)
  qed
qed

lemma nat_digits_chars: "c \<in> set (nat_digits n) \<Longrightarrow> \<exists>d < 10. c = digit_char d"
proof (induction n rule: nat_digits.induct)
  case (1 n)
  show ?case
  proof (cases "n < 10")
    case True
    with "1.prems" show ?thesis by (auto simp: nat_digits.simps [of n])
  next
    case False
    with "1.prems" consider "c \<in> set (nat_digits (n div 10))" | "c = digit_char (n mod 10)"
      by (auto simp: nat_digits.simps [of n])
    then show ?thesis
    proof cases
      case 1
      with "1.IH" False show ?thesis by blast
    next
      case 2
      then show ?thesis by (intro exI [of _ "n mod 10"]) simp
    qed
  qed
qed

lemma digit_char_facts:
  "d < 10 \<Longrightarrow> digit_char d \<noteq> CHR ''-'' \<and> digit_char d \<noteq> CHR ''+''"
  by (auto simp: digit_char_def char_of_eq_iff take_bit_eq_mod)

lemma Atoi_Itoa:
  assumes "in_int64 i"
  shows "Atoi (Itoa i) = Some i"
proof (cases "i < 0")
  case True
  with assms show ?thesis
    by (simp add: Itoa_def Atoi_def parse_nat_def digits_val_nat_digits check_int64_def)
next
  case False
  obtain c cs where cs: "nat_digits (nat i) = c # cs"
    by (cases "nat_digits (nat i)") auto
  then have "c \<in> set (nat_digits (nat i))" by simp
  then have "c \<noteq> CHR ''-'' \<and> c \<noteq> CHR ''+''"
    using nat_digits_chars digit_char_facts by metis
  moreover have "parse_nat (c # cs) = Some (nat i)"
    using digits_val_nat_digits [of "nat i"] cs by (simp add: parse_nat_def)
  ultimately show ?thesis
    using assms False cs by (simp add: Itoa_def Atoi_def check_int64_def)
qed

lemma Atoi_range: "Atoi s = Some i \<Longrightarrow> in_int64 i"
  by (auto simp: Atoi_def check_int64_def split: list.splits if_splits bind_splits)

section \<open>Slices\<close>

text \<open>
  The slice expression \<^verbatim>\<open>s[lo:hi]\<close> panics unless \<^verbatim>\<open>lo <= hi <= len(s)\<close> (for strings and for the
  byte slices of the source, whose capacity the code never relies on); the index expression
  \<^verbatim>\<open>s[i]\<close> panics outside the range.
\<close>

definition slice :: "'a list \<Rightarrow> int \<Rightarrow> int \<Rightarrow> 'a list outcome" where
  "slice s lo hi =
     (if 0 \<le> lo \<and> lo \<le> hi \<and> hi \<le> int (length s) then Ret (take (nat hi - nat lo) (drop (nat lo) s))
      else Panic SliceBounds)"

definition index :: "'a list \<Rightarrow> int \<Rightarrow> 'a outcome" where
  "index s i = (if 0 \<le> i \<and> i < int (length s) then Ret (s ! nat i) else Panic IndexOutOfRange)"

section \<open>Sorting\<close>

text \<open>
  \<^verbatim>\<open>sort.Sort\<close> asks of \<^verbatim>\<open>Less\<close> that it and its negation are transitive, and promises then that the
  result is a permutation in ascending order; elements that \<^verbatim>\<open>Less\<close> does not tell apart (neither
  or both of the two comparisons hold) come in any order.  The routine is therefore a parameter
  of the model, any function with this contract.
\<close>

type_synonym 'a sorter = "('a \<Rightarrow> 'a \<Rightarrow> bool) \<Rightarrow> 'a list \<Rightarrow> 'a list"

definition transitive_ordering :: "'a set \<Rightarrow> ('a \<Rightarrow> 'a \<Rightarrow> bool) \<Rightarrow> bool" where
  "transitive_ordering A lt \<longleftrightarrow>
     (\<forall>x \<in> A. \<forall>y \<in> A. \<forall>z \<in> A. lt x y \<longrightarrow> lt y z \<longrightarrow> lt x z)
   \<and> (\<forall>x \<in> A. \<forall>y \<in> A. \<forall>z \<in> A. \<not> lt x y \<longrightarrow> \<not> lt y z \<longrightarrow> \<not> lt x z)"

definition may_precede :: "('a \<Rightarrow> 'a \<Rightarrow> bool) \<Rightarrow> 'a \<Rightarrow> 'a \<Rightarrow> bool" where
  "may_precede lt a b \<longleftrightarrow> lt a b \<or> \<not> lt b a"

definition sort_contract :: "'a sorter \<Rightarrow> bool" where
  "sort_contract srt \<longleftrightarrow>
     (\<forall>lt xs. mset (srt lt xs) = mset xs)
   \<and> (\<forall>lt xs. transitive_ordering (set xs) lt \<longrightarrow> sorted_wrt (may_precede lt) (srt lt xs))"

text \<open>Insertion sort meets the contract: the instance the witnesses use.\<close>

fun insert_by :: "('a \<Rightarrow> 'a \<Rightarrow> bool) \<Rightarrow> 'a \<Rightarrow> 'a list \<Rightarrow> 'a list" where
  "insert_by lt x [] = [x]"
| "insert_by lt x (y # ys) = (if lt y x then y # insert_by lt x ys else x # y # ys)"

fun insertion_sort :: "'a sorter" where
  "insertion_sort lt [] = []"
| "insertion_sort lt (x # xs) = insert_by lt x (insertion_sort lt xs)"

lemma mset_insert_by [simp]: "mset (insert_by lt x ys) = add_mset x (mset ys)"
  by (induction ys) auto

lemma mset_insertion_sort [simp]: "mset (insertion_sort lt xs) = mset xs"
  by (induction xs) auto

lemma set_insert_by [simp]: "set (insert_by lt x ys) = insert x (set ys)"
  by (simp flip: set_mset_mset)

lemma set_insertion_sort [simp]: "set (insertion_sort lt xs) = set xs"
  by (simp flip: set_mset_mset)

lemma may_precede_trans:
  "transitive_ordering A lt \<Longrightarrow> x \<in> A \<Longrightarrow> y \<in> A \<Longrightarrow> z \<in> A \<Longrightarrow>
   may_precede lt x y \<Longrightarrow> may_precede lt y z \<Longrightarrow> may_precede lt x z"
  unfolding transitive_ordering_def may_precede_def by metis

lemma sorted_insert_by:
  assumes "transitive_ordering A lt" "insert x (set ys) \<subseteq> A" "sorted_wrt (may_precede lt) ys"
  shows "sorted_wrt (may_precede lt) (insert_by lt x ys)"
  using assms(2,3)
proof (induction ys)
  case (Cons y ys)
  show ?case
  proof (cases "lt y x")
    case True
    with Cons show ?thesis by (auto simp: may_precede_def)
  next
    case False
    then have xy: "may_precede lt x y" by (simp add: may_precede_def)
    have "may_precede lt x z" if z: "z \<in> set ys" for z
      using may_precede_trans [OF assms(1) _ _ _ xy, of z] Cons.prems z by auto
    with False xy Cons.prems show ?thesis by auto
  qed
qed simp

lemma transitive_ordering_subset:
  "transitive_ordering A lt \<Longrightarrow> B \<subseteq> A \<Longrightarrow> transitive_ordering B lt"
  unfolding transitive_ordering_def by (meson subsetD)

lemma insertion_sort_contract: "sort_contract insertion_sort"
proof -
  have "sorted_wrt (may_precede lt) (insertion_sort lt xs)"
    if "transitive_ordering (set xs) lt" for lt :: "'a \<Rightarrow> 'a \<Rightarrow> bool" and xs
    using that
  proof (induction xs)
    case (Cons x xs)
    then have "transitive_ordering (set xs) lt" by (auto intro: transitive_ordering_subset)
    with Cons show ?case by (auto intro: sorted_insert_by [where A = "set (x # xs)"])
  qed simp
  then show ?thesis by (simp add: sort_contract_def)
qed

lemma sort_contract_mset: "sort_contract srt \<Longrightarrow> mset (srt lt xs) = mset xs"
  by (simp add: sort_contract_def)

lemma sort_contract_set: "sort_contract srt \<Longrightarrow> set (srt lt xs) = set xs"
  by (metis sort_contract_mset set_mset_mset)

lemma sort_contract_sorted:
  "sort_contract srt \<Longrightarrow> transitive_ordering (set xs) lt \<Longrightarrow> sorted_wrt (may_precede lt) (srt lt xs)"
  by (simp add: sort_contract_def)

text \<open>A \<^verbatim>\<open>Less\<close> that compares a key in a linear order, strictly or not, is a transitive ordering.\<close>

lemma transitive_ordering_less_key:
  "(\<And>x y. x \<in> A \<Longrightarrow> y \<in> A \<Longrightarrow> lt x y \<longleftrightarrow> f x < (f y :: 'k :: linorder)) \<Longrightarrow> transitive_ordering A lt"
  unfolding transitive_ordering_def by auto

lemma transitive_ordering_le_key:
  "(\<And>x y. x \<in> A \<Longrightarrow> y \<in> A \<Longrightarrow> lt x y \<longleftrightarrow> f x \<le> (f y :: 'k :: linorder)) \<Longrightarrow> transitive_ordering A lt"
  unfolding transitive_ordering_def by (auto simp: not_le)

text \<open>The interface of an ordering by key: its clients obtain a list sorted by the key.\<close>

locale key_ordering =
  fixes lt :: "'a \<Rightarrow> 'a \<Rightarrow> bool" and key :: "'a \<Rightarrow> 'k :: linorder" and dom_ok :: "'a \<Rightarrow> bool"
  assumes lt_key: "dom_ok x \<Longrightarrow> dom_ok y \<Longrightarrow> key x \<noteq> key y \<Longrightarrow> lt x y \<longleftrightarrow> key x < key y"
    and lt_tie: "dom_ok x \<Longrightarrow> dom_ok y \<Longrightarrow> key x = key y \<Longrightarrow> lt x y \<longleftrightarrow> lt y x"
    and tie_uniform: "dom_ok x \<Longrightarrow> dom_ok y \<Longrightarrow> key x = key y \<Longrightarrow> lt x y \<longleftrightarrow> lt x x"
begin

lemma lt_imp_le: "dom_ok x \<Longrightarrow> dom_ok y \<Longrightarrow> lt x y \<Longrightarrow> key x \<le> key y"
  by (metis lt_key less_le order_refl)

lemma not_lt_imp_ge: "dom_ok x \<Longrightarrow> dom_ok y \<Longrightarrow> \<not> lt x y \<Longrightarrow> key y \<le> key x"
  by (metis lt_key linorder_le_less_linear order_less_imp_not_eq)

lemma same_key_tie:
  "dom_ok x \<Longrightarrow> dom_ok y \<Longrightarrow> dom_ok z \<Longrightarrow> key x = key y \<Longrightarrow> key x = key z \<Longrightarrow> lt x y \<longleftrightarrow> lt x z"
  using tie_uniform by metis

lemma lt_transitive:
  assumes "dom_ok x" "dom_ok y" "dom_ok z" "lt x y" "lt y z"
  shows "lt x z"
proof -
  have "key x \<le> key y" "key y \<le> key z" using assms lt_imp_le by auto
  then show ?thesis using assms lt_key same_key_tie by (metis order_antisym order_trans le_less)
qed

lemma not_lt_transitive:
  assumes "dom_ok x" "dom_ok y" "dom_ok z" "\<not> lt x y" "\<not> lt y z"
  shows "\<not> lt x z"
proof -
  have "key y \<le> key x" "key z \<le> key y" using assms not_lt_imp_ge by auto
  then show ?thesis using assms lt_key same_key_tie by (metis order_antisym order_trans leD)
qed

lemma ordering_transitive: "\<forall>x \<in> A. dom_ok x \<Longrightarrow> transitive_ordering A lt"
  unfolding transitive_ordering_def using lt_transitive not_lt_transitive by blast

lemma precede_key: "dom_ok x \<Longrightarrow> dom_ok y \<Longrightarrow> may_precede lt x y \<Longrightarrow> key x \<le> key y"
  unfolding may_precede_def by (metis lt_key less_le linorder_not_le)

lemma sort_by_key:
  assumes "sort_contract srt" "\<forall>x \<in> set xs. dom_ok x"
  shows "mset (srt lt xs) = mset xs" "sorted (map key (srt lt xs))"
proof -
  show "mset (srt lt xs) = mset xs" using assms(1) by (rule sort_contract_mset)
  have "sorted_wrt (may_precede lt) (srt lt xs)"
    using assms by (intro sort_contract_sorted ordering_transitive)
  moreover have "\<forall>x \<in> set (srt lt xs). dom_ok x"
    using assms by (simp add: sort_contract_set)
  ultimately show "sorted (map key (srt lt xs))"
    unfolding sorted_map
    by (elim sorted_wrt_mono_rel [rotated]) (auto intro: precede_key)
qed

end

section \<open>Transition systems\<close>

text \<open>
  The states reached from the start by steps, and the interface of an invariant: what holds at the start and is kept by every step holds
  in every reachable state.
\<close>

inductive reachable :: "('s \<Rightarrow> bool) \<Rightarrow> ('s \<Rightarrow> 's \<Rightarrow> bool) \<Rightarrow> 's \<Rightarrow> bool" for start step where
  start: "start s \<Longrightarrow> reachable start step s"
| step: "reachable start step s \<Longrightarrow> step s t \<Longrightarrow> reachable start step t"

locale invariant_system =
  fixes start :: "'s \<Rightarrow> bool" and step :: "'s \<Rightarrow> 's \<Rightarrow> bool" and inv :: "'s \<Rightarrow> bool"
  assumes start_inv: "start s \<Longrightarrow> inv s"
    and step_inv: "step s t \<Longrightarrow> inv s \<Longrightarrow> inv t"
begin

lemma reachable_inv: "reachable start step s \<Longrightarrow> inv s"
  by (induction rule: reachable.induct) (auto intro: start_inv step_inv)

lemma reachable_step_inv: "reachable start step s \<Longrightarrow> step s t \<Longrightarrow> inv t"
  by (rule reachable_inv [OF reachable.step])

end

end
