(* ===== verification/Model.thy ===== *)
theory Model
  imports Prelude "HOL-Library.Product_Lexorder"
begin

text \<open>
  The data model (\<^verbatim>\<open>pkg/model\<close>): the structs the other components exchange, the protocol lookup
  of an asset, the orderings behind the asset, node and system user lists, the expiry check, the
  ticket states and the options of a user client.  Slices that the code tests against \<^verbatim>\<open>nil\<close>
  are optional lists.
\<close>

section \<open>Structs\<close>

record Asset =
  asset_ID :: string
  asset_Name :: string
  Hostname :: string
  IP :: string
  Os :: string
  asset_Comment :: string
  Protocols :: "string list"
  Platform :: string
  asset_IsActive :: bool

record AssetUserInfo =
  aui_ID :: string
  aui_UserID :: string
  aui_AssetID :: string
  aui_ExpireAt :: int
  SysUserID :: "string list"
  EnableVscode :: bool
  aui_NeedConfirm :: bool

record UserLog =
  Datetime :: string
  Type :: string
  log_User :: string
  Log :: string

record Node =
  node_ID :: string
  Key :: string
  node_Name :: string
  AssetIDs :: "string list"

record Session =
  session_ID :: string
  session_User :: string
  session_Asset :: string
  session_SystemUser :: string
  LoginFrom :: string
  session_RemoteAddr :: string
  session_Protocol :: string
  DateStart :: int
  session_UserID :: string
  session_AssetID :: string
  session_SystemUserID :: string

record SystemUser =
  sys_ID :: string
  sys_Username :: string
  Priority :: int
  sys_Protocol :: string
  sys_Comment :: string
  sys_Password :: string
  sys_PrivateKey :: string

record TerminalConfig =
  AssetListPageSize :: string
  HeaderTitle :: string
  HostKey :: string
  MaxIdleTime :: int
  AssetListSortByIp :: bool
  conf_PasswordAuth :: bool
  conf_PublicKeyAuth :: bool
  EnableSessionShare :: bool

record TicketState =
  ts_Approver :: string
  ts_State :: string

record AssetLoginTicketInfo =
  ti_TicketId :: string
  ti_NeedConfirm :: bool
  Reviewers :: "string list"

record LoginTicket =
  TicketId :: string
  State :: string
  Approver :: string
  ApplicationDate :: string
  ApproveDate :: string
  ticket_Username :: string
  AssetName :: string
  SysUsername :: string

record User =
  user_ID :: string
  Username :: string
  Role :: string
  user_ExpireAt :: int
  OTPLevel :: int
  user_IsActive :: bool
  NodeIDs :: "string list"
  AddrWhiteList :: "string list option"

record UserSecret =
  secret_UserID :: string
  secret_Password :: string
  secret_PrivateKey :: string
  AuthorizedKeys :: "string list option"

record UserClient =
  client_Username :: string
  client_Password :: string
  client_PublicKey :: string
  client_RemoteAddr :: string

text \<open>The zero values a Go declaration starts from.\<close>

definition zero_Asset :: Asset where
  "zero_Asset = \<lparr>asset_ID = [], asset_Name = [], Hostname = [], IP = [], Os = [],
     asset_Comment = [], Protocols = [], Platform = [], asset_IsActive = False\<rparr>"

definition zero_SystemUser :: SystemUser where
  "zero_SystemUser = \<lparr>sys_ID = [], sys_Username = [], Priority = 0, sys_Protocol = [],
     sys_Comment = [], sys_Password = [], sys_PrivateKey = []\<rparr>"

definition zero_User :: User where
  "zero_User = \<lparr>user_ID = [], Username = [], Role = [], user_ExpireAt = 0, OTPLevel = 0,
     user_IsActive = False, NodeIDs = [], AddrWhiteList = None\<rparr>"

definition zero_UserSecret :: UserSecret where
  "zero_UserSecret = \<lparr>secret_UserID = [], secret_Password = [], secret_PrivateKey = [],
     AuthorizedKeys = None\<rparr>"

definition zero_TerminalConfig :: TerminalConfig where
  "zero_TerminalConfig = \<lparr>AssetListPageSize = [], HeaderTitle = [], HostKey = [], MaxIdleTime = 0,
     AssetListSortByIp = False, conf_PasswordAuth = False, conf_PublicKeyAuth = False,
     EnableSessionShare = False\<rparr>"

definition zero_AssetLoginTicketInfo :: AssetLoginTicketInfo where
  "zero_AssetLoginTicketInfo = \<lparr>ti_TicketId = [], ti_NeedConfirm = False, Reviewers = []\<rparr>"

definition zero_UserClient :: UserClient where
  "zero_UserClient = \<lparr>client_Username = [], client_Password = [], client_PublicKey = [],
     client_RemoteAddr = []\<rparr>"

section \<open>Assets\<close>

definition ProtocolSSH :: string where
  "ProtocolSSH = ''ssh''"

definition Asset_String :: "Asset \<Rightarrow> string" where
  "Asset_String a = Hostname a @ ''('' @ IP a @ '')''"

text \<open>The loop of \<^verbatim>\<open>ProtocolPort\<close> over the remaining protocol items.\<close>

fun port_of_items :: "string \<Rightarrow> string list \<Rightarrow> int" where
  "port_of_items protocol [] = 0"
| "port_of_items protocol (item # items) =
     (if Contains (ToLower item) (ToLower protocol) then
        (let proAndPort = Split item CHR ''/'' in
         if length proAndPort = 2 then
           (case Atoi (proAndPort ! 1) of
              Some port \<Rightarrow> port
            | None \<Rightarrow> port_of_items protocol items)
         else port_of_items protocol items)
      else port_of_items protocol items)"

definition ProtocolPort :: "Asset \<Rightarrow> string \<Rightarrow> int" where
  "ProtocolPort a protocol = port_of_items protocol (Protocols a)"

definition IsSupportProtocol :: "Asset \<Rightarrow> string \<Rightarrow> bool" where
  "IsSupportProtocol a protocol =
     list_ex (\<lambda>item. Contains (ToLower item) (ToLower protocol)) (Protocols a)"

text \<open>
  The comparison of two dotted addresses, segment by segment: a shorter segment is smaller, equal
  lengths are compared as strings; a proper prefix, and an equal address, counts as smaller.
\<close>

fun segments_less :: "string list \<Rightarrow> string list \<Rightarrow> bool" where
  "segments_less [] js = True"
| "segments_less (i # is) [] = False"
| "segments_less (i # is) (j # js) =
     (if length i = length j then (if i = j then segments_less is js else i < j)
      else length i < length j)"

definition assetSortByIP :: "Asset \<Rightarrow> Asset \<Rightarrow> bool" where
  "assetSortByIP asset1 asset2 =
     segments_less (Split (IP asset1) CHR ''.'') (Split (IP asset2) CHR ''.'')"

definition assetSortByHostName :: "Asset \<Rightarrow> Asset \<Rightarrow> bool" where
  "assetSortByHostName asset1 asset2 = (Hostname asset1 < Hostname asset2)"

definition SortBy :: "Asset sorter \<Rightarrow> Asset list \<Rightarrow> bool \<Rightarrow> Asset list" where
  "SortBy srt a byIp = (if byIp then srt assetSortByIP a else srt assetSortByHostName a)"

section \<open>Nodes\<close>

text \<open>The loop of \<^verbatim>\<open>keySort\<close> over the segments of two node keys.\<close>

fun key_segments_less :: "string list \<Rightarrow> string list \<Rightarrow> bool" where
  "key_segments_less [] js = True"
| "key_segments_less (i # is) [] = False"
| "key_segments_less (i # is) (j # js) =
     (if i = j then key_segments_less is js
      else case Atoi i of
             None \<Rightarrow> True
           | Some node1num \<Rightarrow>
               (case Atoi j of None \<Rightarrow> False | Some node2num \<Rightarrow> node1num < node2num))"

definition keySort :: "Node \<Rightarrow> Node \<Rightarrow> bool" where
  "keySort node1 node2 =
     key_segments_less (Split (Key node1) CHR '':'') (Split (Key node2) CHR '':'')"

definition SortNodesByKey :: "Node sorter \<Rightarrow> Node list \<Rightarrow> Node list" where
  "SortNodesByKey srt nodes = srt keySort nodes"

section \<open>System users\<close>

definition systemUserPrioritySort :: "SystemUser \<Rightarrow> SystemUser \<Rightarrow> bool" where
  "systemUserPrioritySort use1 user2 = (Priority use1 < Priority user2)"

definition SortSystemUserByPriority :: "SystemUser sorter \<Rightarrow> SystemUser list \<Rightarrow> SystemUser list" where
  "SortSystemUserByPriority srt sysUsers = srt systemUserPrioritySort sysUsers"

section \<open>Expiry, tickets, client options\<close>

text \<open>Times are Unix seconds; 0 stands for "never expires".\<close>

definition IsExpired :: "int \<Rightarrow> int \<Rightarrow> bool" where
  "IsExpired ExpireAt now = (if ExpireAt = 0 then False else ExpireAt < now)"

definition TicketOpen :: string where "TicketOpen = ''pending''"
definition TicketApproved :: string where "TicketApproved = ''approved''"
definition TicketRejected :: string where "TicketRejected = ''rejected''"
definition TicketClosed :: string where "TicketClosed = ''closed''"

lemmas ticket_states = TicketOpen_def TicketApproved_def TicketRejected_def TicketClosed_def

type_synonym UserClientOption = "UserClient \<Rightarrow> UserClient"

definition UserClientPassword :: "string \<Rightarrow> UserClientOption" where
  "UserClientPassword password args = args\<lparr>client_Password := password\<rparr>"

definition UserClientPublicKey :: "string \<Rightarrow> UserClientOption" where
  "UserClientPublicKey publicKey args = args\<lparr>client_PublicKey := publicKey\<rparr>"

definition UserClientRemoteAddr :: "string \<Rightarrow> UserClientOption" where
  "UserClientRemoteAddr addr args = args\<lparr>client_RemoteAddr := addr\<rparr>"

definition SetOption :: "UserClientOption list \<Rightarrow> UserClient \<Rightarrow> UserClient" where
  "SetOption setters u = fold (\<lambda>setter. setter) setters u"

section \<open>The orderings are orderings by a key\<close>

text \<open>The key of an address: for each segment its length, then its text, in lexicographic order.\<close>

definition ip_key :: "string \<Rightarrow> (nat \<times> string) list" where
  "ip_key ip = map (\<lambda>s. (length s, s)) (Split ip CHR ''.'')"

text \<open>The path a node key denotes, and the keys whose segments are decimal numbers as \<^verbatim>\<open>Itoa\<close> writes them.\<close>

definition node_path :: "Node \<Rightarrow> int list" where
  "node_path n = map (\<lambda>s. the (Atoi s)) (Split (Key n) CHR '':'')"

definition decimal_segment :: "string \<Rightarrow> bool" where
  "decimal_segment s = (case Atoi s of None \<Rightarrow> False | Some i \<Rightarrow> Itoa i = s)"

definition numeric_key :: "Node \<Rightarrow> bool" where
  "numeric_key n = list_all decimal_segment (Split (Key n) CHR '':'')"

lemma segments_less_key:
  "segments_less is js \<longleftrightarrow> map (\<lambda>s. (length s, s)) is \<le> map (\<lambda>s. (length s, s)) js"
  by (induction "is" js rule: segments_less.induct) (auto simp: less_eq_prod_def less_prod_def)

lemma assetSortByIP_key: "assetSortByIP a b \<longleftrightarrow> ip_key (IP a) \<le> ip_key (IP b)"
  by (simp add: assetSortByIP_def ip_key_def segments_less_key)

lemma key_segments_less_path:
  assumes "list_all decimal_segment is" "list_all decimal_segment js"
  shows "key_segments_less is js \<longleftrightarrow> map (\<lambda>s. the (Atoi s)) is \<le> map (\<lambda>s. the (Atoi s)) js"
  using assms
  by (induction "is" js rule: key_segments_less.induct)
     (auto simp: decimal_segment_def split: option.splits)

lemma keySort_path:
  "numeric_key m \<Longrightarrow> numeric_key n \<Longrightarrow> keySort m n \<longleftrightarrow> node_path m \<le> node_path n"
  by (simp add: keySort_def numeric_key_def node_path_def key_segments_less_path)

interpretation asset_ip: key_ordering assetSortByIP "\<lambda>a. ip_key (IP a)" "\<lambda>_. True"
  by unfold_locales (auto simp: assetSortByIP_key)

interpretation asset_host: key_ordering assetSortByHostName Hostname "\<lambda>_. True"
  by unfold_locales (auto simp: assetSortByHostName_def)

interpretation node_key: key_ordering keySort node_path numeric_key
  by unfold_locales (auto simp: keySort_path)

interpretation sys_prio: key_ordering systemUserPrioritySort Priority "\<lambda>_. True"
  by unfold_locales (auto simp: systemUserPrioritySort_def)

section \<open>Properties\<close>

text \<open>
  Whatever sorting routine meets the contract of \<^verbatim>\<open>sort.Sort\<close>, sorting an asset list by address
  (or by host name) keeps exactly the same assets, and lists them in ascending order of address,
  segment by segment with shorter segments first (or of host name).
\<close>

theorem SortBy_sorted:
  assumes "sort_contract srt"
  shows "mset (SortBy srt a byIp) = mset a
    \<and> (if byIp then sorted (map (\<lambda>x. ip_key (IP x)) (SortBy srt a byIp))
       else sorted (map Hostname (SortBy srt a byIp)))"
  using assms asset_ip.sort_by_key [of srt a] asset_host.sort_by_key [of srt a]
  by (simp add: SortBy_def)

definition example_asset :: "string \<Rightarrow> Asset" where
  "example_asset ip = zero_Asset\<lparr>IP := ip, Protocols := [''ssh/22'']\<rparr>"

theorem SortBy_sorted_witness:
  "sort_contract (insertion_sort :: Asset sorter)
   \<and> sorted (map (\<lambda>x. ip_key (IP x))
       (SortBy insertion_sort [example_asset ''10.0.0.9'', example_asset ''9.0.0.10''] True))"
  using SortBy_sorted [OF insertion_sort_contract, of "[example_asset ''10.0.0.9'', example_asset ''9.0.0.10'']" True]
    insertion_sort_contract
  by simp

text \<open>
  For nodes whose keys are colon-separated decimal numbers, \<^verbatim>\<open>SortNodesByKey\<close> keeps the nodes and
  lists them in the order of the paths they denote: a node comes before the nodes below it, and
  siblings are in numeric, not textual, order.
\<close>

theorem SortNodesByKey_sorted:
  assumes "sort_contract srt" "\<forall>n \<in> set nodes. numeric_key n"
  shows "mset (SortNodesByKey srt nodes) = mset nodes
    \<and> sorted (map node_path (SortNodesByKey srt nodes))"
  using assms node_key.sort_by_key [of srt nodes] by (simp add: SortNodesByKey_def)

definition example_node :: "string \<Rightarrow> Node" where
  "example_node k = \<lparr>node_ID = k, Key = k, node_Name = k, AssetIDs = []\<rparr>"

lemma example_nodes_numeric: "\<forall>n \<in> set (map example_node [''1:10'', ''1:3:0'', ''1'', ''1:3'']). numeric_key n"
  by code_simp

theorem SortNodesByKey_sorted_witness:
  "sort_contract (insertion_sort :: Node sorter)
   \<and> map Key (SortNodesByKey insertion_sort (map example_node [''1:10'', ''1:3:0'', ''1'', ''1:3'']))
      = [''1'', ''1:3'', ''1:3:0'', ''1:10'']
   \<and> sorted (map node_path
       (SortNodesByKey insertion_sort (map example_node [''1:10'', ''1:3:0'', ''1'', ''1:3''])))"
proof -
  have "map Key (SortNodesByKey insertion_sort (map example_node [''1:10'', ''1:3:0'', ''1'', ''1:3'']))
      = [''1'', ''1:3'', ''1:3:0'', ''1:10'']"
    by code_simp
  with SortNodesByKey_sorted [OF insertion_sort_contract example_nodes_numeric] insertion_sort_contract
  show ?thesis by blast
qed

end
