(* ===== verification/Database.thy ===== *)
theory Database
  imports Model
begin

text \<open>
  The database layer (\<^verbatim>\<open>pkg/core/db.go\<close>, \<^verbatim>\<open>pkg/core/genji.go\<close>).  The genji engine is a third-party
  package: it is a parameter, the record \<open>engine\<close> of its two entry points, over an arbitrary type
  of database states.  A statement of the source is an \<open>sql\<close> term (its columns, table and
  conditions; an empty column list is \<^verbatim>\<open>*\<close>); a document of the result is the struct it decodes
  to, or the selected field values, or the error of decoding it.  The wrappers of \<^verbatim>\<open>genji.go\<close>
  are modelled over the engine, and what the callers rely on (a select returns the matching rows,
  an insert appends, an update changes the matching rows, a failed statement changes nothing) is
  the named hypothesis \<open>engine_ok\<close>.
\<close>

section \<open>Rows, statements, the engine\<close>

text \<open>The row types are those of the \<^verbatim>\<open>Model\<close> union of \<^verbatim>\<open>genji.go\<close> and the terminal settings.\<close>

datatype row =
    RAsset Asset
  | RNode Node
  | RUser User
  | RSystemUser SystemUser
  | RAssetUserInfo AssetUserInfo
  | RUserLog UserLog
  | RLoginTicket LoginTicket
  | RUserSecret UserSecret
  | RTerminalConfig TerminalConfig

datatype dbvalue = VStr string | VInt int | VBool bool | VStrs "string list"

datatype cond = Eq string string | In string "string list"

datatype sql =
    Select "string list" string "cond list"
  | Insert string row
  | Update string "(string \<times> string) list" "cond list"

datatype document = Whole row | Fields "dbvalue list"

record 'db engine =
  Query :: "'db \<Rightarrow> sql \<Rightarrow> (document result) list result"
  Exec :: "'db \<Rightarrow> sql \<Rightarrow> goerror option \<times> 'db"

text \<open>The table names of the schema (\<^verbatim>\<open>pkg/initDB/initSchema.go\<close>).\<close>

definition schemas :: "string list" where
  "schemas = [''TERMINALCONF'', ''USER'', ''ASSET'', ''NODE'', ''USERSECRET'', ''SYSTEMUSER'',
     ''ASSETUSERINFO'', ''USERLOG'', ''LOGINTICKET'']"

section \<open>The wrappers of genji.go\<close>

text \<open>
  \<^verbatim>\<open>res.Iterate\<close> calls the callback on each document in turn and stops at its first error; what
  the callback has stored so far stays stored.
\<close>

fun Iterate :: "(document \<Rightarrow> 'a \<Rightarrow> 'a result) \<Rightarrow> document result list \<Rightarrow> 'a \<Rightarrow> 'a \<times> goerror option" where
  "Iterate f [] a = (a, None)"
| "Iterate f (Inl e # ds) a = (a, Some e)"
| "Iterate f (Inr d # ds) a =
     (case f d a of Inl e \<Rightarrow> (a, Some e) | Inr a' \<Rightarrow> Iterate f ds a')"

definition run_query ::
  "'db engine \<Rightarrow> 'db \<Rightarrow> sql \<Rightarrow> (document \<Rightarrow> 'a \<Rightarrow> 'a result) \<Rightarrow> 'a \<Rightarrow> 'a \<times> goerror option" where
  "run_query E db stmt f a =
     (case Query E db stmt of Inl err \<Rightarrow> (a, Some err) | Inr res \<Rightarrow> Iterate f res a)"

text \<open>\<^verbatim>\<open>document.StructScan\<close> and \<^verbatim>\<open>document.Scan\<close> into a target of the expected type.\<close>

definition StructScan :: "(row \<Rightarrow> 'a option) \<Rightarrow> document \<Rightarrow> 'a \<Rightarrow> 'a result" where
  "StructScan pick d a =
     (case d of
        Whole r \<Rightarrow> (case pick r of Some x \<Rightarrow> Inr x | None \<Rightarrow> Inl ''cannot scan'')
      | Fields _ \<Rightarrow> Inl ''cannot scan'')"

definition Scan1 :: "(dbvalue \<Rightarrow> 'a option) \<Rightarrow> document \<Rightarrow> 'a \<Rightarrow> 'a result" where
  "Scan1 dec d a =
     (case d of
        Fields [v] \<Rightarrow> (case dec v of Some x \<Rightarrow> Inr x | None \<Rightarrow> Inl ''cannot scan'')
      | _ \<Rightarrow> Inl ''cannot scan'')"

definition Scan2 :: "(dbvalue \<Rightarrow> 'a option) \<Rightarrow> document \<Rightarrow> 'a \<times> 'a \<Rightarrow> ('a \<times> 'a) result" where
  "Scan2 dec d a =
     (case d of
        Fields [v, w] \<Rightarrow>
          (case (dec v, dec w) of (Some x, Some y) \<Rightarrow> Inr (x, y) | _ \<Rightarrow> Inl ''cannot scan'')
      | _ \<Rightarrow> Inl ''cannot scan'')"

text \<open>Opening and closing the database; \<open>Open\<close> and \<open>close_db\<close> belong to the engine.\<close>

definition NewGenji :: "(string \<Rightarrow> 'db result) \<Rightarrow> string \<Rightarrow> 'db result" where
  "NewGenji Open path = (case Open path of Inl err \<Rightarrow> Inl err | Inr db \<Rightarrow> Inr db)"

definition Genji_Close :: "('db \<Rightarrow> goerror option) \<Rightarrow> 'db \<Rightarrow> goerror option" where
  "Genji_Close close_db db = close_db db"

definition QueryOneField ::
  "'db engine \<Rightarrow> 'db \<Rightarrow> (dbvalue \<Rightarrow> 'a option) \<Rightarrow> 'a \<Rightarrow> sql \<Rightarrow> 'a \<times> goerror option" where
  "QueryOneField E db dec f stmt = run_query E db stmt (Scan1 dec) f"

definition QueryTwoField ::
  "'db engine \<Rightarrow> 'db \<Rightarrow> (dbvalue \<Rightarrow> 'a option) \<Rightarrow> 'a \<times> 'a \<Rightarrow> sql \<Rightarrow> ('a \<times> 'a) \<times> goerror option" where
  "QueryTwoField E db dec f stmt = run_query E db stmt (Scan2 dec) f"

definition QueryStruct ::
  "'db engine \<Rightarrow> 'db \<Rightarrow> (row \<Rightarrow> 'a option) \<Rightarrow> 'a \<Rightarrow> sql \<Rightarrow> 'a \<times> goerror option" where
  "QueryStruct E db pick st stmt = run_query E db stmt (StructScan pick) st"

definition InsertData :: "'db engine \<Rightarrow> 'db \<Rightarrow> sql \<Rightarrow> goerror option \<times> 'db" where
  "InsertData E db stmt = Exec E db stmt"

definition UpdateData :: "'db engine \<Rightarrow> 'db \<Rightarrow> sql \<Rightarrow> goerror option \<times> 'db" where
  "UpdateData E db stmt = Exec E db stmt"

text \<open>\<^verbatim>\<open>queryStructs\<close> appends each decoded struct to the slice it returns.\<close>

definition append_scan :: "(document \<Rightarrow> 'a result) \<Rightarrow> document \<Rightarrow> 'a list \<Rightarrow> 'a list result" where
  "append_scan dec d ms = (case dec d of Inl e \<Rightarrow> Inl e | Inr m \<Rightarrow> Inr (ms @ [m]))"

definition scan_row :: "(row \<Rightarrow> 'a option) \<Rightarrow> document \<Rightarrow> 'a result" where
  "scan_row pick d =
     (case d of
        Whole r \<Rightarrow> (case pick r of Some x \<Rightarrow> Inr x | None \<Rightarrow> Inl ''cannot scan'')
      | Fields _ \<Rightarrow> Inl ''cannot scan'')"

definition queryStructs ::
  "'db engine \<Rightarrow> 'db \<Rightarrow> (row \<Rightarrow> 'a option) \<Rightarrow> sql \<Rightarrow> 'a list \<times> goerror option" where
  "queryStructs E db pick stmt = run_query E db stmt (append_scan (scan_row pick)) []"

definition scan_str :: "document \<Rightarrow> string result" where
  "scan_str d = (case d of Fields [VStr s] \<Rightarrow> Inr s | _ \<Rightarrow> Inl ''cannot scan'')"

definition QueryOneFieldMutilRows :: "'db engine \<Rightarrow> 'db \<Rightarrow> sql \<Rightarrow> string list result" where
  "QueryOneFieldMutilRows E db stmt =
     (case run_query E db stmt (append_scan scan_str) [] of
        (s, None) \<Rightarrow> Inr s
      | (s, Some err) \<Rightarrow> Inl err)"

text \<open>
  The model types (\<^verbatim>\<open>pkg/model/utils.go\<close>), the slice of structs behind the \<^verbatim>\<open>interface{}\<close> result
  of \<^verbatim>\<open>QueryStructs\<close>, and the struct each row decodes to.
\<close>

definition AssetType :: nat where "AssetType = 0"
definition NodeType :: nat where "NodeType = 1"
definition UserType :: nat where "UserType = 2"
definition SystemUserType :: nat where "SystemUserType = 3"
definition AssetUserInfoType :: nat where "AssetUserInfoType = 4"
definition UserlogType :: nat where "UserlogType = 5"
definition LoginTicketType :: nat where "LoginTicketType = 6"
definition UserSecretType :: nat where "UserSecretType = 7"

lemmas model_types = AssetType_def NodeType_def UserType_def SystemUserType_def
  AssetUserInfoType_def UserlogType_def LoginTicketType_def UserSecretType_def

datatype models =
    MAssets "Asset list"
  | MNodes "Node list"
  | MUsers "User list"
  | MSystemUsers "SystemUser list"
  | MAssetUserInfos "AssetUserInfo list"
  | MUserLogs "UserLog list"
  | MLoginTickets "LoginTicket list"
  | MUserSecrets "UserSecret list"

fun the_Asset where "the_Asset (RAsset x) = Some x" | "the_Asset _ = None"
fun the_Node where "the_Node (RNode x) = Some x" | "the_Node _ = None"
fun the_User where "the_User (RUser x) = Some x" | "the_User _ = None"
fun the_SystemUser where "the_SystemUser (RSystemUser x) = Some x" | "the_SystemUser _ = None"
fun the_AssetUserInfo where "the_AssetUserInfo (RAssetUserInfo x) = Some x" | "the_AssetUserInfo _ = None"
fun the_UserLog where "the_UserLog (RUserLog x) = Some x" | "the_UserLog _ = None"
fun the_LoginTicket where "the_LoginTicket (RLoginTicket x) = Some x" | "the_LoginTicket _ = None"
fun the_UserSecret where "the_UserSecret (RUserSecret x) = Some x" | "the_UserSecret _ = None"
fun the_TerminalConfig where "the_TerminalConfig (RTerminalConfig x) = Some x" | "the_TerminalConfig _ = None"

fun the_str where "the_str (VStr s) = Some s" | "the_str _ = None"
fun the_int where "the_int (VInt i) = Some i" | "the_int _ = None"
fun the_bool where "the_bool (VBool b) = Some b" | "the_bool _ = None"
fun the_strs where "the_strs (VStrs ss) = Some ss" | "the_strs _ = None"

definition wrap_models :: "('a list \<Rightarrow> models) \<Rightarrow> 'a list \<times> goerror option \<Rightarrow> models result" where
  "wrap_models c r = (case r of (ms, None) \<Rightarrow> Inr (c ms) | (_, Some err) \<Rightarrow> Inl err)"

definition QueryStructs :: "'db engine \<Rightarrow> 'db \<Rightarrow> nat \<Rightarrow> sql \<Rightarrow> models result" where
  "QueryStructs E db mode stmt =
     (if mode = AssetType then wrap_models MAssets (queryStructs E db the_Asset stmt)
      else if mode = NodeType then wrap_models MNodes (queryStructs E db the_Node stmt)
      else if mode = UserType then wrap_models MUsers (queryStructs E db the_User stmt)
      else if mode = SystemUserType then wrap_models MSystemUsers (queryStructs E db the_SystemUser stmt)
      else if mode = AssetUserInfoType then
        wrap_models MAssetUserInfos (queryStructs E db the_AssetUserInfo stmt)
      else if mode = UserlogType then wrap_models MUserLogs (queryStructs E db the_UserLog stmt)
      else if mode = LoginTicketType then
        wrap_models MLoginTickets (queryStructs E db the_LoginTicket stmt)
      else if mode = UserSecretType then
        wrap_models MUserSecrets (queryStructs E db the_UserSecret stmt)
      else Inl ''invalid model type'')"

text \<open>The method \<^verbatim>\<open>Genji.GetTerminalConfig\<close>: an error yields the zero configuration.\<close>

definition Genji_GetTerminalConfig :: "'db engine \<Rightarrow> 'db \<Rightarrow> TerminalConfig \<times> goerror option" where
  "Genji_GetTerminalConfig E db =
     (case run_query E db (Select [] ''TERMINALCONF'' []) (StructScan the_TerminalConfig) zero_TerminalConfig of
        (t, None) \<Rightarrow> (t, None)
      | (_, Some err) \<Rightarrow> (zero_TerminalConfig, Some err))"

section \<open>What the callers rely on\<close>

text \<open>
  The columns of a row, under the lower-case names the statements use, and the assignment of a
  text column.
\<close>

fun column :: "row \<Rightarrow> string \<Rightarrow> dbvalue option" where
  "column (RAsset a) c =
     (if c = ''id'' then Some (VStr (asset_ID a))
      else if c = ''name'' then Some (VStr (asset_Name a)) else None)"
| "column (RNode n) c = (if c = ''id'' then Some (VStr (node_ID n)) else None)"
| "column (RUser u) c =
     (if c = ''id'' then Some (VStr (user_ID u))
      else if c = ''username'' then Some (VStr (Username u))
      else if c = ''role'' then Some (VStr (Role u)) else None)"
| "column (RSystemUser s) c = (if c = ''id'' then Some (VStr (sys_ID s)) else None)"
| "column (RAssetUserInfo i) c =
     (if c = ''userid'' then Some (VStr (aui_UserID i))
      else if c = ''assetid'' then Some (VStr (aui_AssetID i))
      else if c = ''needconfirm'' then Some (VBool (aui_NeedConfirm i))
      else if c = ''sysuserid'' then Some (VStrs (SysUserID i))
      else if c = ''expireat'' then Some (VInt (aui_ExpireAt i))
      else if c = ''enablevscode'' then Some (VBool (EnableVscode i)) else None)"
| "column (RLoginTicket t) c =
     (if c = ''ticketid'' then Some (VStr (TicketId t))
      else if c = ''state'' then Some (VStr (State t))
      else if c = ''approver'' then Some (VStr (Approver t))
      else if c = ''approvedate'' then Some (VStr (ApproveDate t)) else None)"
| "column (RUserSecret s) c = (if c = ''userid'' then Some (VStr (secret_UserID s)) else None)"
| "column (RUserLog l) c = None"
| "column (RTerminalConfig t) c = None"

fun set_column :: "string \<times> string \<Rightarrow> row \<Rightarrow> row" where
  "set_column (c, v) (RLoginTicket t) =
     RLoginTicket (if c = ''state'' then t\<lparr>State := v\<rparr>
       else if c = ''approver'' then t\<lparr>Approver := v\<rparr>
       else if c = ''approvedate'' then t\<lparr>ApproveDate := v\<rparr> else t)"
| "set_column _ r = r"

fun holds :: "cond \<Rightarrow> row \<Rightarrow> bool" where
  "holds (Eq c v) r = (column r c = Some (VStr v))"
| "holds (In c vs) r = (\<exists>v \<in> set vs. column r c = Some (VStr v))"

definition matches :: "cond list \<Rightarrow> row \<Rightarrow> bool" where
  "matches conds r = list_all (\<lambda>c. holds c r) conds"

definition project :: "string list \<Rightarrow> row \<Rightarrow> document" where
  "project cols r = (if cols = [] then Whole r else Fields (map (\<lambda>c. the (column r c)) cols))"

definition updated :: "(string \<times> string) list \<Rightarrow> cond list \<Rightarrow> row \<Rightarrow> row" where
  "updated sets conds r = (if matches conds r then fold set_column sets r else r)"

text \<open>
  The documented behaviour of the engine, with respect to the contents \<open>tbl db t\<close> of each table
  in insertion order.  Any statement may fail.
\<close>

definition engine_ok :: "'db engine \<Rightarrow> ('db \<Rightarrow> string \<Rightarrow> row list) \<Rightarrow> bool" where
  "engine_ok E tbl \<longleftrightarrow>
     (\<forall>db cols t conds ds. Query E db (Select cols t conds) = Inr ds \<longrightarrow>
        ds = map (\<lambda>r. Inr (project cols r)) (filter (matches conds) (tbl db t)))
   \<and> (\<forall>db db' t r. Exec E db (Insert t r) = (None, db') \<longrightarrow>
        tbl db' = (tbl db)(t := tbl db t @ [r]))
   \<and> (\<forall>db db' t sets conds. Exec E db (Update t sets conds) = (None, db') \<longrightarrow>
        tbl db' = (tbl db)(t := map (updated sets conds) (tbl db t)))
   \<and> (\<forall>db db' s e. Exec E db s = (Some e, db') \<longrightarrow> tbl db' = tbl db)"

lemma engine_select:
  "engine_ok E tbl \<Longrightarrow> Query E db (Select cols t conds) = Inr ds \<Longrightarrow>
   ds = map (\<lambda>r. Inr (project cols r)) (filter (matches conds) (tbl db t))"
  by (simp add: engine_ok_def)

lemma engine_insert:
  "engine_ok E tbl \<Longrightarrow> Exec E db (Insert t r) = (None, db') \<Longrightarrow> tbl db' = (tbl db)(t := tbl db t @ [r])"
  by (simp add: engine_ok_def)

lemma engine_update:
  "engine_ok E tbl \<Longrightarrow> Exec E db (Update t sets conds) = (None, db') \<Longrightarrow>
   tbl db' = (tbl db)(t := map (updated sets conds) (tbl db t))"
  by (simp add: engine_ok_def)

lemma engine_failed: "engine_ok E tbl \<Longrightarrow> Exec E db s = (Some e, db') \<Longrightarrow> tbl db' = tbl db"
  unfolding engine_ok_def by blast

text \<open>An engine with this behaviour: tables in memory, no failures.  The witnesses run on it.\<close>

fun mem_query :: "(string \<Rightarrow> row list) \<Rightarrow> sql \<Rightarrow> (document result) list result" where
  "mem_query db (Select cols t conds) =
     Inr (map (\<lambda>r. Inr (project cols r)) (filter (matches conds) (db t)))"
| "mem_query db _ = Inl ''not a query''"

fun mem_exec :: "(string \<Rightarrow> row list) \<Rightarrow> sql \<Rightarrow> goerror option \<times> (string \<Rightarrow> row list)" where
  "mem_exec db (Insert t r) = (None, db(t := db t @ [r]))"
| "mem_exec db (Update t sets conds) = (None, db(t := map (updated sets conds) (db t)))"
| "mem_exec db (Select cols t conds) = (None, db)"

definition mem_engine :: "(string \<Rightarrow> row list) engine" where
  "mem_engine = \<lparr>Query = mem_query, Exec = mem_exec\<rparr>"

lemma mem_exec_total: "fst (mem_exec db s) = None"
  by (cases s) auto

lemma mem_engine_ok: "engine_ok mem_engine (\<lambda>db. db)"
  unfolding engine_ok_def mem_engine_def
  by (auto dest: arg_cong [where f = fst] simp: mem_exec_total)

section \<open>Reading through the wrappers\<close>

text \<open>A struct query leaves the last matching row, or the initial value when there is none.\<close>

definition last_or :: "'a \<Rightarrow> 'a list \<Rightarrow> 'a" where
  "last_or a xs = (if xs = [] then a else last xs)"

lemma last_or_simps [simp]: "last_or a [] = a" "last_or a (xs @ [x]) = x"
  by (simp_all add: last_or_def)

lemma last_or_Cons: "last_or a (x # xs) = last_or x xs"
  by (simp add: last_or_def)

lemma last_or_cases: "last_or a xs = a \<or> last_or a xs \<in> set xs"
  by (simp add: last_or_def)

lemma Iterate_StructScan:
  assumes "\<forall>r \<in> set rs. pick r \<noteq> None"
  shows "Iterate (StructScan pick) (map (\<lambda>r. Inr (Whole r)) rs) a
     = (last_or a (map (\<lambda>r. the (pick r)) rs), None)"
  using assms by (induction rs arbitrary: a) (auto simp: StructScan_def last_or_Cons)

lemma Iterate_Scan1:
  assumes "\<forall>r \<in> set rs. dec (the (column r c)) \<noteq> None"
  shows "Iterate (Scan1 dec) (map (\<lambda>r. Inr (Fields [the (column r c)])) rs) a
     = (last_or a (map (\<lambda>r. the (dec (the (column r c)))) rs), None)"
  using assms by (induction rs arbitrary: a) (auto simp: Scan1_def last_or_Cons)

lemma Iterate_append_rows:
  assumes "\<forall>r \<in> set rs. pick r \<noteq> None"
  shows "Iterate (append_scan (scan_row pick)) (map (\<lambda>r. Inr (Whole r)) rs) ms
     = (ms @ map (\<lambda>r. the (pick r)) rs, None)"
  using assms by (induction rs arbitrary: ms) (auto simp: append_scan_def scan_row_def)

text \<open>The rows of a table that a condition list selects.\<close>

abbreviation rows_where :: "('db \<Rightarrow> string \<Rightarrow> row list) \<Rightarrow> 'db \<Rightarrow> string \<Rightarrow> cond list \<Rightarrow> row list" where
  "rows_where tbl db t conds \<equiv> filter (matches conds) (tbl db t)"

definition typed_table :: "(row \<Rightarrow> 'a option) \<Rightarrow> row list \<Rightarrow> bool" where
  "typed_table pick rs = list_all (\<lambda>r. pick r \<noteq> None) rs"

lemma QueryStruct_ok:
  assumes "engine_ok E tbl" "typed_table pick (tbl db t)"
    "QueryStruct E db pick st (Select [] t conds) = (x, None)"
  shows "x = last_or st (map (\<lambda>r. the (pick r)) (rows_where tbl db t conds))"
proof -
  from assms(3) obtain ds where "Query E db (Select [] t conds) = Inr ds"
    and it: "Iterate (StructScan pick) ds st = (x, None)"
    by (auto simp: QueryStruct_def run_query_def split: sum.splits)
  with assms(1) have "ds = map (\<lambda>r. Inr (Whole r)) (rows_where tbl db t conds)"
    by (auto dest: engine_select simp: project_def)
  with it assms(2) show ?thesis
    by (auto simp: Iterate_StructScan typed_table_def list_all_iff)
qed

lemma QueryOneField_ok:
  assumes "engine_ok E tbl" "\<forall>r \<in> set (rows_where tbl db t conds). dec (the (column r c)) \<noteq> None"
    "QueryOneField E db dec f (Select [c] t conds) = (x, None)"
  shows "x = last_or f (map (\<lambda>r. the (dec (the (column r c)))) (rows_where tbl db t conds))"
proof -
  from assms(3) obtain ds where "Query E db (Select [c] t conds) = Inr ds"
    and it: "Iterate (Scan1 dec) ds f = (x, None)"
    by (auto simp: QueryOneField_def run_query_def split: sum.splits)
  with assms(1) have "ds = map (\<lambda>r. Inr (Fields [the (column r c)])) (rows_where tbl db t conds)"
    by (auto dest: engine_select simp: project_def)
  with it assms(2) show ?thesis by (auto simp: Iterate_Scan1)
qed

lemma queryStructs_ok:
  assumes "engine_ok E tbl" "typed_table pick (tbl db t)"
    "queryStructs E db pick (Select [] t conds) = (xs, None)"
  shows "xs = map (\<lambda>r. the (pick r)) (rows_where tbl db t conds)"
proof -
  from assms(3) obtain ds where "Query E db (Select [] t conds) = Inr ds"
    and it: "Iterate (append_scan (scan_row pick)) ds [] = (xs, None)"
    by (auto simp: queryStructs_def run_query_def split: sum.splits)
  with assms(1) have "ds = map (\<lambda>r. Inr (Whole r)) (rows_where tbl db t conds)"
    by (auto dest: engine_select simp: project_def)
  with it assms(2) show ?thesis
    by (auto simp: Iterate_append_rows typed_table_def list_all_iff)
qed

end
