(* ===== verification/Utf8.thy ===== *)
theory Utf8
  imports Prelude
begin

text \<open>
  The part of Go's \<^verbatim>\<open>unicode/utf8\<close> and of its string conversions that the terminal, the table and
  the formatted output use.  A rune is a code point, a \<^typ>\<open>nat\<close>; decoding an invalid byte yields
  \<open>RuneError\<close> and consumes one byte, encoding an invalid rune writes the encoding of \<open>RuneError\<close>.
\<close>

type_synonym rune = nat

definition RuneError :: rune where "RuneError = 0xFFFD"

abbreviation byte_of :: "char \<Rightarrow> nat" where "byte_of c \<equiv> of_char c"

definition valid_rune :: "rune \<Rightarrow> bool" where
  "valid_rune r \<longleftrightarrow> r < 0xD800 \<or> 0xE000 \<le> r \<and> r \<le> 0x10FFFF"

definition valid_first :: "nat \<Rightarrow> bool" where
  "valid_first b \<longleftrightarrow> b < 0x80 \<or> 0xC2 \<le> b \<and> b \<le> 0xF4"

definition first_size :: "nat \<Rightarrow> nat" where
  "first_size b =
     (if 0xC2 \<le> b \<and> b \<le> 0xDF then 2 else if 0xE0 \<le> b \<and> b \<le> 0xEF then 3
      else if 0xF0 \<le> b \<and> b \<le> 0xF4 then 4 else 1)"

definition second_ok :: "nat \<Rightarrow> nat \<Rightarrow> bool" where
  "second_ok b c \<longleftrightarrow>
     (if b = 0xE0 then 0xA0 else if b = 0xF0 then 0x90 else 0x80) \<le> c
   \<and> c \<le> (if b = 0xED then 0x9F else if b = 0xF4 then 0x8F else 0xBF)"

definition cont_ok :: "nat \<Rightarrow> bool" where
  "cont_ok c \<longleftrightarrow> 0x80 \<le> c \<and> c \<le> 0xBF"

fun decode_multi :: "nat \<Rightarrow> string \<Rightarrow> rune \<times> nat" where
  "decode_multi b (c1 # cs) =
     (if \<not> second_ok b (byte_of c1) then (RuneError, 1)
      else if first_size b = 2 then ((b - 0xC0) * 64 + (byte_of c1 - 0x80), 2)
      else case cs of
          [] \<Rightarrow> (RuneError, 1)
        | c2 # ds \<Rightarrow>
            if \<not> cont_ok (byte_of c2) then (RuneError, 1)
            else if first_size b = 3 then
              ((b - 0xE0) * 4096 + (byte_of c1 - 0x80) * 64 + (byte_of c2 - 0x80), 3)
            else (case ds of
                [] \<Rightarrow> (RuneError, 1)
              | c3 # _ \<Rightarrow>
                  if \<not> cont_ok (byte_of c3) then (RuneError, 1)
                  else ((b - 0xF0) * 262144 + (byte_of c1 - 0x80) * 4096
                        + (byte_of c2 - 0x80) * 64 + (byte_of c3 - 0x80), 4)))"
| "decode_multi b [] = (RuneError, 1)"

fun DecodeRune :: "string \<Rightarrow> rune \<times> nat" where
  "DecodeRune [] = (RuneError, 0)"
| "DecodeRune (c # cs) =
     (let b = byte_of c in
      if b < 0x80 then (b, 1)
      else if \<not> valid_first b then (RuneError, 1)
      else decode_multi b cs)"

definition FullRune :: "string \<Rightarrow> bool" where
  "FullRune p =
     (case p of
        [] \<Rightarrow> False
      | c # cs \<Rightarrow>
          length p \<ge> first_size (byte_of c)
        \<or> (cs \<noteq> [] \<and> \<not> second_ok (byte_of c) (byte_of (cs ! 0)))
        \<or> (length cs > 1 \<and> \<not> cont_ok (byte_of (cs ! 1))))"

definition EncodeRune :: "rune \<Rightarrow> string" where
  "EncodeRune r0 =
     (let r = (if valid_rune r0 then r0 else RuneError) in
      if r < 0x80 then [char_of r]
      else if r < 0x800 then [char_of (0xC0 + r div 64), char_of (0x80 + r mod 64)]
      else if r < 0x10000 then
        [char_of (0xE0 + r div 4096), char_of (0x80 + r div 64 mod 64), char_of (0x80 + r mod 64)]
      else
        [char_of (0xF0 + r div 262144), char_of (0x80 + r div 4096 mod 64),
         char_of (0x80 + r div 64 mod 64), char_of (0x80 + r mod 64)])"

lemma decode_multi_size:
  "1 \<le> snd (decode_multi b cs) \<and> snd (decode_multi b cs) \<le> Suc (length cs)"
  by (cases "(b, cs)" rule: decode_multi.cases) (auto split: list.splits)

lemma DecodeRune_size: "s \<noteq> [] \<Longrightarrow> 1 \<le> snd (DecodeRune s) \<and> snd (DecodeRune s) \<le> length s"
  using decode_multi_size by (cases s) (auto simp: Let_def)

text \<open>\<^verbatim>\<open>[]rune(s)\<close>, \<^verbatim>\<open>string(rs)\<close>, \<^verbatim>\<open>utf8.RuneCount\<close> and \<^verbatim>\<open>utf8.ValidString\<close>.\<close>

function runes :: "string \<Rightarrow> rune list" where
  "runes s = (if s = [] then [] else fst (DecodeRune s) # runes (drop (snd (DecodeRune s)) s))"
  by pat_completeness auto
termination
proof (relation "measure length")
  fix s :: string
  assume "s \<noteq> []"
  then show "(drop (snd (DecodeRune s)) s, s) \<in> measure length"
    using DecodeRune_size [of s] by (cases s) auto
qed simp

declare runes.simps [simp del]

definition string_of_runes :: "rune list \<Rightarrow> string" where
  "string_of_runes rs = concat (map EncodeRune rs)"

definition RuneCount :: "string \<Rightarrow> nat" where
  "RuneCount s = length (runes s)"

function ValidString :: "string \<Rightarrow> bool" where
  "ValidString s =
     (if s = [] then True
      else DecodeRune s \<noteq> (RuneError, 1) \<and> ValidString (drop (snd (DecodeRune s)) s))"
  by pat_completeness auto
termination
proof (relation "measure length")
  fix s :: string
  assume "s \<noteq> []"
  then show "(drop (snd (DecodeRune s)) s, s) \<in> measure length"
    using DecodeRune_size [of s] by (cases s) auto
qed simp

declare ValidString.simps [simp del]

section \<open>Round trips\<close>

lemma of_char_of_small [simp]: "n < 256 \<Longrightarrow> (of_char (char_of (n :: nat)) :: nat) = n"
  by simp

lemma digits64: "(r :: nat) div 4096 * 4096 + r div 64 mod 64 * 64 + r mod 64 = r"
proof -
  have "r div 4096 = r div 64 div 64" by (simp flip: div_mult2_eq)
  then show ?thesis using div_mult_mod_eq [of r 64] div_mult_mod_eq [of "r div 64" 64] by linarith
qed

lemma div_4096: "(r :: nat) div 4096 = r div 262144 * 64 + r div 4096 mod 64"
proof -
  have "r div 262144 = r div 4096 div 64" by (simp flip: div_mult2_eq)
  then show ?thesis by simp
qed

lemma decode_three:
  assumes "a < 16" "b < 64" "c < 64" "a = 0 \<Longrightarrow> 32 \<le> b" "a = 13 \<Longrightarrow> b < 32"
  shows "DecodeRune ([char_of (0xE0 + a), char_of (0x80 + b), char_of (0x80 + c)] @ s)
    = (a * 4096 + b * 64 + c, 3)"
proof -
  have "0xE0 + a < 256" "0x80 + b < 256" "0x80 + c < 256" using assms by auto
  with assms show ?thesis
    by (auto simp: Let_def valid_first_def first_size_def second_ok_def cont_ok_def)
qed

lemma decode_four:
  assumes "a < 5" "b < 64" "c < 64" "d < 64" "a = 0 \<Longrightarrow> 16 \<le> b" "a = 4 \<Longrightarrow> b < 16"
  shows "DecodeRune ([char_of (0xF0 + a), char_of (0x80 + b), char_of (0x80 + c), char_of (0x80 + d)] @ s)
    = (a * 262144 + b * 4096 + c * 64 + d, 4)"
proof -
  have "0xF0 + a < 256" "0x80 + b < 256" "0x80 + c < 256" "0x80 + d < 256" using assms by auto
  with assms show ?thesis
    by (auto simp: Let_def valid_first_def first_size_def second_ok_def cont_ok_def)
qed

lemma DecodeRune_EncodeRune:
  assumes "valid_rune r"
  shows "DecodeRune (EncodeRune r @ s) = (r, length (EncodeRune r))"
proof -
  consider "r < 0x80" | "0x80 \<le> r" "r < 0x800" | "0x800 \<le> r" "r < 0x10000"
    | "0x10000 \<le> r" by linarith
  then show ?thesis
  proof cases
    case 1
    with assms show ?thesis by (simp add: EncodeRune_def)
  next
    case 2
    then have "r div 64 < 32" "2 \<le> r div 64" by auto
    with 2 assms show ?thesis
      by (simp add: EncodeRune_def Let_def valid_first_def first_size_def second_ok_def)
  next
    case 3
    let ?a = "r div 4096" and ?b = "r div 64 mod 64" and ?c = "r mod 64"
    have e: "?a * 4096 + ?b * 64 + ?c = r" by (rule digits64)
    have bc: "?b < 64" "?c < 64" by auto
    have "?a < 16" using 3 by auto
    moreover have "?a = 0 \<Longrightarrow> 32 \<le> ?b" using 3 e bc by linarith
    moreover have "?a = 13 \<Longrightarrow> ?b < 32" using 3 e bc assms by (auto simp: valid_rune_def)
    ultimately have "DecodeRune ([char_of (0xE0 + ?a), char_of (0x80 + ?b), char_of (0x80 + ?c)] @ s) = (r, 3)"
      using decode_three [of ?a ?b ?c s] bc e by simp
    with 3 assms show ?thesis by (simp add: EncodeRune_def Let_def)
  next
    case 4
    let ?a = "r div 262144" and ?b = "r div 4096 mod 64" and ?c = "r div 64 mod 64" and ?d = "r mod 64"
    have r: "r \<le> 0x10FFFF" using 4 assms by (auto simp: valid_rune_def)
    have e: "?a * 262144 + ?b * 4096 + ?c * 64 + ?d = r"
      using digits64 [of r] div_4096 [of r] by linarith
    have bcd: "?b < 64" "?c < 64" "?d < 64" by auto
    have "?a < 5" using r by auto
    moreover have "?a = 0 \<Longrightarrow> 16 \<le> ?b" using 4 e bcd by linarith
    moreover have "?a = 4 \<Longrightarrow> ?b < 16" using r e bcd by linarith
    ultimately have "DecodeRune ([char_of (0xF0 + ?a), char_of (0x80 + ?b), char_of (0x80 + ?c), char_of (0x80 + ?d)] @ s) = (r, 4)"
      using decode_four [of ?a ?b ?c ?d s] bcd e by simp
    with 4 assms show ?thesis by (simp add: EncodeRune_def Let_def)
  qed
qed

lemma EncodeRune_nonempty [simp]: "EncodeRune r \<noteq> []"
  by (simp add: EncodeRune_def Let_def)

lemma runes_EncodeRune: "valid_rune r \<Longrightarrow> runes (EncodeRune r @ s) = r # runes s"
  by (subst runes.simps) (simp add: DecodeRune_EncodeRune)

lemma runes_Nil [simp]: "runes [] = []"
  by (simp add: runes.simps)

lemma runes_string_of_runes: "\<forall>r \<in> set rs. valid_rune r \<Longrightarrow> runes (string_of_runes rs) = rs"
  by (induction rs) (auto simp: string_of_runes_def runes_EncodeRune)

lemma string_of_runes_append [simp]:
  "string_of_runes (xs @ ys) = string_of_runes xs @ string_of_runes ys"
  by (simp add: string_of_runes_def)

lemma string_of_runes_Nil [simp]: "string_of_runes [] = []"
  by (simp add: string_of_runes_def)

text \<open>ASCII text is its own rune sequence.\<close>

definition ascii :: "string \<Rightarrow> bool" where
  "ascii s = list_all (\<lambda>c. byte_of c < 0x80) s"

lemma EncodeRune_ascii: "r < 0x80 \<Longrightarrow> EncodeRune r = [char_of r]"
  by (simp add: EncodeRune_def valid_rune_def)

lemma runes_ascii: "ascii s \<Longrightarrow> runes s = map byte_of s"
proof (induction s)
  case (Cons c s)
  then show ?case by (subst runes.simps) (simp add: ascii_def)
qed simp

lemma string_of_runes_ascii: "ascii s \<Longrightarrow> string_of_runes (map byte_of s) = s"
  by (induction s) (auto simp: ascii_def string_of_runes_def EncodeRune_ascii)

section \<open>Padded output\<close>

text \<open>The verb \<^verbatim>\<open>%Ns\<close> pads on the left, \<^verbatim>\<open>%-Ns\<close> on the right, counting runes.\<close>

definition pad_left :: "nat \<Rightarrow> string \<Rightarrow> string" where
  "pad_left n s = replicate (n - RuneCount s) CHR '' '' @ s"

definition pad_right :: "nat \<Rightarrow> string \<Rightarrow> string" where
  "pad_right n s = s @ replicate (n - RuneCount s) CHR '' ''"

end
