(* ===== verification/Core.thy ===== *)
theory Core
  imports Database Utf8 "HOL-Library.Word"
begin

text \<open>
  The server core (\<^verbatim>\<open>pkg/core\<close>): its configuration (\<^verbatim>\<open>pkg/config\<close>), its state, the audit log and the
  registry of live sessions.  The methods of \<^verbatim>\<open>Core\<close> thread the state; each critical section of
  the source is one function.  The clock is an input: \<open>date\<close> is the formatted current time.
\<close>

section \<open>Configuration\<close>

record Config =
  BindHost :: string
  SSHPort :: string
  SSHTimeout :: int
  ClientAliveInterval :: int
  LoginBlockTime :: int
  OtpDuration :: int
  LogFile :: string
  LogLevel :: string
  ReplayFolderPath :: string
  conf_Database :: string
  GenjiDbPath :: string
  MaxTryLogin :: "64 word"
  RetryAliveCountMax :: int
  ReuseConnection :: bool
  DisableRecorder :: bool
  EnableLocalPortForward :: bool

definition newDefaultConfig :: Config where
  "newDefaultConfig = \<lparr>BindHost = ''127.0.0.1'', SSHPort = ''22222'', SSHTimeout = 30,
     ClientAliveInterval = 0, LoginBlockTime = 5, OtpDuration = 120, LogFile = ''gojump.log'',
     LogLevel = ''INFO'', ReplayFolderPath = ''gojumpreplay'', conf_Database = ''genji'',
     GenjiDbPath = ''gojumpdb'', MaxTryLogin = 15, RetryAliveCountMax = 0, ReuseConnection = False,
     DisableRecorder = False, EnableLocalPortForward = False\<rparr>"

definition GetConf :: "Config option \<Rightarrow> Config" where
  "GetConf GlobalConfig = (case GlobalConfig of None \<Rightarrow> newDefaultConfig | Some c \<Rightarrow> c)"

text \<open>
  \<^verbatim>\<open>config.Initial\<close>: the configuration reader is a parameter; \<open>read\<close> is the error of reading the
  file, \<open>unmarshal\<close> overwrites the defaults with what the file sets (and may report an error,
  which is only logged).
\<close>

definition Initial :: "goerror option \<Rightarrow> (Config \<Rightarrow> Config \<times> goerror option) \<Rightarrow> Config" where
  "Initial read unmarshal =
     (case read of
        Some err \<Rightarrow> newDefaultConfig
      | None \<Rightarrow> fst (unmarshal newDefaultConfig))"

section \<open>State\<close>

record 'db Core =
  core_db :: 'db
  session :: "string \<Rightarrow> Session option"
  otpassword :: "string \<Rightarrow> string option"
  tryLoginCount :: "string \<Rightarrow> 64 word option"

text \<open>
  \<^verbatim>\<open>NewCore\<close>: \<open>stat\<close> is the error of \<^verbatim>\<open>os.Stat\<close> on the database path and \<open>open_db\<close> opens it; both
  failures end the process (the left results).
\<close>

definition newDataBase :: "Config \<Rightarrow> (string \<Rightarrow> 'db result) \<Rightarrow> string \<Rightarrow> 'db result" where
  "newDataBase cfg open_db db =
     (if db = ''genji'' then NewGenji open_db (GenjiDbPath cfg) else Inl (db @ '' is unsupported''))"

definition NewCore :: "Config \<Rightarrow> goerror option \<Rightarrow> (string \<Rightarrow> 'db result) \<Rightarrow> 'db Core result" where
  "NewCore cfg stat open_db =
     (case stat of
        Some err \<Rightarrow> Inl err
      | None \<Rightarrow>
          (case newDataBase cfg open_db (conf_Database cfg) of
             Inl err \<Rightarrow> Inl err
           | Inr db \<Rightarrow> Inr \<lparr>core_db = db, session = Map.empty, otpassword = Map.empty,
               tryLoginCount = Map.empty\<rparr>))"

section \<open>Audit log\<close>

definition insert_userlog :: "'db engine \<Rightarrow> 'db Core \<Rightarrow> UserLog \<Rightarrow> goerror option \<times> 'db Core" where
  "insert_userlog E c lg =
     (let (err, db') = InsertData E (core_db c) (Insert ''USERLOG'' (RUserLog lg))
      in (err, c\<lparr>core_db := db'\<rparr>))"

definition InteractiveLog :: "'db engine \<Rightarrow> 'db Core \<Rightarrow> string \<Rightarrow> string \<Rightarrow> 'db Core" where
  "InteractiveLog E c date user =
     snd (insert_userlog E c \<lparr>Datetime = date, Type = ''term'', log_User = user, Log = ''exit terminal''\<rparr>)"

definition InsertLog :: "'db engine \<Rightarrow> 'db Core \<Rightarrow> string \<Rightarrow> string \<Rightarrow> string \<Rightarrow> string \<Rightarrow> 'db Core" where
  "InsertLog E c date tp user msg =
     snd (insert_userlog E c \<lparr>Datetime = date, Type = tp, log_User = user, Log = msg\<rparr>)"

definition AuthenticationLog ::
  "'db engine \<Rightarrow> 'db Core \<Rightarrow> string \<Rightarrow> string \<Rightarrow> string \<Rightarrow> string \<Rightarrow> 'db Core" where
  "AuthenticationLog E c date username authMethod remoteAddr =
     snd (insert_userlog E c \<lparr>Datetime = date, Type = ''auth'', log_User = username,
       Log = ''authenticate successfully from '' @ remoteAddr @ '' using '' @ authMethod\<rparr>)"

definition UserLog_line :: "UserLog \<Rightarrow> string" where
  "UserLog_line l = Datetime l @ ''|'' @ pad_left 10 (Type l) @ ''|'' @ pad_left 10 (log_User l) @ ''|'' @ Log l"

definition QueryUserLog :: "'db engine \<Rightarrow> 'db Core \<Rightarrow> string list result" where
  "QueryUserLog E c =
     (case QueryStructs E (core_db c) UserlogType (Select [] ''USERLOG'' []) of
        Inl err \<Rightarrow> Inl err
      | Inr (MUserLogs logs) \<Rightarrow> Inr (map UserLog_line logs)
      | Inr _ \<Rightarrow> Inl ''invalid value type'')"

section \<open>Sessions\<close>

definition CreateSession :: "'db Core \<Rightarrow> Session \<Rightarrow> 'db Core" where
  "CreateSession c s = c\<lparr>session := (session c)(session_ID s \<mapsto> s)\<rparr>"

definition session_log :: "string \<Rightarrow> Session \<Rightarrow> string \<Rightarrow> UserLog" where
  "session_log date s msg = \<lparr>Datetime = date, Type = ''session'', log_User = session_User s, Log = msg\<rparr>"

definition SessionSuccess :: "'db engine \<Rightarrow> 'db Core \<Rightarrow> string \<Rightarrow> string \<Rightarrow> goerror option \<times> 'db Core" where
  "SessionSuccess E c date sid =
     (case session c sid of
        None \<Rightarrow> (None, c)
      | Some s \<Rightarrow>
          insert_userlog E c (session_log date s (''login to '' @ session_Asset s @ '' successfully'')))"

definition delete_session :: "string \<Rightarrow> 'db Core \<Rightarrow> 'db Core" where
  "delete_session sid c = c\<lparr>session := (session c)(sid := None)\<rparr>"

definition SessionFailed ::
  "'db engine \<Rightarrow> 'db Core \<Rightarrow> string \<Rightarrow> string \<Rightarrow> goerror \<Rightarrow> goerror option \<times> 'db Core" where
  "SessionFailed E c date sid cause =
     (case session c sid of
        None \<Rightarrow> (None, c)
      | Some s \<Rightarrow>
          (let (err, c') = insert_userlog E c
             (session_log date s (''login to '' @ session_Asset s @ '' failed, error: '' @ cause))
           in (err, delete_session sid c')))"

definition SessionDisconnect ::
  "'db engine \<Rightarrow> 'db Core \<Rightarrow> string \<Rightarrow> string \<Rightarrow> goerror option \<times> 'db Core" where
  "SessionDisconnect E c date sid =
     (case session c sid of
        None \<Rightarrow> (None, c)
      | Some s \<Rightarrow>
          (let (err, c') = insert_userlog E c (session_log date s (''disconnected to '' @ session_Asset s))
           in (err, delete_session sid c')))"

subsection \<open>What these operations leave unchanged\<close>

lemma insert_userlog_frame [frame_simps]:
  "session (snd (insert_userlog E c lg)) = session c"
  "otpassword (snd (insert_userlog E c lg)) = otpassword c"
  "tryLoginCount (snd (insert_userlog E c lg)) = tryLoginCount c"
  by (simp_all add: insert_userlog_def split: prod.splits)

lemma log_frame [frame_simps]:
  "session (InsertLog E c date tp user msg) = session c"
  "otpassword (InsertLog E c date tp user msg) = otpassword c"
  "tryLoginCount (InsertLog E c date tp user msg) = tryLoginCount c"
  "session (AuthenticationLog E c date u m r) = session c"
  "otpassword (AuthenticationLog E c date u m r) = otpassword c"
  "tryLoginCount (AuthenticationLog E c date u m r) = tryLoginCount c"
  by (simp_all add: InsertLog_def AuthenticationLog_def frame_simps)

lemma session_ops_frame [frame_simps]:
  "otpassword (snd (SessionSuccess E c date sid)) = otpassword c"
  "otpassword (snd (SessionFailed E c date sid e)) = otpassword c"
  "otpassword (snd (SessionDisconnect E c date sid)) = otpassword c"
  "session (snd (SessionSuccess E c date sid)) = session c"
  by (auto simp: SessionSuccess_def SessionFailed_def SessionDisconnect_def delete_session_def Let_def
      frame_simps split: option.splits prod.splits)
     (metis insert_userlog_frame(2) snd_conv)+

lemma session_SessionFailed: "session (snd (SessionFailed E c date sid e)) = (session c)(sid := None)"
proof (cases "session c sid")
  case None
  then show ?thesis by (auto simp: SessionFailed_def)
next
  case (Some s)
  then show ?thesis
    using insert_userlog_frame(1) [of E c]
    by (simp add: SessionFailed_def delete_session_def split: prod.splits) (metis snd_conv)
qed

lemma session_SessionDisconnect: "session (snd (SessionDisconnect E c date sid)) = (session c)(sid := None)"
proof (cases "session c sid")
  case None
  then show ?thesis by (auto simp: SessionDisconnect_def)
next
  case (Some s)
  then show ?thesis
    using insert_userlog_frame(1) [of E c]
    by (simp add: SessionDisconnect_def delete_session_def split: prod.splits) (metis snd_conv)
qed

text \<open>The audit rows of the log table.\<close>

lemma insert_userlog_table:
  assumes "engine_ok E tbl" "insert_userlog E c lg = (None, c')"
  shows "tbl (core_db c') = (tbl (core_db c))(''USERLOG'' := tbl (core_db c) ''USERLOG'' @ [RUserLog lg])"
  using assms by (auto simp: insert_userlog_def InsertData_def dest: engine_insert split: prod.splits)

lemma insert_userlog_failed:
  assumes "engine_ok E tbl" "insert_userlog E c lg = (Some e, c')"
  shows "tbl (core_db c') = tbl (core_db c)"
  using assms by (auto simp: insert_userlog_def InsertData_def dest: engine_failed split: prod.splits)

text \<open>
  A live session that ends is removed from the registry and leaves exactly one audit record:
  when the log insert succeeds, \<^verbatim>\<open>SessionDisconnect\<close> appends one row for the session's user and
  asset to \<^verbatim>\<open>USERLOG\<close> and touches no other table; when it fails, it reports the error, and the
  session is removed all the same.  A second call does nothing.
\<close>

theorem SessionDisconnect_once:
  assumes "engine_ok E tbl" "session c sid = Some s"
    "SessionDisconnect E c date sid = (err, c')"
  shows "session c' = (session c)(sid := None)
    \<and> (if err = None
       then tbl (core_db c') = (tbl (core_db c))(''USERLOG'' := tbl (core_db c) ''USERLOG''
              @ [RUserLog (session_log date s (''disconnected to '' @ session_Asset s))])
       else tbl (core_db c') = tbl (core_db c))
    \<and> SessionDisconnect E c' date' sid = (None, c')"
proof -
  have sess: "session c' = (session c)(sid := None)"
    using session_SessionDisconnect [of E c date sid] assms(3) by simp
  obtain c1 where ins: "insert_userlog E c (session_log date s (''disconnected to '' @ session_Asset s)) = (err, c1)"
    and db: "core_db c' = core_db c1"
    using assms(2,3) by (auto simp: SessionDisconnect_def delete_session_def split: prod.splits)
  show ?thesis
    using sess ins db insert_userlog_table [OF assms(1)] insert_userlog_failed [OF assms(1)]
    by (cases err) (auto simp: SessionDisconnect_def)
qed

definition example_session :: Session where
  "example_session = \<lparr>session_ID = ''s1'', session_User = ''rick'', session_Asset = ''db1(10.0.0.1)'',
     session_SystemUser = ''root'', LoginFrom = ''ST'', session_RemoteAddr = ''127.0.0.1'',
     session_Protocol = ''ssh'', DateStart = 0, session_UserID = ''2'', session_AssetID = ''1'',
     session_SystemUserID = ''1''\<rparr>"

definition empty_core :: "(string \<Rightarrow> row list) Core" where
  "empty_core = \<lparr>core_db = (\<lambda>_. []), session = Map.empty, otpassword = Map.empty, tryLoginCount = Map.empty\<rparr>"

theorem SessionDisconnect_once_witness:
  "let c = CreateSession empty_core example_session; (err, c') = SessionDisconnect mem_engine c ''now'' ''s1''
   in engine_ok mem_engine (\<lambda>db. db) \<and> session c ''s1'' = Some example_session
      \<and> err = None \<and> session c' = Map.empty
      \<and> core_db c' ''USERLOG'' = [RUserLog (session_log ''now'' example_session ''disconnected to db1(10.0.0.1)'')]"
proof -
  let ?c = "CreateSession empty_core example_session"
  obtain err c' where d: "SessionDisconnect mem_engine ?c ''now'' ''s1'' = (err, c')"
    by (cases "SessionDisconnect mem_engine ?c ''now'' ''s1''")
  have s: "session ?c ''s1'' = Some example_session"
    by (simp add: CreateSession_def example_session_def)
  have e: "err = None"
    using d s by (auto simp: SessionDisconnect_def insert_userlog_def InsertData_def mem_engine_def
        split: prod.splits)
  have "session c' = (session ?c)(''s1'' := None)"
    "core_db c' = (core_db ?c)(''USERLOG'' := core_db ?c ''USERLOG''
       @ [RUserLog (session_log ''now'' example_session (''disconnected to '' @ session_Asset example_session))])"
    using SessionDisconnect_once [OF mem_engine_ok s d] e by auto
  then show ?thesis using d s e mem_engine_ok
    by (auto simp: CreateSession_def empty_core_def example_session_def Let_def)
qed

end
