(* ===== verification/Otp.thy ===== *)
theory Otp
  imports Core
begin

text \<open>
  One-time passwords (\<^verbatim>\<open>pkg/core/otp.go\<close>).  The functions are the critical sections of the code; the
  step relation interleaves them the way the goroutines can, with the clear timers that
  \<^verbatim>\<open>GenOTPassword\<close> starts and the verifications that have compared the password but not yet
  removed it.
\<close>

section \<open>Operations\<close>

text \<open>
  \<^verbatim>\<open>randomPass\<close>: the random source is an input, \<open>Some n\<close> with \<open>n < 99999999\<close> or a failure.
\<close>

definition zero_pad :: "nat \<Rightarrow> string \<Rightarrow> string" where
  "zero_pad w s = replicate (w - length s) CHR ''0'' @ s"

definition randomPass :: "nat option \<Rightarrow> string" where
  "randomPass rnd = (case rnd of Some n \<Rightarrow> zero_pad 8 (nat_digits n) | None \<Rightarrow> ''10957890'')"

text \<open>\<^verbatim>\<open>GenOTPassword\<close> returns the password and whether a clear timer was started.\<close>

definition GenOTPassword :: "'db Core \<Rightarrow> string \<Rightarrow> nat option \<Rightarrow> string \<times> bool \<times> 'db Core" where
  "GenOTPassword c name rnd =
     (case otpassword c name of
        Some pass \<Rightarrow> (pass, False, c)
      | None \<Rightarrow>
          (let pass = randomPass rnd
           in (pass, True, c\<lparr>otpassword := (otpassword c)(name \<mapsto> pass)\<rparr>)))"

text \<open>The body of \<^verbatim>\<open>clearOTPassword\<close> after its sleep.\<close>

definition clearOTPassword :: "'db Core \<Rightarrow> string \<Rightarrow> 'db Core" where
  "clearOTPassword c name =
     (case otpassword c name of
        None \<Rightarrow> c
      | Some _ \<Rightarrow> c\<lparr>otpassword := (otpassword c)(name := None)\<rparr>)"

text \<open>\<^verbatim>\<open>verifyOTP\<close> up to the comparison, and the whole of it when nothing else runs in between.\<close>

definition matchOTP :: "'db Core \<Rightarrow> string \<Rightarrow> string \<Rightarrow> bool" where
  "matchOTP c name inputPass =
     (if inputPass = [] then False
      else case otpassword c name of None \<Rightarrow> False | Some pass \<Rightarrow> pass = inputPass)"

definition verifyOTP :: "'db Core \<Rightarrow> string \<Rightarrow> string \<Rightarrow> bool \<times> 'db Core" where
  "verifyOTP c name inputPass =
     (let res = matchOTP c name inputPass
      in (res, if res then clearOTPassword c name else c))"

subsection \<open>Facts\<close>

lemma otpassword_clear [simp]: "otpassword (clearOTPassword c name) = (otpassword c)(name := None)"
  by (auto simp: clearOTPassword_def split: option.splits)

lemma clear_frame [frame_simps]:
  "core_db (clearOTPassword c name) = core_db c"
  "session (clearOTPassword c name) = session c"
  "tryLoginCount (clearOTPassword c name) = tryLoginCount c"
  by (auto simp: clearOTPassword_def split: option.splits)

lemma verifyOTP_frame [frame_simps]:
  "core_db (snd (verifyOTP c name p)) = core_db c"
  "session (snd (verifyOTP c name p)) = session c"
  "tryLoginCount (snd (verifyOTP c name p)) = tryLoginCount c"
  by (simp_all add: verifyOTP_def Let_def frame_simps)

lemma matchOTP_iff: "matchOTP c name p \<longleftrightarrow> p \<noteq> [] \<and> otpassword c name = Some p"
  by (auto simp: matchOTP_def split: option.splits)

lemma length_nat_digits_bound: "n < 10 ^ Suc k \<Longrightarrow> length (nat_digits n) \<le> Suc k"
proof (induction k arbitrary: n)
  case 0
  then show ?case by (simp add: nat_digits.simps)
next
  case (Suc k)
  show ?case
  proof (cases "n < 10")
    case True
    then show ?thesis by (simp add: nat_digits.simps)
  next
    case False
    have "n div 10 < 10 ^ Suc k" using Suc.prems by (simp add: less_mult_imp_div_less)
    with Suc.IH False show ?thesis by (simp add: nat_digits.simps [of n])
  qed
qed

lemma nat_digits_are_digits: "list_all (\<lambda>ch. digit_val ch \<noteq> None) (nat_digits n)"
  using nat_digits_chars digit_val_digit_char by (fastforce simp: list_all_iff)

lemma zero_digit [simp]: "digit_val CHR ''0'' = Some 0"
  by (simp add: digit_val_def less_eq_char_def)

text \<open>
  A generated one-time password is always eight decimal digits, whatever the random source
  yields below its bound and also when it fails, so it is never the empty input that
  \<^verbatim>\<open>verifyOTP\<close> rejects.
\<close>

theorem randomPass_format:
  assumes "case rnd of Some n \<Rightarrow> n < 99999999 | None \<Rightarrow> True"
  shows "length (randomPass rnd) = 8 \<and> list_all (\<lambda>ch. digit_val ch \<noteq> None) (randomPass rnd)"
proof (cases rnd)
  case None
  then show ?thesis by (simp add: randomPass_def digit_val_def less_eq_char_def)
next
  case (Some n)
  with assms have "length (nat_digits n) \<le> 8"
    using length_nat_digits_bound [of n 7] by simp
  with Some show ?thesis
    using nat_digits_are_digits [of n]
    by (auto simp: randomPass_def zero_pad_def list_all_iff zero_digit)
qed

lemma example_pass: "randomPass (Some 42) = ''00000042''"
  by code_simp

theorem randomPass_format_witness:
  "randomPass (Some 42) = ''00000042'' \<and> length (randomPass (Some 42)) = 8
   \<and> list_all (\<lambda>ch. digit_val ch \<noteq> None) (randomPass (Some 42))"
  using randomPass_format [of "Some 42"] by (simp add: example_pass)

text \<open>
  A one-time password works once.  Generating it makes exactly that password valid for that
  name; after a successful verification no password at all is accepted for the name until a new
  one is generated, and the passwords of other names are untouched.
\<close>

theorem verifyOTP_single_use:
  assumes "verifyOTP c name p = (True, c')"
  shows "otpassword c name = Some p \<and> (\<forall>q. fst (verifyOTP c' name q) = False)
    \<and> (\<forall>other q. other \<noteq> name \<longrightarrow> fst (verifyOTP c' other q) = fst (verifyOTP c other q))"
  using assms by (auto simp: verifyOTP_def matchOTP_iff Let_def split: if_splits)

theorem verifyOTP_single_use_witness:
  "let (pass, started, c) = GenOTPassword empty_core ''rick'' (Some 42);
       (res, c') = verifyOTP c ''rick'' pass
   in started \<and> res \<and> fst (verifyOTP c' ''rick'' pass) = False"
proof -
  let ?c = "snd (snd (GenOTPassword empty_core ''rick'' (Some 42)))"
  have "verifyOTP ?c ''rick'' ''00000042'' = (True, clearOTPassword ?c ''rick'')"
    by (simp add: verifyOTP_def matchOTP_iff GenOTPassword_def empty_core_def example_pass Let_def)
  from verifyOTP_single_use [OF this] this show ?thesis
    by (simp add: GenOTPassword_def empty_core_def example_pass Let_def)
qed

section \<open>Interleavings\<close>

text \<open>
  The shared map with the goroutines around it: \<open>timers\<close> are the names whose clear goroutine is
  still asleep, \<open>clearing\<close> the names of verifications between their comparison and their removal,
  \<open>accepted\<close> the passwords for which \<^verbatim>\<open>verifyOTP\<close> answers yes, latest first.
\<close>

record 'db otp_sys =
  otp_core :: "'db Core"
  timers :: "string multiset"
  clearing :: "string multiset"
  accepted :: "(string \<times> string) list"

inductive otp_step :: "'db otp_sys \<Rightarrow> 'db otp_sys \<Rightarrow> bool" where
  gen: "GenOTPassword (otp_core s) name rnd = (pass, started, c') \<Longrightarrow>
     otp_step s (s\<lparr>otp_core := c', timers := (if started then add_mset name (timers s) else timers s)\<rparr>)"
| timer: "name \<in># timers s \<Longrightarrow>
     otp_step s (s\<lparr>otp_core := clearOTPassword (otp_core s) name, timers := timers s - {#name#}\<rparr>)"
| verify: "matchOTP (otp_core s) name p \<Longrightarrow>
     otp_step s (s\<lparr>clearing := add_mset name (clearing s), accepted := (name, p) # accepted s\<rparr>)"
| reject: "\<not> matchOTP (otp_core s) name p \<Longrightarrow> otp_step s s"
| clear: "name \<in># clearing s \<Longrightarrow>
     otp_step s (s\<lparr>otp_core := clearOTPassword (otp_core s) name, clearing := clearing s - {#name#}\<rparr>)"

inductive_cases otp_stepE: "otp_step s t"

definition otp_start :: "'db Core \<Rightarrow> 'db otp_sys \<Rightarrow> bool" where
  "otp_start c0 s \<longleftrightarrow> otpassword c0 = Map.empty \<and> s = \<lparr>otp_core = c0, timers = {#}, clearing = {#}, accepted = []\<rparr>"

abbreviation otp_reachable :: "'db Core \<Rightarrow> 'db otp_sys \<Rightarrow> bool" where
  "otp_reachable c0 \<equiv> reachable (otp_start c0) otp_step"

lemma GenOTPassword_cases:
  assumes "GenOTPassword c name rnd = (pass, started, c')"
  shows "(started \<and> otpassword c name = None \<and> otpassword c' = (otpassword c)(name \<mapsto> pass)
           \<and> pass = randomPass rnd)
       \<or> (\<not> started \<and> c' = c \<and> otpassword c name = Some pass)"
  using assms by (auto simp: GenOTPassword_def Let_def split: option.splits)

definition otp_timed :: "'db otp_sys \<Rightarrow> bool" where
  "otp_timed s \<longleftrightarrow> (\<forall>name. otpassword (otp_core s) name \<noteq> None \<longrightarrow> name \<in># timers s)"

lemma otp_timed_step:
  assumes "otp_step s t" "otp_timed s"
  shows "otp_timed t"
  using assms(1)
proof cases
  case (gen name rnd pass started c')
  with assms(2) GenOTPassword_cases [OF gen(2)] show ?thesis
    by (auto simp: otp_timed_def split: if_splits)
next
  case (timer name)
  with assms(2) show ?thesis by (auto simp: otp_timed_def in_diff_count)
qed (use assms(2) in \<open>auto simp: otp_timed_def split: if_splits\<close>)

lemma otp_timed_start: "otp_start c0 s \<Longrightarrow> otp_timed s"
  by (simp add: otp_start_def otp_timed_def)

interpretation otp: invariant_system "otp_start c0" otp_step otp_timed for c0
  by unfold_locales (blast intro: otp_timed_start otp_timed_step)+

text \<open>
  C40: in every interleaving of generations, verifications and timers, an outstanding one-time
  password has a clear timer that is still running, so it never outlives \<^verbatim>\<open>OtpDuration\<close>; and the
  step in which the timer fires leaves the name without a password.
\<close>

theorem otp_always_expires:
  assumes "otp_reachable c0 s" "otpassword (otp_core s) name = Some p"
  shows "name \<in># timers s
    \<and> otp_step s (s\<lparr>otp_core := clearOTPassword (otp_core s) name, timers := timers s - {#name#}\<rparr>)
    \<and> otpassword (clearOTPassword (otp_core s) name) name = None"
  using assms otp.reachable_inv [OF assms(1)] by (auto simp: otp_timed_def intro: otp_step.timer)

definition otp_after_gen :: "(string \<Rightarrow> row list) otp_sys" where
  "otp_after_gen =
     \<lparr>otp_core = empty_core\<lparr>otpassword := [''rick'' \<mapsto> ''10957890'']\<rparr>,
      timers = {#''rick''#}, clearing = {#}, accepted = []\<rparr>"

lemma otp_after_gen_reachable: "otp_reachable empty_core otp_after_gen"
proof -
  have "otp_step \<lparr>otp_core = empty_core, timers = {#}, clearing = {#}, accepted = []\<rparr> otp_after_gen"
    using otp_step.gen [of "\<lparr>otp_core = empty_core, timers = {#}, clearing = {#}, accepted = []\<rparr>"
        "''rick''" None]
    by (simp add: GenOTPassword_def empty_core_def randomPass_def otp_after_gen_def Let_def)
  then show ?thesis
    by (rule reachable.step [OF reachable.start, rotated]) (simp add: otp_start_def empty_core_def)
qed

theorem otp_always_expires_witness:
  "otp_reachable empty_core otp_after_gen
   \<and> otpassword (otp_core otp_after_gen) ''rick'' = Some ''10957890'' \<and> ''rick'' \<in># timers otp_after_gen"
  using otp_always_expires [OF otp_after_gen_reachable, of "''rick''" "''10957890''"] otp_after_gen_reachable
  by (auto simp: otp_after_gen_def)

text \<open>
  The single use that \<open>verifyOTP_single_use\<close> states holds for verifications that do not overlap only.  \<^verbatim>\<open>verifyOTP\<close> gives up
  the lock between comparing and removing the password, so two logins that overlap are both
  accepted on one generated password.
\<close>

theorem otp_double_accept_race:
  "\<exists>s. otp_reachable empty_core s \<and> accepted s = [(''rick'', ''10957890''), (''rick'', ''10957890'')]
     \<and> size (timers s) = 1"
proof -
  let ?s1 = "otp_after_gen\<lparr>clearing := {#''rick''#}, accepted := [(''rick'', ''10957890'')]\<rparr>"
  let ?s2 = "?s1\<lparr>clearing := {#''rick'', ''rick''#}, accepted := (''rick'', ''10957890'') # accepted ?s1\<rparr>"
  have "otp_step otp_after_gen ?s1"
    using otp_step.verify [of otp_after_gen "''rick''" "''10957890''"]
    by (simp add: matchOTP_iff otp_after_gen_def)
  moreover have "otp_step ?s1 ?s2"
    using otp_step.verify [of ?s1 "''rick''" "''10957890''"]
    by (simp add: matchOTP_iff otp_after_gen_def)
  ultimately have "otp_reachable empty_core ?s2"
    using otp_after_gen_reachable by (blast intro: reachable.step)
  then show ?thesis
    by (intro exI [of _ ?s2]) (simp add: otp_after_gen_def)
qed

text \<open>
  A timer clears whatever password the name has when it fires.  A password that replaces a
  used one can therefore be removed by the timer of its predecessor, while its own timer is
  still running: it can live for less than \<^verbatim>\<open>OtpDuration\<close>.
\<close>

theorem otp_stale_timer_clears_new:
  "\<exists>s t. otp_reachable empty_core s \<and> otpassword (otp_core s) ''rick'' = Some ''00000042''
     \<and> count (timers s) ''rick'' = 2 \<and> otp_step s t
     \<and> otpassword (otp_core t) ''rick'' = None \<and> count (timers t) ''rick'' = 1"
proof -
  let ?s1 = "otp_after_gen\<lparr>clearing := {#''rick''#}, accepted := [(''rick'', ''10957890'')]\<rparr>"
  let ?s2 = "?s1\<lparr>otp_core := clearOTPassword (otp_core ?s1) ''rick'', clearing := {#}\<rparr>"
  let ?s3 = "?s2\<lparr>otp_core := (otp_core ?s2)\<lparr>otpassword := (otpassword (otp_core ?s2))(''rick'' \<mapsto> ''00000042'')\<rparr>,
    timers := {#''rick'', ''rick''#}\<rparr>"
  let ?s4 = "?s3\<lparr>otp_core := clearOTPassword (otp_core ?s3) ''rick'', timers := {#''rick''#}\<rparr>"
  have "otp_step otp_after_gen ?s1"
    using otp_step.verify [of otp_after_gen "''rick''" "''10957890''"]
    by (simp add: matchOTP_iff otp_after_gen_def)
  moreover have "otp_step ?s1 ?s2"
    using otp_step.clear [of "''rick''" ?s1] by simp
  moreover have "otp_step ?s2 ?s3"
    using otp_step.gen [of ?s2 "''rick''" "Some 42"]
    by (simp add: GenOTPassword_def example_pass otp_after_gen_def Let_def)
  moreover have "otp_step ?s3 ?s4"
    using otp_step.timer [of "''rick''" ?s3] by simp
  ultimately have "otp_reachable empty_core ?s3 \<and> otp_step ?s3 ?s4"
    using otp_after_gen_reachable by (blast intro: reachable.step)
  then show ?thesis
    by (intro exI [of _ ?s3] exI [of _ ?s4]) simp
qed

end
