(* ===== verification/LoginLimit.thy ===== *)
theory LoginLimit
  imports Core
begin

text \<open>
  The limit on failed logins (\<^verbatim>\<open>LimitTryLogin\<close> and \<^verbatim>\<open>UserIsBlocked\<close> of \<^verbatim>\<open>pkg/core/auth.go\<close>): a 64-bit
  counter per user name, and the goroutines that reset it.
\<close>

section \<open>Operations\<close>

definition tries :: "'db Core \<Rightarrow> string \<Rightarrow> 64 word" where
  "tries c user = (case tryLoginCount c user of None \<Rightarrow> 0 | Some cnt \<Rightarrow> cnt)"

text \<open>\<^verbatim>\<open>LimitTryLogin\<close> returns whether it started a reset goroutine.\<close>

definition LimitTryLogin :: "'db Core \<Rightarrow> string \<Rightarrow> bool \<times> 'db Core" where
  "LimitTryLogin c user =
     (let cnt = tries c user; ok = (tryLoginCount c user \<noteq> None)
      in (\<not> ok, c\<lparr>tryLoginCount := (tryLoginCount c)(user \<mapsto> cnt + 1)\<rparr>))"

text \<open>The goroutine's work once \<^verbatim>\<open>LoginBlockTime\<close> minutes have passed.\<close>

definition resetTryLogin :: "'db Core \<Rightarrow> string \<Rightarrow> 'db Core" where
  "resetTryLogin c user = c\<lparr>tryLoginCount := (tryLoginCount c)(user := None)\<rparr>"

definition UserIsBlocked :: "Config \<Rightarrow> 'db Core \<Rightarrow> string \<Rightarrow> bool" where
  "UserIsBlocked cfg c user = (MaxTryLogin cfg \<le> tries c user)"

lemma LimitTryLogin_frame [frame_simps]:
  "core_db (snd (LimitTryLogin c user)) = core_db c"
  "session (snd (LimitTryLogin c user)) = session c"
  "otpassword (snd (LimitTryLogin c user)) = otpassword c"
  by (simp_all add: LimitTryLogin_def Let_def)

lemma tries_LimitTryLogin [simp]:
  "tries (snd (LimitTryLogin c user)) u = (if u = user then tries c u + 1 else tries c u)"
  by (simp add: LimitTryLogin_def tries_def Let_def)

lemma tryLoginCount_LimitTryLogin:
  "tryLoginCount (snd (LimitTryLogin c user)) = (tryLoginCount c)(user \<mapsto> tries c user + 1)"
  by (simp add: LimitTryLogin_def Let_def)

lemma tries_resetTryLogin [simp]:
  "tries (resetTryLogin c user) u = (if u = user then 0 else tries c u)"
  by (simp add: resetTryLogin_def tries_def)

lemma tries_cong: "tryLoginCount c = tryLoginCount c' \<Longrightarrow> tries c = tries c'"
  by (auto simp: tries_def)

section \<open>Interleavings\<close>

text \<open>
  \<open>resets\<close> are the reset goroutines still waiting; \<open>failures\<close> counts, per name, the calls of
  \<^verbatim>\<open>LimitTryLogin\<close> since the name was last reset.
\<close>

record 'db limit_sys =
  lim_core :: "'db Core"
  resets :: "string multiset"
  failures :: "string \<Rightarrow> nat"

inductive limit_step :: "'db limit_sys \<Rightarrow> 'db limit_sys \<Rightarrow> bool" where
  fail: "LimitTryLogin (lim_core s) user = (started, c') \<Longrightarrow>
     limit_step s (s\<lparr>lim_core := c', resets := (if started then add_mset user (resets s) else resets s),
       failures := (failures s)(user := failures s user + 1)\<rparr>)"
| reset: "user \<in># resets s \<Longrightarrow>
     limit_step s (s\<lparr>lim_core := resetTryLogin (lim_core s) user, resets := resets s - {#user#},
       failures := (failures s)(user := 0)\<rparr>)"

definition limit_start :: "'db Core \<Rightarrow> 'db limit_sys \<Rightarrow> bool" where
  "limit_start c0 s \<longleftrightarrow> tryLoginCount c0 = Map.empty \<and> s = \<lparr>lim_core = c0, resets = {#}, failures = (\<lambda>_. 0)\<rparr>"

abbreviation limit_reachable :: "'db Core \<Rightarrow> 'db limit_sys \<Rightarrow> bool" where
  "limit_reachable c0 \<equiv> reachable (limit_start c0) limit_step"

definition limit_inv :: "'db limit_sys \<Rightarrow> bool" where
  "limit_inv s \<longleftrightarrow>
     (\<forall>u. count (resets s) u = (if tryLoginCount (lim_core s) u = None then 0 else 1)
        \<and> tries (lim_core s) u = of_nat (failures s u)
        \<and> (failures s u = 0 \<longleftrightarrow> tryLoginCount (lim_core s) u = None))"

lemma limit_step_inv:
  assumes "limit_step s t" "limit_inv s"
  shows "limit_inv t"
  using assms
proof cases
  case (fail user started c')
  then have "c' = snd (LimitTryLogin (lim_core s) user)" "started = (tryLoginCount (lim_core s) user = None)"
    by (auto simp: LimitTryLogin_def Let_def)
  with fail(1) assms(2) show ?thesis
    by (simp add: limit_inv_def tryLoginCount_LimitTryLogin)
next
  case (reset user)
  with assms(2) show ?thesis
    by (simp add: limit_inv_def) (simp add: resetTryLogin_def)
qed

lemma limit_start_inv: "limit_start c0 s \<Longrightarrow> limit_inv s"
  by (simp add: limit_start_def limit_inv_def tries_def)

interpretation limit: invariant_system "limit_start c0" limit_step limit_inv for c0
  by unfold_locales (blast intro: limit_start_inv limit_step_inv)+

text \<open>
  C7: in every reachable state, however failed logins and reset goroutines interleave, a user is
  blocked exactly when the failures recorded since the last reset number at least
  \<^verbatim>\<open>MaxTryLogin\<close> (up to the width of the counter), and a user with a failure on record has
  exactly one reset goroutine waiting, whose step clears the count: no block is permanent.
\<close>

theorem blocked_iff_failures:
  assumes "limit_reachable c0 s" "failures s user < 2 ^ 64"
  shows "(UserIsBlocked cfg (lim_core s) user \<longleftrightarrow> unat (MaxTryLogin cfg) \<le> failures s user)
    \<and> (0 < failures s user \<longrightarrow> count (resets s) user = 1
        \<and> (\<exists>t. limit_step s t \<and> tries (lim_core t) user = 0))"
proof -
  note inv = limit.reachable_inv [OF assms(1), unfolded limit_inv_def, rule_format, of user]
  have "unat (tries (lim_core s) user) = failures s user"
    using inv assms(2) by (simp add: unat_of_nat)
  then have "UserIsBlocked cfg (lim_core s) user \<longleftrightarrow> unat (MaxTryLogin cfg) \<le> failures s user"
    by (simp add: UserIsBlocked_def word_le_nat_alt)
  moreover have "count (resets s) user = 1 \<and> (\<exists>t. limit_step s t \<and> tries (lim_core t) user = 0)"
    if "0 < failures s user"
  proof -
    from inv that have one: "count (resets s) user = 1" by (simp split: if_splits)
    then have "user \<in># resets s" by (metis count_inI zero_neq_one)
    from limit_step.reset [OF this] one show ?thesis by fastforce
  qed
  ultimately show ?thesis by blast
qed

definition one_failure :: "(string \<Rightarrow> row list) limit_sys" where
  "one_failure = \<lparr>lim_core = empty_core\<lparr>tryLoginCount := [''rick'' \<mapsto> 1]\<rparr>,
     resets = {#''rick''#}, failures = (\<lambda>_. 0)(''rick'' := 1)\<rparr>"

lemma one_failure_reachable: "limit_reachable empty_core one_failure"
proof -
  have "limit_step \<lparr>lim_core = empty_core, resets = {#}, failures = (\<lambda>_. 0)\<rparr> one_failure"
    using limit_step.fail [of "\<lparr>lim_core = empty_core, resets = {#}, failures = (\<lambda>_. 0)\<rparr>" "''rick''"]
    by (simp add: LimitTryLogin_def tries_def one_failure_def empty_core_def Let_def)
  then show ?thesis
    by (rule reachable.step [OF reachable.start, rotated]) (simp add: limit_start_def empty_core_def)
qed

theorem blocked_iff_failures_witness:
  "limit_reachable empty_core one_failure
   \<and> UserIsBlocked (newDefaultConfig\<lparr>MaxTryLogin := 1\<rparr>) (lim_core one_failure) ''rick''
   \<and> \<not> UserIsBlocked newDefaultConfig (lim_core one_failure) ''rick''"
  using one_failure_reachable
    blocked_iff_failures [OF one_failure_reachable, of "''rick''" "newDefaultConfig\<lparr>MaxTryLogin := 1\<rparr>"]
    blocked_iff_failures [OF one_failure_reachable, of "''rick''" newDefaultConfig]
  by (simp add: one_failure_def newDefaultConfig_def)

end
