(* ===== verification/Directory.thy ===== *)
theory Directory
  imports Otp LoginLimit
begin

text \<open>
  Users, assets, nodes and system users as the core reads them from the database
  (\<^verbatim>\<open>pkg/core/user.go\<close>, \<^verbatim>\<open>utils.go\<close>, \<^verbatim>\<open>asset.go\<close>, \<^verbatim>\<open>node.go\<close>, \<^verbatim>\<open>systemUser.go\<close>): the check of a user's
  credentials, the assets a user may reach, direct logins and the listings for administrators.
  The password hash comparison \<open>compare\<close> and the time format \<open>unix_format\<close> are parameters.
\<close>

section \<open>Users\<close>

definition GetUser :: "'db engine \<Rightarrow> 'db Core \<Rightarrow> string \<Rightarrow> User \<times> goerror option" where
  "GetUser E c name =
     (case QueryStruct E (core_db c) the_User zero_User (Select [] ''USER'' [Eq ''username'' name]) of
        (user, Some err) \<Rightarrow> (user, Some err)
      | (user, None) \<Rightarrow>
          if user_ID user = [] then (user, Some (''querying user: '' @ name @ '' failed''))
          else (user, None))"

text \<open>An authorized key matches when its second blank-separated part is the offered key.\<close>

fun doPublicKeyMatch :: "string list \<Rightarrow> string \<Rightarrow> bool" where
  "doPublicKeyMatch [] currPubkey = False"
| "doPublicKeyMatch (v # authKeys) currPubkey =
     (let keyInfo = Split v CHR '' ''
      in if length keyInfo < 2 then doPublicKeyMatch authKeys currPubkey
         else if keyInfo ! 1 = currPubkey then True
         else doPublicKeyMatch authKeys currPubkey)"

definition doPasswordsMatch :: "(string \<Rightarrow> string \<Rightarrow> goerror option) \<Rightarrow> string \<Rightarrow> string \<Rightarrow> bool" where
  "doPasswordsMatch compare hashedPassword currPassword =
     (if currPassword = [] then False else compare hashedPassword currPassword = None)"

definition UserAuthenticate ::
  "'db engine \<Rightarrow> (string \<Rightarrow> string \<Rightarrow> goerror option) \<Rightarrow> 'db Core \<Rightarrow> string \<Rightarrow> string \<Rightarrow> string
   \<Rightarrow> (User \<times> bool) \<times> 'db Core" where
  "UserAuthenticate E compare c username pass pubKey =
     (case GetUser E c username of
        (user, Some err) \<Rightarrow> ((user, False), c)
      | (user, None) \<Rightarrow>
          if \<not> user_IsActive user then ((user, False), c)
          else if OTPLevel user = 1 then
            (let (res, c') = verifyOTP c (Username user) pass in ((user, res), c'))
          else
            (case QueryStruct E (core_db c) the_UserSecret zero_UserSecret
                    (Select [] ''USERSECRET'' [Eq ''userid'' (user_ID user)]) of
               (sec, Some err) \<Rightarrow> ((user, False), c)
             | (sec, None) \<Rightarrow>
                 if secret_UserID sec = [] then ((user, False), c)
                 else if pubKey \<noteq> [] then
                   ((user, doPublicKeyMatch (case AuthorizedKeys sec of None \<Rightarrow> [] | Some ks \<Rightarrow> ks) pubKey), c)
                 else ((user, doPasswordsMatch compare (secret_Password sec) pass), c)))"

section \<open>Assets and nodes\<close>

definition GetAssetById :: "'db engine \<Rightarrow> 'db Core \<Rightarrow> string \<Rightarrow> Asset \<times> goerror option" where
  "GetAssetById E c assetID =
     QueryStruct E (core_db c) the_Asset zero_Asset (Select [] ''ASSET'' [Eq ''id'' assetID])"

definition GetAssetByName :: "'db engine \<Rightarrow> 'db Core \<Rightarrow> string \<Rightarrow> Asset \<times> goerror option" where
  "GetAssetByName E c name =
     QueryStruct E (core_db c) the_Asset zero_Asset (Select [] ''ASSET'' [Eq ''name'' name])"

definition getNodes :: "'db engine \<Rightarrow> 'db Core \<Rightarrow> string list \<Rightarrow> Node list result" where
  "getNodes E c nodeIDs =
     (case QueryStructs E (core_db c) NodeType (Select [] ''NODE'' [In ''id'' nodeIDs]) of
        Inl err \<Rightarrow> Inl err
      | Inr (MNodes nodes) \<Rightarrow> Inr nodes
      | Inr _ \<Rightarrow> Inl ''invalid value type'')"

definition getAssets :: "'db engine \<Rightarrow> 'db Core \<Rightarrow> string list \<Rightarrow> Asset list result" where
  "getAssets E c assetIDs =
     (case QueryStructs E (core_db c) AssetType (Select [] ''ASSET'' [In ''id'' assetIDs]) of
        Inl err \<Rightarrow> Inl err
      | Inr (MAssets assets) \<Rightarrow> Inr assets
      | Inr _ \<Rightarrow> Inl ''invalid value type'')"

text \<open>The map the menus show of an asset; all its values are strings.\<close>

type_synonym asset_map = "string \<Rightarrow> string option"

definition asset_entry :: "Asset \<Rightarrow> asset_map" where
  "asset_entry v = [''id'' \<mapsto> asset_ID v, ''hostname'' \<mapsto> Hostname v, ''ip'' \<mapsto> IP v,
     ''platform'' \<mapsto> Platform v, ''comment'' \<mapsto> asset_Comment v]"

definition GetAllUserPermsAssets ::
  "'db engine \<Rightarrow> 'db Core \<Rightarrow> string list \<Rightarrow> (asset_map list \<times> Node list) result" where
  "GetAllUserPermsAssets E c nodeIDs =
     (case getNodes E c nodeIDs of
        Inl err \<Rightarrow> Inl err
      | Inr nas \<Rightarrow>
          (case getAssets E c (concat (map AssetIDs nas)) of
             Inl err \<Rightarrow> Inl err
           | Inr ats \<Rightarrow> Inr (map asset_entry ats, nas)))"

section \<open>Permissions of a user on an asset\<close>

abbreviation aui_conds :: "string \<Rightarrow> string \<Rightarrow> cond list" where
  "aui_conds userID assetID \<equiv> [Eq ''userid'' userID, Eq ''assetid'' assetID]"

definition QueryAssetUserExpire :: "'db engine \<Rightarrow> 'db Core \<Rightarrow> string \<Rightarrow> string \<Rightarrow> int result" where
  "QueryAssetUserExpire E c userID assetID =
     (case QueryOneField E (core_db c) the_int 0
             (Select [''expireat''] ''ASSETUSERINFO'' (aui_conds userID assetID)) of
        (_, Some err) \<Rightarrow> Inl err
      | (expireat, None) \<Rightarrow> Inr expireat)"

definition QueryAssetUserVscodePerm :: "'db engine \<Rightarrow> 'db Core \<Rightarrow> string \<Rightarrow> string \<Rightarrow> bool \<times> goerror option" where
  "QueryAssetUserVscodePerm E c userID assetID =
     (case QueryOneField E (core_db c) the_bool False
             (Select [''enablevscode''] ''ASSETUSERINFO'' (aui_conds userID assetID)) of
        (_, Some err) \<Rightarrow> (False, Some err)
      | (enable, None) \<Rightarrow> (enable, None))"

definition GetTerminalConfig :: "'db engine \<Rightarrow> 'db Core \<Rightarrow> TerminalConfig \<times> goerror option" where
  "GetTerminalConfig E c =
     (case QueryStruct E (core_db c) the_TerminalConfig zero_TerminalConfig (Select [] ''TERMINALCONF'' []) of
        (_, Some err) \<Rightarrow> (zero_TerminalConfig, Some err)
      | (t, None) \<Rightarrow> (t, None))"

definition getSystemUsers :: "'db engine \<Rightarrow> 'db Core \<Rightarrow> string list \<Rightarrow> SystemUser list result" where
  "getSystemUsers E c ids =
     (case QueryStructs E (core_db c) SystemUserType (Select [] ''SYSTEMUSER'' [In ''id'' ids]) of
        Inl err \<Rightarrow> Inl err
      | Inr (MSystemUsers sys) \<Rightarrow> Inr sys
      | Inr _ \<Rightarrow> Inl ''invalid value type'')"

definition GetSystemUsersByUserIdAndAssetId ::
  "'db engine \<Rightarrow> 'db Core \<Rightarrow> string \<Rightarrow> string \<Rightarrow> SystemUser list result" where
  "GetSystemUsersByUserIdAndAssetId E c userID assetID =
     (case QueryOneField E (core_db c) the_strs []
             (Select [''sysuserid''] ''ASSETUSERINFO'' (aui_conds userID assetID)) of
        (_, Some err) \<Rightarrow> Inl err
      | (sysIDs, None) \<Rightarrow> getSystemUsers E c sysIDs)"

text \<open>
  \<^verbatim>\<open>directLogin\<close> is the map \<^verbatim>\<open>parseUserFormatBySeparator\<close> builds; a key that is absent reads as the
  empty string.  The loop keeps the last system user of the wanted name.
\<close>

definition QueryDirectLoginInfo ::
  "'db engine \<Rightarrow> 'db Core \<Rightarrow> string \<Rightarrow> (string \<Rightarrow> string option) \<Rightarrow> (Asset \<times> SystemUser) result" where
  "QueryDirectLoginInfo E c userID directLogin =
     (case GetAssetByName E c (lookup_str directLogin ''asset'') of
        (_, Some err) \<Rightarrow> Inl err
      | (asset, None) \<Rightarrow>
          if asset_ID asset = [] then Inl (''asset '' @ lookup_str directLogin ''asset'' @ '' not found'')
          else
            (case GetSystemUsersByUserIdAndAssetId E c userID (asset_ID asset) of
               Inl err \<Rightarrow> Inl err
             | Inr sysUsers \<Rightarrow>
                 (let sysUser = fold (\<lambda>v acc. if sys_Username v = lookup_str directLogin ''sysuser'' then v else acc)
                        sysUsers zero_SystemUser
                  in if sys_ID sysUser = []
                     then Inl (''system user '' @ lookup_str directLogin ''sysuser'' @ '' not found'')
                     else Inr (asset, sysUser))))"

section \<open>Listings\<close>

definition bool_str :: "bool \<Rightarrow> string" where
  "bool_str b = (if b then ''true'' else ''false'')"

definition expire_str :: "(int \<Rightarrow> string) \<Rightarrow> int \<Rightarrow> string" where
  "expire_str unix_format t = (if t = 0 then ''9999-12-31 23:59:59'' else unix_format t)"

definition bar :: "string list \<Rightarrow> string" where
  "bar cols = Join cols ''|''"

definition masked :: "string \<Rightarrow> string" where
  "masked s = (if s \<noteq> [] then ''********'' else [])"

definition list_lines :: "(models \<Rightarrow> string list option) \<Rightarrow> models result \<Rightarrow> string list result" where
  "list_lines lines v =
     (case v of
        Inl err \<Rightarrow> Inl err
      | Inr ms \<Rightarrow> (case lines ms of None \<Rightarrow> Inl ''invalid value type'' | Some ls \<Rightarrow> Inr ls))"

definition user_line :: "(int \<Rightarrow> string) \<Rightarrow> User \<Rightarrow> string" where
  "user_line unix_format v = bar [pad_left 4 (user_ID v), pad_left 10 (Username v), pad_left 6 (Role v),
     expire_str unix_format (user_ExpireAt v), pad_left 9 (Itoa (OTPLevel v)),
     pad_left 6 (bool_str (user_IsActive v)), pad_left 16 (Join (NodeIDs v) '',''),
     Join (case AddrWhiteList v of None \<Rightarrow> [] | Some l \<Rightarrow> l) '','']"

definition QueryAllUser :: "'db engine \<Rightarrow> (int \<Rightarrow> string) \<Rightarrow> 'db Core \<Rightarrow> string list result" where
  "QueryAllUser E unix_format c =
     list_lines (\<lambda>m. case m of MUsers users \<Rightarrow> Some (map (user_line unix_format) users) | _ \<Rightarrow> None)
       (QueryStructs E (core_db c) UserType (Select [] ''USER'' []))"

definition secret_line :: "UserSecret \<Rightarrow> string" where
  "secret_line v = bar [pad_left 4 (secret_UserID v), pad_left 8 (masked (secret_Password v)),
     pad_left 11 (masked (secret_PrivateKey v)),
     (case AuthorizedKeys v of None \<Rightarrow> [] | Some ks \<Rightarrow> Join (map (\<lambda>_. ''********'') ks) '','')]"

definition QueryAllUserSecret :: "'db engine \<Rightarrow> 'db Core \<Rightarrow> string list result" where
  "QueryAllUserSecret E c =
     list_lines (\<lambda>m. case m of MUserSecrets secrets \<Rightarrow> Some (map secret_line secrets) | _ \<Rightarrow> None)
       (QueryStructs E (core_db c) UserSecretType (Select [] ''USERSECRET'' []))"

definition asset_line :: "Asset \<Rightarrow> string" where
  "asset_line v = bar [pad_left 4 (asset_ID v), pad_left 10 (asset_Name v), pad_left 10 (Hostname v),
     pad_left 39 (IP v), pad_left 10 (Os v), pad_left 6 (bool_str (asset_IsActive v)),
     pad_left 10 (Platform v), pad_left 15 (Join (Protocols v) '',''), asset_Comment v]"

definition QueryAllAsset :: "'db engine \<Rightarrow> 'db Core \<Rightarrow> string list result" where
  "QueryAllAsset E c =
     list_lines (\<lambda>m. case m of MAssets assets \<Rightarrow> Some (map asset_line assets) | _ \<Rightarrow> None)
       (QueryStructs E (core_db c) AssetType (Select [] ''ASSET'' []))"

definition aui_line :: "(int \<Rightarrow> string) \<Rightarrow> AssetUserInfo \<Rightarrow> string" where
  "aui_line unix_format v = bar [pad_left 4 (aui_ID v), pad_left 7 (aui_UserID v), pad_left 8 (aui_AssetID v),
     expire_str unix_format (aui_ExpireAt v), pad_left 12 (bool_str (aui_NeedConfirm v)),
     pad_left 14 (bool_str (EnableVscode v)), Join (SysUserID v) '','']"

definition QueryAssetUserInfo :: "'db engine \<Rightarrow> (int \<Rightarrow> string) \<Rightarrow> 'db Core \<Rightarrow> string list result" where
  "QueryAssetUserInfo E unix_format c =
     list_lines (\<lambda>m. case m of MAssetUserInfos aus \<Rightarrow> Some (map (aui_line unix_format) aus) | _ \<Rightarrow> None)
       (QueryStructs E (core_db c) AssetUserInfoType (Select [] ''ASSETUSERINFO'' []))"

definition node_line :: "Node \<Rightarrow> string" where
  "node_line v = bar [pad_left 4 (node_ID v), pad_left 10 (node_Name v), pad_left 10 (Key v),
     Join (AssetIDs v) '','']"

definition QueryAllNode :: "'db engine \<Rightarrow> 'db Core \<Rightarrow> string list result" where
  "QueryAllNode E c =
     list_lines (\<lambda>m. case m of MNodes nodes \<Rightarrow> Some (map node_line nodes) | _ \<Rightarrow> None)
       (QueryStructs E (core_db c) NodeType (Select [] ''NODE'' []))"

definition sys_line :: "SystemUser \<Rightarrow> string" where
  "sys_line v = bar [pad_left 4 (sys_ID v), pad_left 10 (sys_Username v), pad_left 8 (Itoa (Priority v)),
     pad_left 8 (sys_Protocol v), pad_left 8 (masked (sys_Password v)),
     pad_left 11 (masked (sys_PrivateKey v)), sys_Comment v]"

definition QueryAllSystemUser :: "'db engine \<Rightarrow> 'db Core \<Rightarrow> string list result" where
  "QueryAllSystemUser E c =
     list_lines (\<lambda>m. case m of MSystemUsers sys \<Rightarrow> Some (map sys_line sys) | _ \<Rightarrow> None)
       (QueryStructs E (core_db c) SystemUserType (Select [] ''SYSTEMUSER'' []))"

section \<open>Facts\<close>

lemma QueryStruct_row:
  assumes "engine_ok E tbl" "typed_table pick (tbl db t)"
    "QueryStruct E db pick st (Select [] t conds) = (x, None)" "x \<noteq> st"
  obtains r where "r \<in> set (tbl db t)" "matches conds r" "pick r = Some x"
proof -
  have "x \<in> set (map (\<lambda>r. the (pick r)) (rows_where tbl db t conds))"
    using QueryStruct_ok [OF assms(1-3)] assms(4) last_or_cases [of st] by metis
  then obtain r where "r \<in> set (tbl db t)" "matches conds r" "x = the (pick r)" by auto
  with assms(2) that [of r] show thesis by (auto simp: typed_table_def list_all_iff)
qed

lemma the_User_Some [simp]: "the_User r = Some u \<longleftrightarrow> r = RUser u" by (cases r) auto
lemma the_UserSecret_Some [simp]: "the_UserSecret r = Some u \<longleftrightarrow> r = RUserSecret u" by (cases r) auto
lemma the_Asset_Some [simp]: "the_Asset r = Some u \<longleftrightarrow> r = RAsset u" by (cases r) auto
lemma the_Node_Some [simp]: "the_Node r = Some u \<longleftrightarrow> r = RNode u" by (cases r) auto
lemma the_SystemUser_Some [simp]: "the_SystemUser r = Some u \<longleftrightarrow> r = RSystemUser u" by (cases r) auto
lemma the_AssetUserInfo_Some [simp]: "the_AssetUserInfo r = Some u \<longleftrightarrow> r = RAssetUserInfo u" by (cases r) auto

lemma matches_simps [simp]: "matches [] r" "matches (c # cs) r \<longleftrightarrow> holds c r \<and> matches cs r"
  by (simp_all add: matches_def)

lemma GetUser_ok:
  assumes "engine_ok E tbl" "typed_table the_User (tbl (core_db c) ''USER'')" "GetUser E c name = (user, None)"
  shows "RUser user \<in> set (tbl (core_db c) ''USER'') \<and> Username user = name \<and> user_ID user \<noteq> []"
proof -
  from assms(3) have q: "QueryStruct E (core_db c) the_User zero_User
      (Select [] ''USER'' [Eq ''username'' name]) = (user, None)" and sid: "user_ID user \<noteq> []"
    by (auto simp: GetUser_def split: prod.splits option.splits if_splits)
  then have "user \<noteq> zero_User" by (auto simp: zero_User_def)
  from QueryStruct_row [OF assms(1,2) q this] sid show ?thesis by auto
qed

lemma doPublicKeyMatch_iff:
  "doPublicKeyMatch keys k \<longleftrightarrow> (\<exists>v \<in> set keys. \<exists>kind rest. Split v CHR '' '' = kind # k # rest)"
proof (induction keys)
  case (Cons v keys)
  have "(\<exists>kind rest. Split v CHR '' '' = kind # k # rest)
      \<longleftrightarrow> 2 \<le> length (Split v CHR '' '') \<and> Split v CHR '' '' ! 1 = k"
    by (cases "Split v CHR '' ''"; cases "tl (Split v CHR '' '')") auto
  with Cons show ?case by (auto simp: Let_def)
qed simp

text \<open>
  The evidence for a user: the pending one-time password of the name when the user is at OTP
  level 1; otherwise, for a non-empty offered key, an authorized key of that user with it as
  second part, and for no key, a non-empty password that compares equal to the stored hash.
\<close>

definition key_listed :: "UserSecret \<Rightarrow> string \<Rightarrow> bool" where
  "key_listed sec pubKey \<longleftrightarrow> (\<exists>ks v kind rest. AuthorizedKeys sec = Some ks \<and> v \<in> set ks
     \<and> Split v CHR '' '' = kind # pubKey # rest)"

definition evidence ::
  "(string \<Rightarrow> string \<Rightarrow> goerror option) \<Rightarrow> (string \<Rightarrow> row list) \<Rightarrow> 'db Core \<Rightarrow> User \<Rightarrow> string \<Rightarrow> string \<Rightarrow> bool" where
  "evidence compare tables c user pass pubKey \<longleftrightarrow>
     (if OTPLevel user = 1 then pass \<noteq> [] \<and> otpassword c (Username user) = Some pass
      else \<exists>sec. RUserSecret sec \<in> set (tables ''USERSECRET'') \<and> secret_UserID sec = user_ID user
        \<and> (if pubKey \<noteq> [] then key_listed sec pubKey
           else pass \<noteq> [] \<and> compare (secret_Password sec) pass = None))"

lemma doPublicKeyMatch_listed:
  "doPublicKeyMatch (case AuthorizedKeys sec of None \<Rightarrow> [] | Some ks \<Rightarrow> ks) k \<longleftrightarrow> key_listed sec k"
  by (cases "AuthorizedKeys sec") (auto simp: doPublicKeyMatch_iff key_listed_def)

lemma UserAuthenticate_sound:
  assumes "engine_ok E tbl" "typed_table the_User (tbl (core_db c) ''USER'')"
    "typed_table the_UserSecret (tbl (core_db c) ''USERSECRET'')"
    "UserAuthenticate E compare c username pass pubKey = ((user, True), c')"
  shows "RUser user \<in> set (tbl (core_db c) ''USER'') \<and> Username user = username \<and> user_IsActive user
    \<and> evidence compare (tbl (core_db c)) c user pass pubKey"
proof -
  from assms(4) have get: "GetUser E c username = (user, None)" and act: "user_IsActive user"
    by (auto simp: UserAuthenticate_def Let_def split: prod.splits option.splits if_splits)
  note user = GetUser_ok [OF assms(1,2) get]
  show ?thesis
  proof (cases "OTPLevel user = 1")
    case True
    with assms(4) get act user show ?thesis
      by (auto simp: UserAuthenticate_def verifyOTP_def matchOTP_iff evidence_def Let_def)
  next
    case False
    with assms(4) get act obtain sec where
      q: "QueryStruct E (core_db c) the_UserSecret zero_UserSecret
            (Select [] ''USERSECRET'' [Eq ''userid'' (user_ID user)]) = (sec, None)"
      and sid: "secret_UserID sec \<noteq> []"
      and ok: "if pubKey \<noteq> [] then doPublicKeyMatch (case AuthorizedKeys sec of None \<Rightarrow> [] | Some ks \<Rightarrow> ks) pubKey
        else doPasswordsMatch compare (secret_Password sec) pass"
      by (auto simp: UserAuthenticate_def split: prod.splits option.splits if_splits)
    from sid have "sec \<noteq> zero_UserSecret" by (auto simp: zero_UserSecret_def)
    from QueryStruct_row [OF assms(1,3) q this]
    have "RUserSecret sec \<in> set (tbl (core_db c) ''USERSECRET'') \<and> secret_UserID sec = user_ID user"
      by auto
    moreover from ok have "if pubKey \<noteq> [] then key_listed sec pubKey
      else pass \<noteq> [] \<and> compare (secret_Password sec) pass = None"
      by (auto simp: doPublicKeyMatch_listed doPasswordsMatch_def split: if_splits)
    ultimately show ?thesis using False user act unfolding evidence_def by metis
  qed
qed

text \<open>
  Conversely, when the queries succeed, a stored active user whose name and secret are stored
  once is accepted on such evidence.
\<close>

definition queries_succeed :: "'db engine \<Rightarrow> 'db \<Rightarrow> bool" where
  "queries_succeed E db \<longleftrightarrow> (\<forall>cols t conds. \<exists>ds. Query E db (Select cols t conds) = Inr ds)"

lemma QueryStruct_only:
  assumes "engine_ok E tbl" "queries_succeed E db" "pick r = Some x" "rows_where tbl db t conds = [r]"
  shows "QueryStruct E db pick st (Select [] t conds) = (x, None)"
proof -
  obtain ds where "Query E db (Select [] t conds) = Inr ds"
    using assms(2) unfolding queries_succeed_def by blast
  with engine_select [OF assms(1) this] assms(3,4) show ?thesis
    by (simp add: QueryStruct_def run_query_def project_def StructScan_def)
qed

lemma UserAuthenticate_complete:
  assumes "engine_ok E tbl" "queries_succeed E (core_db c)"
    "rows_where tbl (core_db c) ''USER'' [Eq ''username'' username] = [RUser user]"
    "rows_where tbl (core_db c) ''USERSECRET'' [Eq ''userid'' (user_ID user)] = [RUserSecret sec]"
    "user_ID user \<noteq> []" "user_IsActive user" "evidence compare (tbl (core_db c)) c user pass pubKey"
  shows "fst (UserAuthenticate E compare c username pass pubKey) = (user, True)"
proof -
  have get: "GetUser E c username = (user, None)"
    using QueryStruct_only [of E tbl "core_db c" the_User "RUser user" user "[Eq ''username'' username]"
        "''USER''" zero_User] assms(1-3,5)
    by (simp add: GetUser_def)
  have sec: "QueryStruct E (core_db c) the_UserSecret zero_UserSecret
      (Select [] ''USERSECRET'' [Eq ''userid'' (user_ID user)]) = (sec, None)"
    using QueryStruct_only [of E tbl "core_db c" the_UserSecret "RUserSecret sec" sec
        "[Eq ''userid'' (user_ID user)]" "''USERSECRET''"] assms(1,2,4) by simp
  from assms(4) have "RUserSecret sec \<in> set (rows_where tbl (core_db c) ''USERSECRET'' [Eq ''userid'' (user_ID user)])"
    by simp
  then have sid: "secret_UserID sec = user_ID user" by simp
  have only: "s = sec" if "RUserSecret s \<in> set (tbl (core_db c) ''USERSECRET'')" "secret_UserID s = user_ID user" for s
  proof -
    from that have "RUserSecret s \<in> set (rows_where tbl (core_db c) ''USERSECRET'' [Eq ''userid'' (user_ID user)])"
      by simp
    with assms(4) show ?thesis by simp
  qed
  show ?thesis
  proof (cases "OTPLevel user = 1")
    case True
    with assms(6,7) get show ?thesis
      by (simp add: UserAuthenticate_def evidence_def verifyOTP_def matchOTP_iff Let_def)
  next
    case False
    with assms(7) only have "if pubKey \<noteq> [] then key_listed sec pubKey
        else pass \<noteq> [] \<and> compare (secret_Password sec) pass = None"
      unfolding evidence_def by metis
    with False get sec sid assms(5,6) show ?thesis
      by (auto simp: UserAuthenticate_def doPublicKeyMatch_listed doPasswordsMatch_def split: if_splits)
  qed
qed

text \<open>A small directory: one user, who may log in to one asset as one system user.\<close>

definition example_user :: User where
  "example_user = \<lparr>user_ID = ''2'', Username = ''rick'', Role = ''user'', user_ExpireAt = 0, OTPLevel = 0,
     user_IsActive = True, NodeIDs = [''1''], AddrWhiteList = None\<rparr>"

definition example_secret :: UserSecret where
  "example_secret = \<lparr>secret_UserID = ''2'', secret_Password = ''H:pw'', secret_PrivateKey = [],
     AuthorizedKeys = Some [''ssh-rsa AAAA rick'']\<rparr>"

definition example_db1 :: Asset where
  "example_db1 = \<lparr>asset_ID = ''7'', asset_Name = ''db'', Hostname = ''db1'', IP = ''10.0.0.1'', Os = ''linux'',
     asset_Comment = [], Protocols = [''ssh/22''], Platform = ''linux'', asset_IsActive = True\<rparr>"

definition example_root :: SystemUser where
  "example_root = \<lparr>sys_ID = ''3'', sys_Username = ''root'', Priority = 1, sys_Protocol = ''ssh'',
     sys_Comment = [], sys_Password = ''secret'', sys_PrivateKey = []\<rparr>"

definition example_aui :: AssetUserInfo where
  "example_aui = \<lparr>aui_ID = ''1'', aui_UserID = ''2'', aui_AssetID = ''7'', aui_ExpireAt = 0, SysUserID = [''3''],
     EnableVscode = False, aui_NeedConfirm = True\<rparr>"

definition example_data :: "string \<Rightarrow> row list" where
  "example_data t =
     (if t = ''USER'' then [RUser example_user]
      else if t = ''USERSECRET'' then [RUserSecret example_secret]
      else if t = ''ASSET'' then [RAsset example_db1]
      else if t = ''NODE'' then [RNode \<lparr>node_ID = ''1'', Key = ''1'', node_Name = ''root'', AssetIDs = [''7'']\<rparr>]
      else if t = ''SYSTEMUSER'' then [RSystemUser example_root]
      else if t = ''ASSETUSERINFO'' then [RAssetUserInfo example_aui]
      else [])"

definition example_core :: "(string \<Rightarrow> row list) Core" where
  "example_core = empty_core\<lparr>core_db := example_data\<rparr>"

definition example_compare :: "string \<Rightarrow> string \<Rightarrow> goerror option" where
  "example_compare h p = (if h = ''H:'' @ p then None else Some ''mismatch'')"

lemmas example_defs = example_user_def example_secret_def example_db1_def example_root_def example_aui_def

lemma example_typed:
  "typed_table the_User (core_db example_core ''USER'')"
  "typed_table the_UserSecret (core_db example_core ''USERSECRET'')"
  "typed_table the_Asset (core_db example_core ''ASSET'')"
  "typed_table the_Node (core_db example_core ''NODE'')"
  "typed_table the_SystemUser (core_db example_core ''SYSTEMUSER'')"
  "typed_table the_AssetUserInfo (core_db example_core ''ASSETUSERINFO'')"
  by (simp_all add: example_core_def example_data_def typed_table_def)

lemma example_password_login:
  "fst (UserAuthenticate mem_engine example_compare example_core ''rick'' ''pw'' []) = (example_user, True)"
  by code_simp

section \<open>What a user can reach\<close>

lemma wrap_models_Inr: "wrap_models k r = Inr m \<longleftrightarrow> (\<exists>ms. r = (ms, None) \<and> m = k ms)"
  by (auto simp: wrap_models_def split: prod.splits option.splits)

lemma structs_by_id:
  assumes "engine_ok E tbl" "typed_table pick (tbl db t)" "\<And>r x. pick r = Some x \<Longrightarrow> con x = r"
    "queryStructs E db pick (Select [] t [In ''id'' ids]) = (xs, None)"
  shows "map con xs = filter (holds (In ''id'' ids)) (tbl db t)"
proof -
  have "con (the (pick r)) = r" if "r \<in> set (tbl db t)" for r
    using that assms(2,3) by (auto simp: typed_table_def list_all_iff)
  then have "map (\<lambda>r. con (the (pick r))) (filter (matches [In ''id'' ids]) (tbl db t))
      = filter (holds (In ''id'' ids)) (tbl db t)"
    by (subst map_cong [OF refl, where g = "\<lambda>r. r"]) (auto simp: matches_def intro!: filter_cong)
  then show ?thesis using queryStructs_ok [OF assms(1,2,4)] by (simp add: comp_def)
qed

lemma getNodes_Inr:
  "getNodes E c ids = Inr xs
     \<longleftrightarrow> queryStructs E (core_db c) the_Node (Select [] ''NODE'' [In ''id'' ids]) = (xs, None)"
  by (auto simp: getNodes_def QueryStructs_def model_types wrap_models_def split: prod.splits option.splits)

lemma getAssets_Inr:
  "getAssets E c ids = Inr xs
     \<longleftrightarrow> queryStructs E (core_db c) the_Asset (Select [] ''ASSET'' [In ''id'' ids]) = (xs, None)"
  by (auto simp: getAssets_def QueryStructs_def model_types wrap_models_def split: prod.splits option.splits)

lemma getSystemUsers_Inr:
  "getSystemUsers E c ids = Inr xs
     \<longleftrightarrow> queryStructs E (core_db c) the_SystemUser (Select [] ''SYSTEMUSER'' [In ''id'' ids]) = (xs, None)"
  by (auto simp: getSystemUsers_def QueryStructs_def model_types wrap_models_def split: prod.splits option.splits)

lemma getNodes_ok:
  assumes "engine_ok E tbl" "typed_table the_Node (tbl (core_db c) ''NODE'')" "getNodes E c ids = Inr nodes"
  shows "map RNode nodes = filter (holds (In ''id'' ids)) (tbl (core_db c) ''NODE'')"
  by (rule structs_by_id [OF assms(1,2) _ assms(3) [unfolded getNodes_Inr]]) simp

lemma getAssets_ok:
  assumes "engine_ok E tbl" "typed_table the_Asset (tbl (core_db c) ''ASSET'')" "getAssets E c ids = Inr assets"
  shows "map RAsset assets = filter (holds (In ''id'' ids)) (tbl (core_db c) ''ASSET'')"
  by (rule structs_by_id [OF assms(1,2) _ assms(3) [unfolded getAssets_Inr]]) simp

lemma getSystemUsers_ok:
  assumes "engine_ok E tbl" "typed_table the_SystemUser (tbl (core_db c) ''SYSTEMUSER'')"
    "getSystemUsers E c ids = Inr sys"
  shows "map RSystemUser sys = filter (holds (In ''id'' ids)) (tbl (core_db c) ''SYSTEMUSER'')"
  by (rule structs_by_id [OF assms(1,2) _ assms(3) [unfolded getSystemUsers_Inr]]) simp

lemma map_con_mem: "map con xs = filter P rs \<Longrightarrow> inj con \<Longrightarrow> x \<in> set xs \<longleftrightarrow> con x \<in> set rs \<and> P (con x)"
proof -
  assume "map con xs = filter P rs" "inj con"
  then have "con ` set xs = {r \<in> set rs. P r}" by (metis set_filter set_map)
  with \<open>inj con\<close> show ?thesis by (metis (no_types, lifting) inj_image_mem_iff mem_Collect_eq)
qed

text \<open>
  C19: the assets \<^verbatim>\<open>GetAllUserPermsAssets\<close> lists are exactly the stored assets whose id some stored
  node with one of the given node ids holds, in table order, and the nodes are exactly those
  nodes: a user sees nothing outside the granted nodes and misses nothing inside them.
\<close>

theorem GetAllUserPermsAssets_scope:
  assumes "engine_ok E tbl" "typed_table the_Node (tbl (core_db c) ''NODE'')"
    "typed_table the_Asset (tbl (core_db c) ''ASSET'')"
    "GetAllUserPermsAssets E c nodeIDs = Inr (res, nodes)"
  shows "(\<forall>n. n \<in> set nodes \<longleftrightarrow> RNode n \<in> set (tbl (core_db c) ''NODE'') \<and> node_ID n \<in> set nodeIDs)
    \<and> (\<exists>ats. res = map asset_entry ats
        \<and> map RAsset ats = filter (holds (In ''id'' (concat (map AssetIDs nodes)))) (tbl (core_db c) ''ASSET'')
        \<and> (\<forall>a. a \<in> set ats \<longleftrightarrow> RAsset a \<in> set (tbl (core_db c) ''ASSET'')
              \<and> (\<exists>n \<in> set nodes. asset_ID a \<in> set (AssetIDs n))))"
proof -
  from assms(4) obtain ats where nodes: "getNodes E c nodeIDs = Inr nodes"
    and ats: "getAssets E c (concat (map AssetIDs nodes)) = Inr ats" and res: "res = map asset_entry ats"
    by (auto simp: GetAllUserPermsAssets_def split: sum.splits)
  note n = getNodes_ok [OF assms(1,2) nodes] and a = getAssets_ok [OF assms(1,3) ats]
  have "\<forall>n. n \<in> set nodes \<longleftrightarrow> RNode n \<in> set (tbl (core_db c) ''NODE'') \<and> node_ID n \<in> set nodeIDs"
    using map_con_mem [OF n] by (auto simp: inj_def)
  moreover have "\<forall>x. x \<in> set ats \<longleftrightarrow> RAsset x \<in> set (tbl (core_db c) ''ASSET'')
              \<and> (\<exists>n \<in> set nodes. asset_ID x \<in> set (AssetIDs n))"
    using map_con_mem [OF a] by (auto simp: inj_def)
  ultimately show ?thesis using res a by blast
qed

definition example_root_node :: Node where
  "example_root_node = \<lparr>node_ID = ''1'', Key = ''1'', node_Name = ''root'', AssetIDs = [''7'']\<rparr>"

lemma example_nodes: "getNodes mem_engine example_core [''1''] = Inr [example_root_node]"
  by code_simp

lemma example_assets: "getAssets mem_engine example_core [''7''] = Inr [example_db1]"
  by code_simp

lemma example_perms:
  "GetAllUserPermsAssets mem_engine example_core [''1''] = Inr ([asset_entry example_db1], [example_root_node])"
  using example_assets by (simp add: GetAllUserPermsAssets_def example_nodes example_root_node_def)

theorem GetAllUserPermsAssets_scope_witness:
  "engine_ok mem_engine (\<lambda>db. db)
   \<and> (\<exists>ats. [asset_entry example_db1] = map asset_entry ats \<and> map RAsset ats = core_db example_core ''ASSET'')"
proof -
  obtain ats where "[asset_entry example_db1] = map asset_entry ats"
    "map RAsset ats = filter (holds (In ''id'' (concat (map AssetIDs [example_root_node]))))
       (core_db example_core ''ASSET'')"
    using conjunct2 [OF GetAllUserPermsAssets_scope [OF mem_engine_ok example_typed(4,3) example_perms]]
    by (elim exE conjE) (rule that)
  moreover have "filter (holds (In ''id'' (concat (map AssetIDs [example_root_node])))) (core_db example_core ''ASSET'')
      = core_db example_core ''ASSET''"
    by code_simp
  ultimately have "map RAsset ats = core_db example_core ''ASSET''" by simp
  with \<open>[asset_entry example_db1] = map asset_entry ats\<close> mem_engine_ok show ?thesis
    by (intro conjI exI [of _ ats])
qed

lemma fold_pick:
  "fold (\<lambda>v acc. if P v then v else acc) xs a = last_or a (filter P xs)"
  by (induction xs arbitrary: a) (auto simp: last_or_Cons)

lemma GetSystemUsers_ok:
  assumes "engine_ok E tbl" "typed_table the_AssetUserInfo (tbl (core_db c) ''ASSETUSERINFO'')"
    "typed_table the_SystemUser (tbl (core_db c) ''SYSTEMUSER'')"
    "GetSystemUsersByUserIdAndAssetId E c userID assetID = Inr sysUsers" "su \<in> set sysUsers"
  shows "RSystemUser su \<in> set (tbl (core_db c) ''SYSTEMUSER'')
    \<and> (\<exists>info. RAssetUserInfo info \<in> set (tbl (core_db c) ''ASSETUSERINFO'') \<and> aui_UserID info = userID
         \<and> aui_AssetID info = assetID \<and> sys_ID su \<in> set (SysUserID info))"
proof -
  let ?rows = "rows_where tbl (core_db c) ''ASSETUSERINFO'' (aui_conds userID assetID)"
  from assms(4) obtain sysIDs where
    q: "QueryOneField E (core_db c) the_strs [] (Select [''sysuserid''] ''ASSETUSERINFO'' (aui_conds userID assetID))
          = (sysIDs, None)" and g: "getSystemUsers E c sysIDs = Inr sysUsers"
    by (auto simp: GetSystemUsersByUserIdAndAssetId_def split: prod.splits option.splits)
  have rows: "\<exists>i. r = RAssetUserInfo i \<and> RAssetUserInfo i \<in> set (tbl (core_db c) ''ASSETUSERINFO'')
      \<and> aui_UserID i = userID \<and> aui_AssetID i = assetID" if "r \<in> set ?rows" for r
    using that assms(2) by (fastforce simp: typed_table_def list_all_iff)
  then have "\<forall>r \<in> set ?rows. the_strs (the (column r ''sysuserid'')) \<noteq> None" by fastforce
  note ids = QueryOneField_ok [OF assms(1) this q]
  have su: "RSystemUser su \<in> set (tbl (core_db c) ''SYSTEMUSER'')" "sys_ID su \<in> set sysIDs"
    using map_con_mem [OF getSystemUsers_ok [OF assms(1,3) g], of su] assms(5) by (auto simp: inj_def)
  then have "sysIDs \<noteq> []" by auto
  then have "sysIDs \<in> set (map (\<lambda>r. the (the_strs (the (column r ''sysuserid'')))) ?rows)"
    using ids last_or_cases [of "[]" "map (\<lambda>r. the (the_strs (the (column r ''sysuserid'')))) ?rows"] by metis
  then obtain r where "r \<in> set ?rows" "sysIDs = the (the_strs (the (column r ''sysuserid'')))" by auto
  with rows su show ?thesis by fastforce
qed

lemma QueryDirectLoginInfo_granted:
  assumes "engine_ok E tbl" "typed_table the_AssetUserInfo (tbl (core_db c) ''ASSETUSERINFO'')"
    "typed_table the_SystemUser (tbl (core_db c) ''SYSTEMUSER'')"
    "typed_table the_Asset (tbl (core_db c) ''ASSET'')"
    "QueryDirectLoginInfo E c userID directLogin = Inr (asset, sysUser)"
  shows "RAsset asset \<in> set (tbl (core_db c) ''ASSET'') \<and> asset_Name asset = lookup_str directLogin ''asset''
    \<and> RSystemUser sysUser \<in> set (tbl (core_db c) ''SYSTEMUSER'')
    \<and> sys_Username sysUser = lookup_str directLogin ''sysuser''
    \<and> (\<exists>info. RAssetUserInfo info \<in> set (tbl (core_db c) ''ASSETUSERINFO'') \<and> aui_UserID info = userID
         \<and> aui_AssetID info = asset_ID asset \<and> sys_ID sysUser \<in> set (SysUserID info))"
proof -
  let ?P = "\<lambda>v. sys_Username v = lookup_str directLogin ''sysuser''"
  from assms(5) obtain sysUsers where
    a: "GetAssetByName E c (lookup_str directLogin ''asset'') = (asset, None)" "asset_ID asset \<noteq> []"
    and s: "GetSystemUsersByUserIdAndAssetId E c userID (asset_ID asset) = Inr sysUsers"
    and pick: "sysUser = last_or zero_SystemUser (filter ?P sysUsers)" "sys_ID sysUser \<noteq> []"
    by (auto simp: QueryDirectLoginInfo_def Let_def fold_pick split: prod.splits option.splits sum.splits if_splits)
  from a have "asset \<noteq> zero_Asset" by (auto simp: zero_Asset_def)
  from QueryStruct_row [OF assms(1,4) a(1) [unfolded GetAssetByName_def] this]
  have "RAsset asset \<in> set (tbl (core_db c) ''ASSET'') \<and> asset_Name asset = lookup_str directLogin ''asset''"
    by auto
  moreover have "sysUser \<in> set (filter ?P sysUsers)"
    using pick last_or_cases [of zero_SystemUser "filter ?P sysUsers"] by (auto simp: zero_SystemUser_def)
  ultimately show ?thesis
    using GetSystemUsers_ok [OF assms(1-3) s, of sysUser] by simp
qed

text \<open>
  C16: a direct login \<^verbatim>\<open>user@sysuser@asset\<close> resolves only to what an administrator granted: the asset
  is stored under the requested name, and the system user has the requested name and is listed
  in a permission row of exactly this user and this asset.
\<close>

theorem QueryDirectLoginInfo_authorised:
  assumes "engine_ok E tbl" "typed_table the_AssetUserInfo (tbl (core_db c) ''ASSETUSERINFO'')"
    "typed_table the_SystemUser (tbl (core_db c) ''SYSTEMUSER'')"
    "typed_table the_Asset (tbl (core_db c) ''ASSET'')"
    "QueryDirectLoginInfo E c userID directLogin = Inr (asset, sysUser)"
  shows "RAsset asset \<in> set (tbl (core_db c) ''ASSET'') \<and> asset_Name asset = lookup_str directLogin ''asset''
    \<and> RSystemUser sysUser \<in> set (tbl (core_db c) ''SYSTEMUSER'')
    \<and> sys_Username sysUser = lookup_str directLogin ''sysuser''
    \<and> (\<exists>info. RAssetUserInfo info \<in> set (tbl (core_db c) ''ASSETUSERINFO'') \<and> aui_UserID info = userID
         \<and> aui_AssetID info = asset_ID asset \<and> sys_ID sysUser \<in> set (SysUserID info))"
  using assms by (rule QueryDirectLoginInfo_granted)

definition example_direct :: "string \<Rightarrow> string option" where
  "example_direct = [''username'' \<mapsto> ''rick'', ''sysuser'' \<mapsto> ''root'', ''asset'' \<mapsto> ''db'']"

lemma example_direct_login:
  "QueryDirectLoginInfo mem_engine example_core ''2'' example_direct = Inr (example_db1, example_root)"
  by code_simp

theorem QueryDirectLoginInfo_authorised_witness:
  "QueryDirectLoginInfo mem_engine example_core ''2'' example_direct = Inr (example_db1, example_root)
   \<and> RAsset example_db1 \<in> set (core_db example_core ''ASSET'')
   \<and> RSystemUser example_root \<in> set (core_db example_core ''SYSTEMUSER'')"
  using QueryDirectLoginInfo_authorised [OF mem_engine_ok example_typed(6,5,3) example_direct_login]
    example_direct_login by blast

section \<open>Listings hide secrets\<close>

text \<open>Two secrets, or two system users, that differ at most in the value of what is secret.\<close>

definition same_secret :: "row \<Rightarrow> row \<Rightarrow> bool" where
  "same_secret r r' \<longleftrightarrow> (\<exists>a b. r = RUserSecret a \<and> r' = RUserSecret b \<and> secret_UserID a = secret_UserID b
     \<and> (secret_Password a = [] \<longleftrightarrow> secret_Password b = [])
     \<and> (secret_PrivateKey a = [] \<longleftrightarrow> secret_PrivateKey b = [])
     \<and> map_option length (AuthorizedKeys a) = map_option length (AuthorizedKeys b))"

definition same_sysuser :: "row \<Rightarrow> row \<Rightarrow> bool" where
  "same_sysuser r r' \<longleftrightarrow> (\<exists>a pw key. r = RSystemUser a
     \<and> r' = RSystemUser (a\<lparr>sys_Password := pw, sys_PrivateKey := key\<rparr>)
     \<and> (sys_Password a = [] \<longleftrightarrow> pw = []) \<and> (sys_PrivateKey a = [] \<longleftrightarrow> key = []))"

lemma map_const_length: "length xs = length ys \<Longrightarrow> map (\<lambda>_. a) xs = map (\<lambda>_. a) ys"
  by (simp add: map_replicate_const)

lemma secret_line_masked:
  assumes "same_secret (RUserSecret a) (RUserSecret b)"
  shows "secret_line a = secret_line b"
  using assms map_const_length [of "the (AuthorizedKeys a)" "the (AuthorizedKeys b)" "''********''"]
  by (cases "AuthorizedKeys a"; cases "AuthorizedKeys b")
     (auto simp: same_secret_def secret_line_def masked_def)

lemma listing_ok:
  assumes "engine_ok E tbl" "list_all2 R (tbl db t) (tbl db' t)"
    "\<And>r r'. R r r' \<Longrightarrow> \<exists>a b. pick r = Some a \<and> pick r' = Some b \<and> line a = line b"
    "queryStructs E db pick (Select [] t []) = (xs, None)"
    "queryStructs E db' pick (Select [] t []) = (ys, None)"
  shows "map line xs = map line ys"
proof -
  have all: "list_all2 (\<lambda>r r'. \<exists>a b. pick r = Some a \<and> pick r' = Some b \<and> line a = line b) (tbl db t) (tbl db' t)"
    using assms(2,3) by (rule list_all2_mono)
  then have "typed_table pick (tbl db t)" "typed_table pick (tbl db' t)"
    by (auto simp: typed_table_def list_all2_conv_all_nth list_all_length)
  from queryStructs_ok [OF assms(1) this(1) assms(4)] queryStructs_ok [OF assms(1) this(2) assms(5)]
  have "xs = map (\<lambda>r. the (pick r)) (tbl db t)" "ys = map (\<lambda>r. the (pick r)) (tbl db' t)"
    by simp_all
  with all show ?thesis by (induction arbitrary: xs ys rule: list_all2_induct) auto
qed

text \<open>
  C23: the listings never show a secret: changing the passwords, the private keys and the
  authorized keys of the users, or the passwords and private keys of the system users, without
  changing which of them are set and how many keys there are, changes no listed line.
\<close>

theorem listings_hide_secrets:
  assumes "engine_ok E tbl"
    "list_all2 same_secret (tbl (core_db c) ''USERSECRET'') (tbl (core_db c') ''USERSECRET'')"
    "list_all2 same_sysuser (tbl (core_db c) ''SYSTEMUSER'') (tbl (core_db c') ''SYSTEMUSER'')"
    "QueryAllUserSecret E c = Inr secrets" "QueryAllUserSecret E c' = Inr secrets'"
    "QueryAllSystemUser E c = Inr sys" "QueryAllSystemUser E c' = Inr sys'"
  shows "secrets = secrets' \<and> sys = sys'"
proof -
  have q: "QueryAllUserSecret E d = Inr ls \<longleftrightarrow> (\<exists>xs. ls = map secret_line xs
      \<and> queryStructs E (core_db d) the_UserSecret (Select [] ''USERSECRET'' []) = (xs, None))" for d ls
    by (auto simp: QueryAllUserSecret_def list_lines_def QueryStructs_def model_types wrap_models_def
        split: prod.splits option.splits)
  have p: "QueryAllSystemUser E d = Inr ls \<longleftrightarrow> (\<exists>xs. ls = map sys_line xs
      \<and> queryStructs E (core_db d) the_SystemUser (Select [] ''SYSTEMUSER'' []) = (xs, None))" for d ls
    by (auto simp: QueryAllSystemUser_def list_lines_def QueryStructs_def model_types wrap_models_def
        split: prod.splits option.splits)
  have secret: "\<exists>a b. the_UserSecret r = Some a \<and> the_UserSecret r' = Some b \<and> secret_line a = secret_line b"
    if "same_secret r r'" for r r'
    using that secret_line_masked [of "the (the_UserSecret r)" "the (the_UserSecret r')"]
    by (auto simp: same_secret_def)
  have sysuser: "\<exists>a b. the_SystemUser r = Some a \<and> the_SystemUser r' = Some b \<and> sys_line a = sys_line b"
    if "same_sysuser r r'" for r r'
    using that unfolding same_sysuser_def by (elim exE conjE) (simp add: sys_line_def masked_def)
  from assms(4-7) [unfolded q p] obtain xs xs' ys ys' where
    lines: "secrets = map secret_line xs" "secrets' = map secret_line xs'" "sys = map sys_line ys" "sys' = map sys_line ys'"
    and rows: "queryStructs E (core_db c) the_UserSecret (Select [] ''USERSECRET'' []) = (xs, None)"
      "queryStructs E (core_db c') the_UserSecret (Select [] ''USERSECRET'' []) = (xs', None)"
      "queryStructs E (core_db c) the_SystemUser (Select [] ''SYSTEMUSER'' []) = (ys, None)"
      "queryStructs E (core_db c') the_SystemUser (Select [] ''SYSTEMUSER'' []) = (ys', None)"
    by (elim exE conjE) (rule that)
  show ?thesis
    unfolding lines using listing_ok [OF assms(1,2) secret rows(1,2)]
      listing_ok [OF assms(1,3) sysuser rows(3,4)] by (rule conjI)
qed

definition other_core :: "(string \<Rightarrow> row list) Core" where
  "other_core = example_core\<lparr>core_db := example_data(''USERSECRET'' := [RUserSecret (example_secret\<lparr>secret_Password := ''H:other''\<rparr>)])\<rparr>"

lemma other_secrets:
  "QueryAllUserSecret mem_engine example_core = Inr [''   2|********|           |********'']"
  "QueryAllUserSecret mem_engine other_core = Inr [''   2|********|           |********'']"
  "QueryAllSystemUser mem_engine example_core = Inr [''   3|      root|       1|     ssh|********|           |'']"
  "QueryAllSystemUser mem_engine other_core = Inr [''   3|      root|       1|     ssh|********|           |'']"
  by code_simp+

theorem listings_hide_secrets_witness:
  "core_db example_core ''USERSECRET'' \<noteq> core_db other_core ''USERSECRET''
   \<and> QueryAllUserSecret mem_engine example_core = QueryAllUserSecret mem_engine other_core"
proof -
  have "list_all2 same_secret (core_db example_core ''USERSECRET'') (core_db other_core ''USERSECRET'')"
    by (auto simp: example_core_def other_core_def example_data_def same_secret_def example_secret_def)
  moreover have "list_all2 same_sysuser (core_db example_core ''SYSTEMUSER'') (core_db other_core ''SYSTEMUSER'')"
    by (auto simp: example_core_def other_core_def example_data_def same_sysuser_def example_root_def
        intro!: exI [of _ "''secret''"] exI [of _ "[]"])
  ultimately have "QueryAllUserSecret mem_engine example_core = QueryAllUserSecret mem_engine other_core"
    using listings_hide_secrets [OF mem_engine_ok _ _ other_secrets] other_secrets by simp
  moreover have "core_db example_core ''USERSECRET'' \<noteq> core_db other_core ''USERSECRET''"
    by (simp add: example_core_def other_core_def example_data_def example_secret_def)
  ultimately show ?thesis by blast
qed

end
