(* ===== verification/Tickets.thy ===== *)
theory Tickets
  imports Directory
begin

text \<open>
  Login tickets (\<^verbatim>\<open>pkg/core/auth.go\<close>) and the service that waits for one to be decided
  (\<^verbatim>\<open>pkg/auth/loginConfirm.go\<close>).  The clock and the ticket id generator are inputs (\<open>date\<close>, \<open>uuid\<close>).
\<close>

section \<open>Tickets in the core\<close>

definition getReviewers :: "'db engine \<Rightarrow> 'db Core \<Rightarrow> string list result" where
  "getReviewers E c =
     QueryOneFieldMutilRows E (core_db c) (Select [''username''] ''USER'' [Eq ''role'' ''admin''])"

definition CheckIfNeedAssetLoginConfirm ::
  "'db engine \<Rightarrow> 'db Core \<Rightarrow> string \<Rightarrow> string \<Rightarrow> string \<Rightarrow> string \<Rightarrow> string \<Rightarrow> string \<Rightarrow> string
   \<Rightarrow> AssetLoginTicketInfo result \<times> 'db Core" where
  "CheckIfNeedAssetLoginConfirm E c uuid date userId username assetId assetName sysUsername =
     (case QueryOneField E (core_db c) the_bool True
             (Select [''needconfirm''] ''ASSETUSERINFO'' (aui_conds userId assetId)) of
        (_, Some err) \<Rightarrow> (Inl err, c)
      | (need, None) \<Rightarrow>
          if \<not> need then (Inr (zero_AssetLoginTicketInfo\<lparr>ti_NeedConfirm := need\<rparr>), c)
          else
            (let ticketId = uuid;
                 cl = \<lparr>TicketId = ticketId, State = TicketOpen, Approver = [], ApplicationDate = date,
                   ApproveDate = [], ticket_Username = username, AssetName = assetName,
                   SysUsername = sysUsername\<rparr>;
                 (ins, db') = InsertData E (core_db c) (Insert ''LOGINTICKET'' (RLoginTicket cl));
                 c' = c\<lparr>core_db := db'\<rparr>
             in case ins of
                  Some err \<Rightarrow> (Inl err, c')
                | None \<Rightarrow>
                    (case getReviewers E c' of
                       Inl err \<Rightarrow> (Inl err, c')
                     | Inr reviewers \<Rightarrow>
                         (Inr \<lparr>ti_TicketId = ticketId, ti_NeedConfirm = need, Reviewers = reviewers\<rparr>, c'))))"

definition CheckConfirmStatusByRequestInfo ::
  "'db engine \<Rightarrow> 'db Core \<Rightarrow> string \<Rightarrow> TicketState \<times> goerror option" where
  "CheckConfirmStatusByRequestInfo E c ticketId =
     (case QueryTwoField E (core_db c) the_str ([], [])
             (Select [''approver'', ''state''] ''LOGINTICKET'' [Eq ''ticketid'' ticketId]) of
        (_, Some err) \<Rightarrow> (\<lparr>ts_Approver = [], ts_State = ''error''\<rparr>, Some err)
      | ((approver, state), None) \<Rightarrow> (\<lparr>ts_Approver = approver, ts_State = state\<rparr>, None))"

definition UpdateTicketState ::
  "'db engine \<Rightarrow> 'db Core \<Rightarrow> string \<Rightarrow> string \<Rightarrow> string \<Rightarrow> string \<Rightarrow> goerror option \<times> 'db Core" where
  "UpdateTicketState E c date ticketId state user =
     (let (err, db') = UpdateData E (core_db c)
            (Update ''LOGINTICKET'' [(''state'', state), (''approver'', user), (''approvedate'', date)]
               [Eq ''ticketid'' ticketId, Eq ''state'' TicketOpen])
      in (err, c\<lparr>core_db := db'\<rparr>))"

definition CancelConfirmByRequestInfo ::
  "'db engine \<Rightarrow> 'db Core \<Rightarrow> string \<Rightarrow> string \<Rightarrow> goerror option \<times> 'db Core" where
  "CancelConfirmByRequestInfo E c date ticketId = UpdateTicketState E c date ticketId TicketClosed []"

definition pending_line :: "LoginTicket \<Rightarrow> string" where
  "pending_line v = bar [TicketId v, ApplicationDate v, pad_left 10 (ticket_Username v),
     pad_left 10 (AssetName v), pad_left 10 (SysUsername v)]"

definition QueryPengdingLoginTicket :: "'db engine \<Rightarrow> 'db Core \<Rightarrow> string list result" where
  "QueryPengdingLoginTicket E c =
     list_lines (\<lambda>m. case m of MLoginTickets lgtik \<Rightarrow> Some (map pending_line lgtik) | _ \<Rightarrow> None)
       (QueryStructs E (core_db c) LoginTicketType (Select [] ''LOGINTICKET'' [Eq ''state'' TicketOpen]))"

definition ticket_line :: "LoginTicket \<Rightarrow> string" where
  "ticket_line v = bar [TicketId v, ApplicationDate v, pad_left 10 (ticket_Username v),
     pad_left 10 (AssetName v), pad_left 10 (SysUsername v), pad_left 10 (Approver v),
     pad_left 19 (ApproveDate v), pad_left 10 (State v)]"

definition QueryLoginTicket :: "'db engine \<Rightarrow> 'db Core \<Rightarrow> string list result" where
  "QueryLoginTicket E c =
     list_lines (\<lambda>m. case m of MLoginTickets lgtik \<Rightarrow> Some (map ticket_line lgtik) | _ \<Rightarrow> None)
       (QueryStructs E (core_db c) LoginTicketType (Select [] ''LOGINTICKET'' []))"

section \<open>The confirmation service\<close>

record connectionConfirmOption =
  opt_user :: "User option"
  opt_systemUser :: "SystemUser option"
  opt_assetID :: string
  opt_assetName :: string

type_synonym ConfirmOption = "connectionConfirmOption \<Rightarrow> connectionConfirmOption"

definition ConfirmWithUser :: "User \<Rightarrow> ConfirmOption" where
  "ConfirmWithUser user option = option\<lparr>opt_user := Some user\<rparr>"

definition ConfirmWithSystemUser :: "SystemUser \<Rightarrow> ConfirmOption" where
  "ConfirmWithSystemUser sysUser option = option\<lparr>opt_systemUser := Some sysUser\<rparr>"

definition ConfirmWithAssetID :: "string \<Rightarrow> ConfirmOption" where
  "ConfirmWithAssetID AssetId option = option\<lparr>opt_assetID := AssetId\<rparr>"

definition ConfirmWithAssetName :: "string \<Rightarrow> ConfirmOption" where
  "ConfirmWithAssetName assetName option = option\<lparr>opt_assetName := assetName\<rparr>"

record LoginConfirmService =
  option_of :: connectionConfirmOption
  reviewers :: "string list"
  approver :: string
  ticketId :: string

definition NewLoginConfirm :: "ConfirmOption list \<Rightarrow> LoginConfirmService" where
  "NewLoginConfirm opts = \<lparr>option_of = fold (\<lambda>setter opt. setter opt) opts
       \<lparr>opt_user = None, opt_systemUser = None, opt_assetID = [], opt_assetName = []\<rparr>,
     reviewers = [], approver = [], ticketId = []\<rparr>"

definition CheckIsNeedLoginConfirm ::
  "'db engine \<Rightarrow> LoginConfirmService \<Rightarrow> 'db Core \<Rightarrow> string \<Rightarrow> string
   \<Rightarrow> ((bool \<times> goerror option) \<times> LoginConfirmService \<times> 'db Core) outcome" where
  "CheckIsNeedLoginConfirm E s c uuid date =
     (let opt = option_of s
      in case (opt_user opt, opt_systemUser opt) of
           (Some user, Some systemUser) \<Rightarrow>
             (let (res, c') = CheckIfNeedAssetLoginConfirm E c uuid date (user_ID user) (Username user)
                    (opt_assetID opt) (opt_assetName opt) (sys_Username systemUser)
              in Ret (case res of
                   Inl err \<Rightarrow> ((False, Some err), s, c')
                 | Inr info \<Rightarrow> ((ti_NeedConfirm info, None),
                     s\<lparr>ticketId := ti_TicketId info, reviewers := Reviewers info\<rparr>, c')))
         | _ \<Rightarrow> Panic NilDereference)"

definition GetReviewers :: "LoginConfirmService \<Rightarrow> string list" where
  "GetReviewers s = reviewers s"

definition GetApprover :: "LoginConfirmService \<Rightarrow> string" where
  "GetApprover s = approver s"

definition GetTicketId :: "LoginConfirmService \<Rightarrow> string" where
  "GetTicketId s = ticketId s"

definition cancelConfirm :: "'db engine \<Rightarrow> LoginConfirmService \<Rightarrow> 'db Core \<Rightarrow> string \<Rightarrow> 'db Core" where
  "cancelConfirm E s c date = snd (CancelConfirmByRequestInfo E c date (ticketId s))"

datatype Status = StatusApprove | StatusReject | StatusCancel

text \<open>
  The loop of \<^verbatim>\<open>waitConfirmFinish\<close>, which \<^verbatim>\<open>WaitLoginConfirm\<close> calls.  Each event comes with the core as it is when the event is
  handled, since administrators work on the tickets in the meantime; \<open>None\<close> means that the loop
  is still waiting after the given events.
\<close>

datatype wait_event = Ctx_Done string | Ticked

fun waitConfirmFinish ::
  "'db engine \<Rightarrow> LoginConfirmService \<Rightarrow> (wait_event \<times> 'db Core) list \<Rightarrow> (Status \<times> LoginConfirmService \<times> 'db Core) option" where
  "waitConfirmFinish E s [] = None"
| "waitConfirmFinish E s ((Ctx_Done date, c) # evs) = Some (StatusCancel, s, cancelConfirm E s c date)"
| "waitConfirmFinish E s ((Ticked, c) # evs) =
     (case CheckConfirmStatusByRequestInfo E c (ticketId s) of
        (_, Some err) \<Rightarrow> waitConfirmFinish E s evs
      | (statusRes, None) \<Rightarrow>
          if ts_State statusRes = TicketOpen then waitConfirmFinish E s evs
          else if ts_State statusRes = TicketApproved then
            Some (StatusApprove, s\<lparr>approver := ts_Approver statusRes\<rparr>, c)
          else if ts_State statusRes = TicketRejected \<or> ts_State statusRes = TicketClosed then
            Some (StatusReject, s\<lparr>approver := ts_Approver statusRes\<rparr>, c)
          else waitConfirmFinish E s evs)"

section \<open>A decided ticket stays decided\<close>

text \<open>The operations of the core that write the ticket table.\<close>

datatype ticket_op =
    Apply string string string string string string string
  | Decide string string string string

fun ticket_exec :: "'db engine \<Rightarrow> ticket_op \<Rightarrow> 'db Core \<Rightarrow> 'db Core" where
  "ticket_exec E (Apply uuid date userId username assetId assetName sysUsername) c =
     snd (CheckIfNeedAssetLoginConfirm E c uuid date userId username assetId assetName sysUsername)"
| "ticket_exec E (Decide date tid state user) c = snd (UpdateTicketState E c date tid state user)"

definition tickets_of :: "('db \<Rightarrow> string \<Rightarrow> row list) \<Rightarrow> 'db Core \<Rightarrow> row list" where
  "tickets_of tbl c = tbl (core_db c) ''LOGINTICKET''"

definition decision :: "string \<Rightarrow> string \<Rightarrow> string \<Rightarrow> string \<Rightarrow> row \<Rightarrow> row" where
  "decision date tid state user = updated [(''state'', state), (''approver'', user), (''approvedate'', date)]
     [Eq ''ticketid'' tid, Eq ''state'' TicketOpen]"

lemma decision_ticket [simp]:
  "decision date tid state user (RLoginTicket t) = RLoginTicket
     (if TicketId t = tid \<and> State t = TicketOpen
      then t\<lparr>State := state, Approver := user, ApproveDate := date\<rparr> else t)"
  by (simp add: decision_def updated_def matches_def)

lemma UpdateTicketState_table:
  assumes "engine_ok E tbl" "UpdateTicketState E c date tid state user = (err, c')"
  shows "tickets_of tbl c' = (if err = None then map (decision date tid state user) (tickets_of tbl c)
                              else tickets_of tbl c)"
  using assms
  by (auto simp: UpdateTicketState_def UpdateData_def tickets_of_def decision_def
      dest: engine_update engine_failed split: prod.splits)

lemma Check_table:
  assumes "engine_ok E tbl"
    "CheckIfNeedAssetLoginConfirm E c uuid date userId username assetId assetName sysUsername = (res, c')"
  shows "tickets_of tbl c' = tickets_of tbl c
    \<or> tickets_of tbl c' = tickets_of tbl c @ [RLoginTicket \<lparr>TicketId = uuid, State = TicketOpen, Approver = [],
         ApplicationDate = date, ApproveDate = [], ticket_Username = username, AssetName = assetName,
         SysUsername = sysUsername\<rparr>]"
proof (cases "core_db c' = core_db c")
  case False
  with assms(2) show ?thesis
    using engine_insert [OF assms(1)] engine_failed [OF assms(1)]
    by (fastforce simp: CheckIfNeedAssetLoginConfirm_def InsertData_def Let_def tickets_of_def
        split: prod.splits option.splits if_splits sum.splits)
qed (simp add: tickets_of_def)

text \<open>
  The rows of the ticket table are tickets; an operation keeps each row where it is, and keeps
  it unchanged once it is decided.
\<close>

definition ticket_row :: "row \<Rightarrow> bool" where
  "ticket_row r \<longleftrightarrow> (\<exists>t. r = RLoginTicket t)"

definition decided :: "row \<Rightarrow> bool" where
  "decided r \<longleftrightarrow> (\<exists>t. r = RLoginTicket t \<and> State t \<noteq> TicketOpen)"

definition keeps_decided :: "row list \<Rightarrow> row list \<Rightarrow> bool" where
  "keeps_decided rs rs' \<longleftrightarrow> length rs \<le> length rs' \<and> (\<forall>i < length rs. decided (rs ! i) \<longrightarrow> rs' ! i = rs ! i)"

lemma keeps_decided_refl [simp]: "keeps_decided rs rs"
  by (simp add: keeps_decided_def)

lemma keeps_decided_trans: "keeps_decided a b \<Longrightarrow> keeps_decided b c \<Longrightarrow> keeps_decided a c"
  by (fastforce simp: keeps_decided_def)

lemma ticket_exec_keeps:
  assumes "engine_ok E tbl"
  shows "keeps_decided (tickets_of tbl c) (tickets_of tbl (ticket_exec E op c))"
proof (cases op)
  case (Apply uuid date userId username assetId assetName sysUsername)
  then show ?thesis
    using Check_table [OF assms, of c uuid date userId username assetId assetName sysUsername]
    by (fastforce simp: keeps_decided_def nth_append intro: prod.collapse [symmetric])
next
  case (Decide date tid state user)
  obtain err c' where u: "UpdateTicketState E c date tid state user = (err, c')" by fastforce
  with UpdateTicketState_table [OF assms u] Decide show ?thesis
    by (auto simp: keeps_decided_def decided_def)
qed

text \<open>
  C9: tickets are decided once.  Whatever sequence of applications and decisions follows, a
  ticket that has been approved, rejected or closed stays at its place in the table with the
  same state, approver and date: an approval cannot be revoked, a refusal or a cancellation
  cannot be turned into an approval.
\<close>

theorem decided_tickets_final:
  assumes "engine_ok E tbl"
  shows "keeps_decided (tickets_of tbl c) (tickets_of tbl (fold (ticket_exec E) ops c))"
proof (induction ops arbitrary: c)
  case (Cons op ops)
  then show ?case using ticket_exec_keeps [OF assms, of c op] by (auto intro: keeps_decided_trans)
qed simp

definition example_ops :: "ticket_op list" where
  "example_ops = [Apply ''t1'' ''d1'' ''2'' ''rick'' ''7'' ''db'' ''root'', Decide ''d2'' ''t1'' TicketRejected ''amy'']"

definition rejected_ticket :: LoginTicket where
  "rejected_ticket = \<lparr>TicketId = ''t1'', State = TicketRejected, Approver = ''amy'', ApplicationDate = ''d1'',
     ApproveDate = ''d2'', ticket_Username = ''rick'', AssetName = ''db'', SysUsername = ''root''\<rparr>"

lemma example_ops_rows:
  "tickets_of (\<lambda>db. db) (fold (ticket_exec mem_engine) example_ops example_core) = [RLoginTicket rejected_ticket]"
  by code_simp

theorem decided_tickets_final_witness:
  "engine_ok mem_engine (\<lambda>db. db) \<and> decided (RLoginTicket rejected_ticket)
   \<and> tickets_of (\<lambda>db. db) (fold (ticket_exec mem_engine) [Decide ''d3'' ''t1'' TicketApproved ''amy'']
        (fold (ticket_exec mem_engine) example_ops example_core)) ! 0 = RLoginTicket rejected_ticket"
proof -
  have d: "decided (RLoginTicket rejected_ticket)"
    by (auto simp: decided_def rejected_ticket_def TicketRejected_def TicketOpen_def)
  with decided_tickets_final [OF mem_engine_ok, of "fold (ticket_exec mem_engine) example_ops example_core"
      "[Decide ''d3'' ''t1'' TicketApproved ''amy'']"]
  show ?thesis using mem_engine_ok by (simp add: example_ops_rows keeps_decided_def)
qed

section \<open>An approval comes from a decision\<close>

lemma Iterate_Scan2:
  assumes "\<forall>r \<in> set rs. dec (the (column r c)) \<noteq> None \<and> dec (the (column r d)) \<noteq> None"
  shows "Iterate (Scan2 dec) (map (\<lambda>r. Inr (Fields [the (column r c), the (column r d)])) rs) a
     = (last_or a (map (\<lambda>r. (the (dec (the (column r c))), the (dec (the (column r d))))) rs), None)"
  using assms by (induction rs arbitrary: a) (auto simp: Scan2_def last_or_Cons)

lemma CheckConfirmStatus_row:
  assumes "engine_ok E tbl" "\<forall>r \<in> set (tickets_of tbl c). ticket_row r"
    "CheckConfirmStatusByRequestInfo E c tid = (st, None)" "ts_State st \<noteq> []"
  shows "\<exists>t. RLoginTicket t \<in> set (tickets_of tbl c) \<and> TicketId t = tid
           \<and> State t = ts_State st \<and> Approver t = ts_Approver st"
proof -
  let ?rows = "rows_where tbl (core_db c) ''LOGINTICKET'' [Eq ''ticketid'' tid]"
  have rows: "\<exists>t. r = RLoginTicket t \<and> RLoginTicket t \<in> set (tickets_of tbl c) \<and> TicketId t = tid"
    if "r \<in> set ?rows" for r
    using that assms(2) by (fastforce simp: tickets_of_def ticket_row_def)
  from assms(3) obtain ds where "Query E (core_db c)
      (Select [''approver'', ''state''] ''LOGINTICKET'' [Eq ''ticketid'' tid]) = Inr ds"
    and it: "Iterate (Scan2 the_str) ds ([], []) = ((ts_Approver st, ts_State st), None)"
    by (auto simp: CheckConfirmStatusByRequestInfo_def QueryTwoField_def run_query_def
        split: sum.splits prod.splits option.splits)
  with assms(1) have ds: "ds = map (\<lambda>r. Inr (Fields [the (column r ''approver''), the (column r ''state'')])) ?rows"
    by (auto dest: engine_select simp: project_def)
  have "\<forall>r \<in> set ?rows. the_str (the (column r ''approver'')) \<noteq> None \<and> the_str (the (column r ''state'')) \<noteq> None"
    using rows by fastforce
  from it [unfolded ds Iterate_Scan2 [OF this]] assms(4)
  have "(ts_Approver st, ts_State st) \<in> set (map (\<lambda>r. (the (the_str (the (column r ''approver''))),
      the (the_str (the (column r ''state''))))) ?rows)"
    using last_or_cases by (metis (no_types, lifting) fst_conv snd_conv)
  with rows show ?thesis by fastforce
qed

definition explained :: "string \<Rightarrow> ticket_op list \<Rightarrow> row list \<Rightarrow> bool" where
  "explained tid ops rs \<longleftrightarrow> (\<forall>r \<in> set rs. \<exists>t. r = RLoginTicket t \<and> (TicketId t = tid \<longrightarrow>
     State t = TicketOpen \<or> (\<exists>date. Decide date tid (State t) (Approver t) \<in> set ops)))"

lemma ticket_exec_explained:
  assumes "engine_ok E tbl" "explained tid ops (tickets_of tbl c)"
  shows "explained tid (ops @ [op]) (tickets_of tbl (ticket_exec E op c))"
proof (cases op)
  case (Apply uuid date userId username assetId assetName sysUsername)
  obtain res c' where u: "CheckIfNeedAssetLoginConfirm E c uuid date userId username assetId assetName sysUsername
      = (res, c')" by fastforce
  from Check_table [OF assms(1) u] assms(2) u Apply show ?thesis
    by (fastforce simp: explained_def)
next
  case (Decide date tid' state user)
  obtain err c' where u: "UpdateTicketState E c date tid' state user = (err, c')" by fastforce
  have "\<exists>t'. decision date tid' state user r = RLoginTicket t' \<and> (TicketId t' = tid \<longrightarrow>
     State t' = TicketOpen \<or> (\<exists>d. Decide d tid (State t') (Approver t') \<in> set (ops @ [op])))"
    if "r \<in> set (tickets_of tbl c)" for r
    using that assms(2) Decide by (fastforce simp: explained_def)
  with UpdateTicketState_table [OF assms(1) u] assms(2) u Decide show ?thesis
    by (fastforce simp: explained_def)
qed

lemma tickets_explained:
  assumes "engine_ok E tbl" "explained tid [] (tickets_of tbl c)"
  shows "explained tid ops (tickets_of tbl (fold (ticket_exec E) ops c))"
  using assms(2) by (induction ops rule: rev_induct) (auto intro: ticket_exec_explained [OF assms(1)])

lemma waitConfirmFinish_approve:
  assumes "waitConfirmFinish E s evs = Some (StatusApprove, s', c')"
  shows "\<exists>c st. (Ticked, c) \<in> set evs \<and> CheckConfirmStatusByRequestInfo E c (ticketId s) = (st, None)
    \<and> ts_State st = TicketApproved \<and> approver s' = ts_Approver st \<and> ticketId s' = ticketId s"
  using assms
proof (induction E s evs rule: waitConfirmFinish.induct)
  case (3 E s c evs)
  then show ?case by (fastforce split: prod.splits option.splits if_splits)
qed auto

lemma approval_decided:
  assumes "engine_ok E tbl"
    "\<forall>r \<in> set (tickets_of tbl c). \<exists>t. r = RLoginTicket t \<and> (TicketId t = ticketId s \<longrightarrow> State t = TicketOpen)"
    "waitConfirmFinish E s (map (\<lambda>(ev, ops). (ev, fold (ticket_exec E) ops c)) hist) = Some (StatusApprove, s', c')"
  shows "\<exists>(ev, ops) \<in> set hist. \<exists>date. Decide date (ticketId s) TicketApproved (approver s') \<in> set ops"
proof -
  have base: "explained (ticketId s) [] (tickets_of tbl c)"
    using assms(2) by (auto simp: explained_def)
  obtain ev ops st where h: "(ev, ops) \<in> set hist"
    and st: "CheckConfirmStatusByRequestInfo E (fold (ticket_exec E) ops c) (ticketId s) = (st, None)"
      "ts_State st = TicketApproved" "approver s' = ts_Approver st"
    using waitConfirmFinish_approve [OF assms(3)] by auto
  note ex = tickets_explained [OF assms(1) base, of ops]
  then have "\<forall>r \<in> set (tickets_of tbl (fold (ticket_exec E) ops c)). ticket_row r"
    by (fastforce simp: explained_def ticket_row_def)
  from CheckConfirmStatus_row [OF assms(1) this st(1)] st
  obtain t where "RLoginTicket t \<in> set (tickets_of tbl (fold (ticket_exec E) ops c))"
    "TicketId t = ticketId s" "State t = TicketApproved" "Approver t = approver s'"
    by (auto simp: TicketApproved_def)
  with ex have "\<exists>date. Decide date (ticketId s) TicketApproved (approver s') \<in> set ops"
    by (fastforce simp: explained_def TicketApproved_def TicketOpen_def)
  with h show ?thesis by blast
qed

text \<open>
  C8: the wait ends with an approval only after somebody approved this very ticket.  Start from
  a table in which the ticket of the service is absent or still open, and let each poll see the table
  after some sequence of applications and decisions: if the wait returns \<^verbatim>\<open>StatusApprove\<close>, one of
  these sequences holds a decision that sets this ticket to \<^verbatim>\<open>approved\<close>, by the approver the
  service reports.
\<close>

theorem approval_has_decision:
  assumes "engine_ok E tbl"
    "\<forall>r \<in> set (tickets_of tbl c). \<exists>t. r = RLoginTicket t \<and> (TicketId t = ticketId s \<longrightarrow> State t = TicketOpen)"
    "waitConfirmFinish E s (map (\<lambda>(ev, ops). (ev, fold (ticket_exec E) ops c)) hist) = Some (StatusApprove, s', c')"
  shows "\<exists>(ev, ops) \<in> set hist. \<exists>date. Decide date (ticketId s) TicketApproved (approver s') \<in> set ops"
  using assms by (rule approval_decided)

definition example_service :: LoginConfirmService where
  "example_service = (NewLoginConfirm [ConfirmWithUser example_user, ConfirmWithSystemUser example_root,
     ConfirmWithAssetID ''7'', ConfirmWithAssetName ''db''])\<lparr>ticketId := ''t1''\<rparr>"

definition example_hist :: "(wait_event \<times> ticket_op list) list" where
  "example_hist = (let a = Apply ''t1'' ''d1'' ''2'' ''rick'' ''7'' ''db'' ''root''
     in [(Ticked, [a]), (Ticked, [a, Decide ''d2'' ''t1'' TicketApproved ''amy''])])"

lemma example_wait:
  "map_option (\<lambda>(st, s, c). (st, approver s)) (waitConfirmFinish mem_engine example_service
     (map (\<lambda>(ev, ops). (ev, fold (ticket_exec mem_engine) ops example_core)) example_hist))
   = Some (StatusApprove, ''amy'')"
  by code_simp

theorem approval_has_decision_witness:
  "map_option fst (waitConfirmFinish mem_engine example_service
     (map (\<lambda>(ev, ops). (ev, fold (ticket_exec mem_engine) ops example_core)) example_hist)) = Some StatusApprove
   \<and> (\<exists>(ev, ops) \<in> set example_hist. \<exists>date. Decide date (ticketId example_service) TicketApproved ''amy'' \<in> set ops)"
proof -
  obtain s' c' where w: "waitConfirmFinish mem_engine example_service
     (map (\<lambda>(ev, ops). (ev, fold (ticket_exec mem_engine) ops example_core)) example_hist)
     = Some (StatusApprove, s', c')" and a: "approver s' = ''amy''"
    using example_wait by (auto split: prod.splits)
  have "\<forall>r \<in> set (tickets_of (\<lambda>db. db) example_core). \<exists>t. r = RLoginTicket t
      \<and> (TicketId t = ticketId example_service \<longrightarrow> State t = TicketOpen)"
    by (simp add: tickets_of_def example_core_def example_data_def)
  from approval_has_decision [OF mem_engine_ok this w] a w show ?thesis by simp
qed

section \<open>Confirmation is required unless it is switched off\<close>

lemma needconfirm_rows:
  assumes "\<forall>r \<in> set rs. \<exists>i. r = RAssetUserInfo i"
  shows "map (\<lambda>r. the (the_bool (the (column r ''needconfirm'')))) (filter (matches (aui_conds userId assetId)) rs)
     = map aui_NeedConfirm (filter (\<lambda>i. aui_UserID i = userId \<and> aui_AssetID i = assetId)
          (map (\<lambda>r. the (the_AssetUserInfo r)) rs))"
  using assms by (induction rs) auto

text \<open>
  C10: whether a login needs a confirmation is what the permission row of this user and this asset
  says, and without such a row it does.  A login that needs one always gets a fresh open ticket
  in the table, naming the user, the asset and the system user; one that needs none leaves the
  tickets alone.
\<close>

theorem confirmation_required:
  assumes "engine_ok E tbl" "typed_table the_AssetUserInfo (tbl (core_db c) ''ASSETUSERINFO'')"
    "CheckIfNeedAssetLoginConfirm E c uuid date userId username assetId assetName sysUsername = (Inr info, c')"
  shows "ti_NeedConfirm info = last_or True
       (map aui_NeedConfirm (filter (\<lambda>i. aui_UserID i = userId \<and> aui_AssetID i = assetId)
          (map (\<lambda>r. the (the_AssetUserInfo r)) (tbl (core_db c) ''ASSETUSERINFO''))))
    \<and> (if ti_NeedConfirm info then ti_TicketId info = uuid
         \<and> tickets_of tbl c' = tickets_of tbl c @ [RLoginTicket \<lparr>TicketId = uuid, State = TicketOpen,
              Approver = [], ApplicationDate = date, ApproveDate = [], ticket_Username = username,
              AssetName = assetName, SysUsername = sysUsername\<rparr>]
       else tickets_of tbl c' = tickets_of tbl c)"
proof -
  let ?rows = "rows_where tbl (core_db c) ''ASSETUSERINFO'' (aui_conds userId assetId)"
  have typed: "\<exists>i. r = RAssetUserInfo i" if "r \<in> set (tbl (core_db c) ''ASSETUSERINFO'')" for r
    using that assms(2) by (auto simp: typed_table_def list_all_iff)
  from assms(3) obtain need where
    q: "QueryOneField E (core_db c) the_bool True
          (Select [''needconfirm''] ''ASSETUSERINFO'' (aui_conds userId assetId)) = (need, None)"
    by (auto simp: CheckIfNeedAssetLoginConfirm_def split: prod.splits option.splits)
  have rows: "map (\<lambda>r. the (the_bool (the (column r ''needconfirm'')))) ?rows
     = map aui_NeedConfirm (filter (\<lambda>i. aui_UserID i = userId \<and> aui_AssetID i = assetId)
          (map (\<lambda>r. the (the_AssetUserInfo r)) (tbl (core_db c) ''ASSETUSERINFO'')))"
    using needconfirm_rows typed by blast
  have "\<forall>r \<in> set ?rows. the_bool (the (column r ''needconfirm'')) \<noteq> None" using typed by fastforce
  note need = QueryOneField_ok [OF assms(1) this q, unfolded rows]
  have "ti_NeedConfirm info = need \<and> (if need then ti_TicketId info = uuid
         \<and> tickets_of tbl c' = tickets_of tbl c @ [RLoginTicket \<lparr>TicketId = uuid, State = TicketOpen,
              Approver = [], ApplicationDate = date, ApproveDate = [], ticket_Username = username,
              AssetName = assetName, SysUsername = sysUsername\<rparr>]
       else tickets_of tbl c' = tickets_of tbl c)"
    using assms(3) q
    by (auto simp: CheckIfNeedAssetLoginConfirm_def InsertData_def Let_def tickets_of_def
        dest!: engine_insert [OF assms(1)] split: prod.splits option.splits sum.splits if_splits)
  with need show ?thesis by simp
qed

lemma example_confirm:
  "map_sum id ti_NeedConfirm (fst (CheckIfNeedAssetLoginConfirm mem_engine example_core ''t1'' ''d1'' ''2'' ''rick''
     ''99'' ''web'' ''root'')) = Inr True"
  by code_simp

theorem confirmation_required_witness:
  "\<exists>info c'. CheckIfNeedAssetLoginConfirm mem_engine example_core ''t1'' ''d1'' ''2'' ''rick'' ''99'' ''web'' ''root''
     = (Inr info, c') \<and> ti_NeedConfirm info \<and> ti_TicketId info = ''t1'' \<and> length (tickets_of (\<lambda>db. db) c') = 1"
proof -
  obtain info c' where r: "CheckIfNeedAssetLoginConfirm mem_engine example_core ''t1'' ''d1'' ''2'' ''rick''
      ''99'' ''web'' ''root'' = (Inr info, c')" and n: "ti_NeedConfirm info"
    using example_confirm
    by (cases "CheckIfNeedAssetLoginConfirm mem_engine example_core ''t1'' ''d1'' ''2'' ''rick'' ''99'' ''web'' ''root''")
       (metis fst_conv map_sum.simps obj_sumE sum.distinct(1) sum.inject(2))
  have "tickets_of (\<lambda>db. db) example_core = []" by code_simp
  with confirmation_required [OF mem_engine_ok example_typed(6) r] n r show ?thesis by auto
qed

end
