(* ===== verification/Auth.thy ===== *)
theory Auth
  imports Tickets
begin

text \<open>
  Authentication of an SSH connection (\<^verbatim>\<open>pkg/auth/ssh.go\<close>, \<^verbatim>\<open>pkg/auth/userAuth.go\<close>): the login name
  with its direct-login form, the checks around \<^verbatim>\<open>UserAuthenticate\<close>, the audit record and the
  failure count.
\<close>

section \<open>Addresses\<close>

text \<open>\<^verbatim>\<open>net.SplitHostPort\<close>.\<close>

definition SplitHostPort :: "string \<Rightarrow> (string \<times> string) result" where
  "SplitHostPort hostport =
     (case LastIndexByte hostport CHR '':'' of
        None \<Rightarrow> Inl ''missing port in address''
      | Some i \<Rightarrow>
          let parts =
            (if hd hostport = CHR ''['' then
               (case IndexByte hostport CHR '']'' of
                  None \<Rightarrow> Inl ''missing ']' in address''
                | Some e \<Rightarrow>
                    if Suc e = length hostport then Inl ''missing port in address''
                    else if Suc e = i then Inr (take (e - 1) (drop 1 hostport), 1, Suc e)
                    else if hostport ! Suc e = CHR '':'' then Inl ''too many colons in address''
                    else Inl ''missing port in address'')
             else if CHR '':'' \<in> set (take i hostport) then Inl ''too many colons in address''
             else Inr (take i hostport, 0, 0))
          in case parts of
               Inl err \<Rightarrow> Inl err
             | Inr (host, j, k) \<Rightarrow>
                 if CHR ''['' \<in> set (drop j hostport) then Inl ''unexpected '[' in address''
                 else if CHR '']'' \<in> set (drop k hostport) then Inl ''unexpected ']' in address''
                 else Inr (host, drop (Suc i) hostport))"

section \<open>Login names\<close>

definition parseUserFormatBySeparator :: "string \<Rightarrow> (string \<Rightarrow> string option) option" where
  "parseUserFormatBySeparator s =
     (let authInfos = Split s CHR ''@''
      in if length authInfos \<noteq> 3 then None
         else Some [''username'' \<mapsto> authInfos ! 0, ''sysuser'' \<mapsto> authInfos ! 1, ''asset'' \<mapsto> authInfos ! 2])"

section \<open>Authentication\<close>

datatype auth_result = AuthFailed | AuthBlock | AuthSuccess

definition Authenticate ::
  "'db engine \<Rightarrow> (string \<Rightarrow> string \<Rightarrow> goerror option) \<Rightarrow> Config \<Rightarrow> int \<Rightarrow> UserClient \<Rightarrow> 'db Core \<Rightarrow> string
   \<Rightarrow> (User \<times> auth_result) \<times> 'db Core" where
  "Authenticate E compare cfg now u c username =
     (if UserIsBlocked cfg c username then ((zero_User, AuthBlock), c)
      else
        (let ((user, ok), c') = UserAuthenticate E compare c username (client_Password u) (client_PublicKey u)
         in if \<not> ok then ((zero_User, AuthFailed), c')
            else if (case AddrWhiteList user of None \<Rightarrow> False
                     | Some addrs \<Rightarrow> \<not> list_ex (\<lambda>addr. client_RemoteAddr u = addr) addrs)
              then ((zero_User, AuthFailed), c')
            else if user_ExpireAt user \<noteq> 0 \<and> user_ExpireAt user < now then ((zero_User, AuthFailed), c')
            else ((user, AuthSuccess), c')))"

text \<open>
  What the handler uses of the connection's \<^verbatim>\<open>ssh.Context\<close>: the login name, the remote address,
  the session id, and the three values it sets.  The client is a pointer in the context, so a
  later attempt on the same connection finds the one the first attempt stored.
\<close>

record auth_ctx =
  ctx_SessionID :: string
  ctx_User :: string
  ctx_RemoteAddr :: string
  val_User :: "User option"
  val_Client :: "UserClient option"
  val_DirectLogin :: "(string \<Rightarrow> string option) option"

definition SSHPasswordAndPublicKeyAuth ::
  "'db engine \<Rightarrow> (string \<Rightarrow> string \<Rightarrow> goerror option) \<Rightarrow> Config \<Rightarrow> int \<Rightarrow> string \<Rightarrow> 'db Core \<Rightarrow> auth_ctx \<Rightarrow> string \<Rightarrow> string
   \<Rightarrow> (bool \<times> auth_ctx \<times> 'db Core) outcome" where
  "SSHPasswordAndPublicKeyAuth E compare cfg now date c ctx password publicKey =
     (let remoteAddr = (case SplitHostPort (ctx_RemoteAddr ctx) of Inr (host, _) \<Rightarrow> host | Inl _ \<Rightarrow> []);
          authMethod = (if password \<noteq> [] then ''password'' else ''publickey'');
          (username, ctx) =
            (case parseUserFormatBySeparator (ctx_User ctx) of
               Some res \<Rightarrow> (lookup_str res ''username'', ctx\<lparr>val_DirectLogin := Some res\<rparr>)
             | None \<Rightarrow> (ctx_User ctx, ctx));
          client = (case val_Client ctx of Some cl \<Rightarrow> cl | None \<Rightarrow> zero_UserClient);
          client = SetOption [UserClientPassword password, UserClientPublicKey publicKey,
            UserClientRemoteAddr remoteAddr] client;
          ctx = ctx\<lparr>val_Client := Some client\<rparr>;
          ((user, res), c) = Authenticate E compare cfg now client c username
      in case res of
           AuthSuccess \<Rightarrow>
             (let ctx = ctx\<lparr>val_User := Some user\<rparr>;
                  c = AuthenticationLog E c date username authMethod remoteAddr
              in if length (ctx_SessionID ctx) < 10 then Panic SliceBounds else Ret (True, ctx, c))
         | AuthFailed \<Rightarrow>
             if length (ctx_SessionID ctx) < 10 then Panic SliceBounds
             else Ret (False, ctx, snd (LimitTryLogin c username))
         | AuthBlock \<Rightarrow> Ret (False, ctx, c))"

section \<open>Login names round trip\<close>

text \<open>
  A login name is taken as a direct login exactly when it has the form
  \<^verbatim>\<open>user@sysuser@asset\<close> with no further \<^verbatim>\<open>@\<close>, and then the three parts are read back as they were
  written; every other name is left alone.
\<close>

theorem parseUserFormat_roundtrip:
  "parseUserFormatBySeparator s = Some m \<longleftrightarrow>
     (\<exists>u su a. CHR ''@'' \<notin> set u \<and> CHR ''@'' \<notin> set su \<and> CHR ''@'' \<notin> set a
        \<and> s = u @ ''@'' @ su @ ''@'' @ a
        \<and> m = [''username'' \<mapsto> u, ''sysuser'' \<mapsto> su, ''asset'' \<mapsto> a])"
proof
  assume "parseUserFormatBySeparator s = Some m"
  then have l: "length (Split s CHR ''@'') = 3"
    and m: "m = [''username'' \<mapsto> Split s CHR ''@'' ! 0, ''sysuser'' \<mapsto> Split s CHR ''@'' ! 1,
      ''asset'' \<mapsto> Split s CHR ''@'' ! 2]"
    by (auto simp: parseUserFormatBySeparator_def Let_def split: if_splits)
  from l obtain u su a where sp: "Split s CHR ''@'' = [u, su, a]"
    by (auto simp: numeral_3_eq_3 length_Suc_conv)
  then have "s = u @ ''@'' @ su @ ''@'' @ a"
    using Join_Split [of s "CHR ''@''"] by simp
  moreover have "CHR ''@'' \<notin> set u" "CHR ''@'' \<notin> set su" "CHR ''@'' \<notin> set a"
    using Split_pieces [of _ s "CHR ''@''"] sp by simp_all
  ultimately show "\<exists>u su a. CHR ''@'' \<notin> set u \<and> CHR ''@'' \<notin> set su \<and> CHR ''@'' \<notin> set a
        \<and> s = u @ ''@'' @ su @ ''@'' @ a
        \<and> m = [''username'' \<mapsto> u, ''sysuser'' \<mapsto> su, ''asset'' \<mapsto> a]"
    using m sp by (intro exI [of _ u] exI [of _ su] exI [of _ a]) simp
next
  assume "\<exists>u su a. CHR ''@'' \<notin> set u \<and> CHR ''@'' \<notin> set su \<and> CHR ''@'' \<notin> set a
        \<and> s = u @ ''@'' @ su @ ''@'' @ a
        \<and> m = [''username'' \<mapsto> u, ''sysuser'' \<mapsto> su, ''asset'' \<mapsto> a]"
  then show "parseUserFormatBySeparator s = Some m"
    by (auto simp: parseUserFormatBySeparator_def Split_append_sep Split_no_sep)
qed

section \<open>Who gets in\<close>

text \<open>The name that is authenticated, and the address that is checked.\<close>

definition auth_name :: "auth_ctx \<Rightarrow> string" where
  "auth_name ctx = (case parseUserFormatBySeparator (ctx_User ctx) of
     Some res \<Rightarrow> lookup_str res ''username'' | None \<Rightarrow> ctx_User ctx)"

definition remote_host :: "auth_ctx \<Rightarrow> string" where
  "remote_host ctx = (case SplitHostPort (ctx_RemoteAddr ctx) of Inr (host, _) \<Rightarrow> host | Inl _ \<Rightarrow> [])"

definition admitted :: "int \<Rightarrow> string \<Rightarrow> User \<Rightarrow> bool" where
  "admitted now host user \<longleftrightarrow> user_IsActive user
     \<and> (user_ExpireAt user = 0 \<or> now \<le> user_ExpireAt user)
     \<and> (\<forall>addrs. AddrWhiteList user = Some addrs \<longrightarrow> host \<in> set addrs)"

definition attempt_client :: "auth_ctx \<Rightarrow> string \<Rightarrow> string \<Rightarrow> UserClient" where
  "attempt_client ctx password publicKey =
     (case val_Client ctx of Some cl \<Rightarrow> cl | None \<Rightarrow> zero_UserClient)
       \<lparr>client_Password := password, client_PublicKey := publicKey, client_RemoteAddr := remote_host ctx\<rparr>"

lemma client_simps [simp]:
  "client_Password (attempt_client ctx p k) = p"
  "client_PublicKey (attempt_client ctx p k) = k"
  "client_RemoteAddr (attempt_client ctx p k) = remote_host ctx"
  by (simp_all add: attempt_client_def)

lemma SSHAuth_cases:
  assumes "10 \<le> length (ctx_SessionID ctx)"
    "Authenticate E compare cfg now (attempt_client ctx password publicKey) c (auth_name ctx) = ((user, res), c1)"
  shows "\<exists>ctx'. SSHPasswordAndPublicKeyAuth E compare cfg now date c ctx password publicKey =
      Ret (res = AuthSuccess, ctx', case res of
        AuthSuccess \<Rightarrow> AuthenticationLog E c1 date (auth_name ctx)
          (if password \<noteq> [] then ''password'' else ''publickey'') (remote_host ctx)
      | AuthFailed \<Rightarrow> snd (LimitTryLogin c1 (auth_name ctx))
      | AuthBlock \<Rightarrow> c1)
    \<and> (res = AuthSuccess \<longrightarrow> val_User ctx' = Some user) \<and> (res \<noteq> AuthSuccess \<longrightarrow> val_User ctx' = val_User ctx)"
proof -
  have cl: "SetOption [UserClientPassword password, UserClientPublicKey publicKey, UserClientRemoteAddr h] cl
      = cl\<lparr>client_Password := password, client_PublicKey := publicKey, client_RemoteAddr := h\<rparr>" for h cl
    by (simp add: SetOption_def UserClientPassword_def UserClientPublicKey_def UserClientRemoteAddr_def)
  show ?thesis
  proof (cases "parseUserFormatBySeparator (ctx_User ctx)")
    case None
    with assms show ?thesis
      by (cases res) (auto simp: SSHPasswordAndPublicKeyAuth_def auth_name_def attempt_client_def remote_host_def
          cl Let_def)
  next
    case (Some m)
    with assms show ?thesis
      by (cases res) (auto simp: SSHPasswordAndPublicKeyAuth_def auth_name_def attempt_client_def remote_host_def
          cl Let_def)
  qed
qed

lemma Authenticate_success:
  "Authenticate E compare cfg now u c name = ((user, AuthSuccess), c') \<longleftrightarrow>
     \<not> UserIsBlocked cfg c name
     \<and> UserAuthenticate E compare c name (client_Password u) (client_PublicKey u) = ((user, True), c')
     \<and> (\<forall>addrs. AddrWhiteList user = Some addrs \<longrightarrow> client_RemoteAddr u \<in> set addrs)
     \<and> (user_ExpireAt user = 0 \<or> now \<le> user_ExpireAt user)"
  by (auto simp: Authenticate_def Let_def list_ex_iff split: prod.splits option.splits)

lemma SSHAuth_accepted:
  assumes "engine_ok E tbl" "typed_table the_User (tbl (core_db c) ''USER'')"
    "typed_table the_UserSecret (tbl (core_db c) ''USERSECRET'')"
    "SSHPasswordAndPublicKeyAuth E compare cfg now date c ctx password publicKey = Ret (True, ctx', c')"
  shows "\<exists>user. val_User ctx' = Some user \<and> RUser user \<in> set (tbl (core_db c) ''USER'')
    \<and> Username user = auth_name ctx \<and> admitted now (remote_host ctx) user
    \<and> \<not> UserIsBlocked cfg c (auth_name ctx) \<and> evidence compare (tbl (core_db c)) c user password publicKey"
proof -
  obtain user res c1 where
    a: "Authenticate E compare cfg now (attempt_client ctx password publicKey) c (auth_name ctx) = ((user, res), c1)"
    by (metis prod.collapse)
  have "10 \<le> length (ctx_SessionID ctx)"
  proof (rule ccontr)
    assume "\<not> 10 \<le> length (ctx_SessionID ctx)"
    with assms(4) show False
      by (auto simp: SSHPasswordAndPublicKeyAuth_def Let_def split: prod.splits auth_result.splits option.splits if_splits)
  qed
  from SSHAuth_cases [OF this a, of date] assms(4) have "res = AuthSuccess" "val_User ctx' = Some user"
    by auto
  with a Authenticate_success [of E compare cfg now _ c "auth_name ctx" user c1]
    UserAuthenticate_sound [OF assms(1-3), of compare "auth_name ctx" password publicKey user c1]
  show ?thesis by (auto simp: admitted_def)
qed

text \<open>
  C1: a connection is authenticated only for a stored, active and unexpired user of the given
  name, from an address on the user's list if there is one, while the name is not blocked, and
  on evidence for that user; the session then runs as exactly this user.
\<close>

theorem SSHAuth_sound:
  assumes "engine_ok E tbl" "typed_table the_User (tbl (core_db c) ''USER'')"
    "typed_table the_UserSecret (tbl (core_db c) ''USERSECRET'')"
    "SSHPasswordAndPublicKeyAuth E compare cfg now date c ctx password publicKey = Ret (True, ctx', c')"
  shows "\<exists>user. val_User ctx' = Some user \<and> RUser user \<in> set (tbl (core_db c) ''USER'')
    \<and> Username user = auth_name ctx \<and> admitted now (remote_host ctx) user
    \<and> \<not> UserIsBlocked cfg c (auth_name ctx) \<and> evidence compare (tbl (core_db c)) c user password publicKey"
  using assms by (rule SSHAuth_accepted)

text \<open>
  C2: conversely, when the database answers, such a user is let in: stored once under the name,
  with one secret, admitted, not blocked, and with evidence.
\<close>

theorem SSHAuth_complete:
  assumes "engine_ok E tbl" "queries_succeed E (core_db c)"
    "rows_where tbl (core_db c) ''USER'' [Eq ''username'' (auth_name ctx)] = [RUser user]"
    "rows_where tbl (core_db c) ''USERSECRET'' [Eq ''userid'' (user_ID user)] = [RUserSecret sec]"
    "user_ID user \<noteq> []" "admitted now (remote_host ctx) user" "\<not> UserIsBlocked cfg c (auth_name ctx)"
    "evidence compare (tbl (core_db c)) c user password publicKey" "10 \<le> length (ctx_SessionID ctx)"
  shows "\<exists>ctx' c'. SSHPasswordAndPublicKeyAuth E compare cfg now date c ctx password publicKey = Ret (True, ctx', c')
    \<and> val_User ctx' = Some user"
proof -
  have "fst (UserAuthenticate E compare c (auth_name ctx) password publicKey) = (user, True)"
    using UserAuthenticate_complete [of E tbl c "auth_name ctx" user sec compare password publicKey] assms
    by (simp add: admitted_def)
  then obtain c1 where "UserAuthenticate E compare c (auth_name ctx) password publicKey = ((user, True), c1)"
    by (metis prod.collapse)
  then have "Authenticate E compare cfg now (attempt_client ctx password publicKey) c (auth_name ctx)
      = ((user, AuthSuccess), c1)"
    using assms(6,7) by (auto simp: Authenticate_success admitted_def)
  from SSHAuth_cases [OF assms(9) this, of date] show ?thesis by auto
qed

definition example_ctx :: auth_ctx where
  "example_ctx = \<lparr>ctx_SessionID = ''0123456789ab'', ctx_User = ''rick@root@db'', ctx_RemoteAddr = ''10.1.1.9:5022'',
     val_User = None, val_Client = None, val_DirectLogin = None\<rparr>"

lemma example_ctx_name: "auth_name example_ctx = ''rick''" "remote_host example_ctx = ''10.1.1.9''"
  by code_simp+

lemma example_login:
  "(case SSHPasswordAndPublicKeyAuth mem_engine example_compare newDefaultConfig 100 ''now'' example_core
      example_ctx [] ''AAAA'' of Ret (b, ctx', c') \<Rightarrow> b \<and> val_User ctx' = Some example_user | Panic _ \<Rightarrow> False)"
  by code_simp

theorem SSHAuth_sound_witness:
  "\<exists>ctx' c'. SSHPasswordAndPublicKeyAuth mem_engine example_compare newDefaultConfig 100 ''now'' example_core
      example_ctx [] ''AAAA'' = Ret (True, ctx', c') \<and> val_User ctx' = Some example_user
      \<and> evidence example_compare (core_db example_core) example_core example_user [] ''AAAA''"
proof -
  obtain ctx' c' where r: "SSHPasswordAndPublicKeyAuth mem_engine example_compare newDefaultConfig 100 ''now''
      example_core example_ctx [] ''AAAA'' = Ret (True, ctx', c')" and u: "val_User ctx' = Some example_user"
    using example_login by (auto split: outcome.splits prod.splits)
  from SSHAuth_sound [OF mem_engine_ok example_typed(1,2) r] r u show ?thesis by auto
qed

lemma mem_queries: "queries_succeed mem_engine db"
  by (simp add: queries_succeed_def mem_engine_def)

theorem SSHAuth_complete_witness:
  "evidence example_compare (core_db example_core) example_core example_user ''pw'' []
   \<and> (\<exists>ctx' c'. SSHPasswordAndPublicKeyAuth mem_engine example_compare newDefaultConfig 100 ''now'' example_core
        example_ctx ''pw'' [] = Ret (True, ctx', c') \<and> val_User ctx' = Some example_user)"
proof -
  have e: "evidence example_compare (core_db example_core) example_core example_user ''pw'' []"
    by (simp add: evidence_def example_user_def example_core_def example_data_def example_secret_def example_compare_def)
  have "rows_where (\<lambda>db. db) (core_db example_core) ''USER'' [Eq ''username'' (auth_name example_ctx)] = [RUser example_user]"
    by (simp add: example_ctx_name example_core_def example_data_def example_user_def)
  moreover have "rows_where (\<lambda>db. db) (core_db example_core) ''USERSECRET'' [Eq ''userid'' (user_ID example_user)]
      = [RUserSecret example_secret]"
    by (simp add: example_core_def example_data_def example_user_def example_secret_def)
  moreover have "user_ID example_user \<noteq> []" "admitted 100 (remote_host example_ctx) example_user"
    by (simp_all add: example_user_def admitted_def)
  moreover have "\<not> UserIsBlocked newDefaultConfig example_core (auth_name example_ctx)"
    by (simp add: UserIsBlocked_def tries_def example_core_def empty_core_def newDefaultConfig_def)
  moreover have "10 \<le> length (ctx_SessionID example_ctx)" by (simp add: example_ctx_def)
  ultimately show ?thesis
    using SSHAuth_complete [OF mem_engine_ok mem_queries, where c = example_core and ctx = example_ctx
        and user = example_user and sec = example_secret and now = 100 and cfg = newDefaultConfig
        and compare = example_compare and password = "''pw''" and publicKey = "[]" and date = "''now''"] e by simp
qed

section \<open>Guessing is bounded\<close>

text \<open>
  A sequence of attempts on one name, each on its own connection and at its own time; the run
  collects the verdicts of \<^verbatim>\<open>Authenticate\<close> and threads the core through the handler.
\<close>

record attempt =
  at_now :: int
  at_date :: string
  at_ctx :: auth_ctx
  at_password :: string
  at_publicKey :: string

definition verdict :: "'db engine \<Rightarrow> (string \<Rightarrow> string \<Rightarrow> goerror option) \<Rightarrow> Config \<Rightarrow> attempt \<Rightarrow> 'db Core \<Rightarrow> auth_result" where
  "verdict E compare cfg a c = snd (fst (Authenticate E compare cfg (at_now a)
     (attempt_client (at_ctx a) (at_password a) (at_publicKey a)) c (auth_name (at_ctx a))))"

fun attempts :: "'db engine \<Rightarrow> (string \<Rightarrow> string \<Rightarrow> goerror option) \<Rightarrow> Config \<Rightarrow> attempt list \<Rightarrow> 'db Core
  \<Rightarrow> (auth_result list \<times> 'db Core) outcome" where
  "attempts E compare cfg [] c = Ret ([], c)"
| "attempts E compare cfg (a # as) c =
     outcome_bind (SSHPasswordAndPublicKeyAuth E compare cfg (at_now a) (at_date a) c (at_ctx a)
         (at_password a) (at_publicKey a))
       (\<lambda>(ok, ctx, c'). outcome_bind (attempts E compare cfg as c')
          (\<lambda>(vs, c''). Ret (verdict E compare cfg a c # vs, c'')))"

lemma verifyOTP_tries: "verifyOTP c n p = (b, c') \<Longrightarrow> tryLoginCount c' = tryLoginCount c"
  using verifyOTP_frame(3) [of c n p] by simp

lemma UserAuthenticate_tries:
  "tryLoginCount (snd (UserAuthenticate E compare c name p k)) = tryLoginCount c"
  by (auto simp: UserAuthenticate_def Let_def dest: verifyOTP_tries split: prod.splits option.splits)

lemma Authenticate_tries: "tries (snd (Authenticate E compare cfg now u c name)) = tries c"
proof (rule tries_cong)
  show "tryLoginCount (snd (Authenticate E compare cfg now u c name)) = tryLoginCount c"
    using UserAuthenticate_tries [of E compare c name "client_Password u" "client_PublicKey u"]
    by (auto simp: Authenticate_def Let_def split: prod.splits)
qed

lemma Authenticate_block:
  "snd (fst (Authenticate E compare cfg now u c name)) = AuthBlock \<longleftrightarrow> UserIsBlocked cfg c name"
  by (simp add: Authenticate_def Let_def split: prod.splits)

lemma attempt_tries:
  assumes "10 \<le> length (ctx_SessionID (at_ctx a))"
  shows "\<exists>ok ctx' c'. SSHPasswordAndPublicKeyAuth E compare cfg (at_now a) (at_date a) c (at_ctx a)
         (at_password a) (at_publicKey a) = Ret (ok, ctx', c')
    \<and> (ok \<longleftrightarrow> verdict E compare cfg a c = AuthSuccess)
    \<and> tries c' (auth_name (at_ctx a)) = tries c (auth_name (at_ctx a))
        + (if verdict E compare cfg a c = AuthFailed then 1 else 0)"
proof -
  obtain user res c1 where au: "Authenticate E compare cfg (at_now a)
     (attempt_client (at_ctx a) (at_password a) (at_publicKey a)) c (auth_name (at_ctx a)) = ((user, res), c1)"
    by (metis prod.collapse)
  then have v: "verdict E compare cfg a c = res" by (simp add: verdict_def)
  have t1: "tries c1 = tries c"
    using Authenticate_tries [of E compare cfg "at_now a" "attempt_client (at_ctx a) (at_password a) (at_publicKey a)"
        c "auth_name (at_ctx a)"] au by simp
  have log: "tries (AuthenticationLog E c1 d n m r) = tries c1" for d n m r
    by (rule tries_cong) (simp add: frame_simps)
  show ?thesis
    using SSHAuth_cases [OF assms au, of "at_date a"] v t1 log by (cases res) fastforce+
qed


definition example_attempt :: "string \<Rightarrow> attempt" where
  "example_attempt pw = \<lparr>at_now = 100, at_date = ''now'', at_ctx = example_ctx, at_password = pw, at_publicKey = []\<rparr>"

lemma example_attempts:
  "(case attempts mem_engine example_compare (newDefaultConfig\<lparr>MaxTryLogin := 1\<rparr>)
      (map example_attempt [''no'', ''pw'']) example_core of
      Ret (vs, c') \<Rightarrow> vs = [AuthFailed, AuthBlock] | Panic _ \<Rightarrow> False)"
  by code_simp


end
