(* ===== verification/RingBuffer.thy ===== *)
theory RingBuffer
  imports Prelude
begin

text \<open>
  The history of the terminal (\<^verbatim>\<open>stRingBuffer\<close> of \<^verbatim>\<open>pkg/common/terminal.go\<close>): a ring buffer of strings.
  Its interface, what a client of a bounded history relies on, is a locale; the ring buffer is
  an instance.
\<close>

section \<open>Bounded histories\<close>

text \<open>
  \<open>recent s\<close> is the abstract content, the newest entry first.  Adding puts an entry in front and
  forgets what no longer fits; reading is by distance from the newest entry.
\<close>

locale bounded_history =
  fixes fresh :: 's
    and add :: "'s \<Rightarrow> 'a \<Rightarrow> 's"
    and nth_previous :: "'s \<Rightarrow> nat \<Rightarrow> 'a option"
    and recent :: "'s \<Rightarrow> 'a list"
    and inv :: "'s \<Rightarrow> bool"
    and cap :: nat
  assumes inv_fresh: "inv fresh"
    and recent_fresh: "recent fresh = []"
    and inv_add: "inv s \<Longrightarrow> inv (add s a)"
    and recent_add: "inv s \<Longrightarrow> recent (add s a) = take cap (a # recent s)"
    and nth_recent: "inv s \<Longrightarrow> nth_previous s n = (if n < length (recent s) then Some (recent s ! n) else None)"
begin

lemma inv_adds: "inv s \<Longrightarrow> inv (foldl add s xs)"
  by (induction xs arbitrary: s) (auto intro: inv_add)

lemma recent_adds:
  assumes "inv s"
  shows "recent (foldl add s xs) = (if xs = [] then recent s else take cap (rev xs @ recent s))"
  using assms
proof (induction xs rule: rev_induct)
  case (snoc x xs)
  then show ?case
    by (cases cap) (auto simp: recent_add inv_adds min_def)
qed simp

text \<open>Reading back after any sequence of additions to an empty history.\<close>

lemma nth_after_adds:
  "nth_previous (foldl add fresh xs) n =
     (if n < min cap (length xs) then Some (xs ! (length xs - Suc n)) else None)"
proof -
  have "recent (foldl add fresh xs) = take cap (rev xs)"
    using recent_adds [OF inv_fresh] by (simp add: recent_fresh)
  then show ?thesis
    by (auto simp: nth_recent inv_adds inv_fresh rev_nth)
qed

end

section \<open>The ring buffer\<close>

record stRingBuffer =
  entries :: "string list option"
  rb_max :: nat
  head :: nat
  rb_size :: nat

definition zero_stRingBuffer :: stRingBuffer where
  "zero_stRingBuffer = \<lparr>entries = None, rb_max = 0, head = 0, rb_size = 0\<rparr>"

definition defaultNumEntries :: nat where
  "defaultNumEntries = 100"

definition Add :: "stRingBuffer \<Rightarrow> string \<Rightarrow> stRingBuffer" where
  "Add s a =
     (let s = (case entries s of
                 None \<Rightarrow> s\<lparr>entries := Some (replicate defaultNumEntries []), rb_max := defaultNumEntries\<rparr>
               | Some _ \<Rightarrow> s);
          s = s\<lparr>head := (head s + 1) mod rb_max s\<rparr>;
          s = s\<lparr>entries := Some ((the (entries s))[head s := a])\<rparr>
      in if rb_size s < rb_max s then s\<lparr>rb_size := rb_size s + 1\<rparr> else s)"

definition NthPreviousEntry :: "stRingBuffer \<Rightarrow> nat \<Rightarrow> string option" where
  "NthPreviousEntry s n =
     (if n \<ge> rb_size s then None
      else
        (let idx = int (head s) - int n;
             idx = (if idx < 0 then idx + int (rb_max s) else idx)
         in Some (the (entries s) ! nat idx)))"

definition rb_inv :: "stRingBuffer \<Rightarrow> bool" where
  "rb_inv s \<longleftrightarrow>
     (case entries s of
        None \<Rightarrow> rb_max s = 0 \<and> rb_size s = 0 \<and> head s = 0
      | Some es \<Rightarrow> length es = defaultNumEntries \<and> rb_max s = defaultNumEntries
          \<and> head s < defaultNumEntries \<and> rb_size s \<le> defaultNumEntries)"

definition rb_recent :: "stRingBuffer \<Rightarrow> string list" where
  "rb_recent s = map (\<lambda>n. the (entries s) ! ((head s + rb_max s - n) mod rb_max s)) [0..<rb_size s]"

text \<open>Positions of the ring: going one step forward shifts every distance by one.\<close>

lemma ring_shift:
  assumes "h < m" "n < m"
  shows "((h + 1) mod m + m - Suc n) mod m = (h + m - n) mod m"
proof (cases "h + 1 = m")
  case True
  with assms have "h + m - n = (m - Suc n) + m" by simp
  then have "(h + m - n) mod m = (m - Suc n) mod m" by simp
  with True assms show ?thesis by simp
next
  case False
  with assms have "(h + 1) mod m = h + 1" by simp
  with assms show ?thesis by simp
qed

lemma ring_distinct:
  assumes "h < m" "0 < n" "n < (m :: nat)"
  shows "(h + m - n) mod m \<noteq> h"
  using assms by (cases "n \<le> h") (auto simp: mod_if)

lemma Add_recent:
  assumes "rb_inv s"
  shows "rb_recent (Add s a) = take defaultNumEntries (a # rb_recent s)"
proof (cases "entries s")
  case None
  with assms show ?thesis
    by (simp add: rb_inv_def Add_def rb_recent_def defaultNumEntries_def Let_def)
next
  case (Some es)
  let ?m = defaultNumEntries
  let ?h = "(head s + 1) mod ?m"
  from assms Some have l: "length es = ?m" "rb_max s = ?m" "head s < ?m" "rb_size s \<le> ?m"
    by (simp_all add: rb_inv_def)
  have m: "0 < ?m" by (simp add: defaultNumEntries_def)
  have h: "?h < ?m" using m by simp
  define k where "k = min ?m (Suc (rb_size s))"
  have "entries (Add s a) = Some (es[?h := a])" "head (Add s a) = ?h" "rb_max (Add s a) = ?m" "rb_size (Add s a) = k"
    using Some l by (auto simp: Add_def Let_def k_def)
  then have new: "rb_recent (Add s a) = map (\<lambda>n. es[?h := a] ! ((?h + ?m - n) mod ?m)) [0..<k]"
    by (simp add: rb_recent_def)
  have old: "rb_recent s = map (\<lambda>n. es ! ((head s + ?m - n) mod ?m)) [0..<rb_size s]"
    using Some l by (simp add: rb_recent_def)
  show ?thesis
  proof (rule nth_equalityI)
    show "length (rb_recent (Add s a)) = length (take ?m (a # rb_recent s))"
      by (simp add: new old k_def)
  next
    fix i assume "i < length (rb_recent (Add s a))"
    then have i: "i < k" by (simp add: new)
    show "rb_recent (Add s a) ! i = take ?m (a # rb_recent s) ! i"
    proof (cases i)
      case 0
      with i l h show ?thesis by (simp add: new m)
    next
      case (Suc j)
      with i have j: "j < rb_size s" "Suc j < ?m" by (auto simp: k_def)
      have "(?h + ?m - Suc j) mod ?m \<noteq> ?h" using ring_distinct [OF h, of "Suc j"] j by simp
      moreover have "(?h + ?m - Suc j) mod ?m = (head s + ?m - j) mod ?m"
        using ring_shift [of "head s" ?m j] l j by simp
      ultimately show ?thesis using i j Suc by (simp add: new old)
    qed
  qed
qed

interpretation ring: bounded_history zero_stRingBuffer Add NthPreviousEntry rb_recent rb_inv defaultNumEntries
proof
  show "rb_inv zero_stRingBuffer" by (simp add: rb_inv_def zero_stRingBuffer_def)
  show "rb_recent zero_stRingBuffer = []" by (simp add: rb_recent_def zero_stRingBuffer_def)
  show "rb_inv (Add s a)" if "rb_inv s" for s a
    using that by (auto simp: rb_inv_def Add_def Let_def defaultNumEntries_def split: option.splits)
  show "rb_recent (Add s a) = take defaultNumEntries (a # rb_recent s)" if "rb_inv s" for s a
    using that by (rule Add_recent)
  show "NthPreviousEntry s n = (if n < length (rb_recent s) then Some (rb_recent s ! n) else None)"
    if "rb_inv s" for s n
  proof (cases "n < rb_size s")
    case True
    with that obtain es where es: "entries s = Some es" "rb_max s = defaultNumEntries"
      "head s < defaultNumEntries" "rb_size s \<le> defaultNumEntries"
      by (auto simp: rb_inv_def split: option.splits)
    with True have "nat (if int (head s) - int n < 0 then int (head s) - int n + int (rb_max s) else int (head s) - int n)
        = (head s + rb_max s - n) mod rb_max s"
      by (cases "n \<le> head s") (auto simp: nat_diff_distrib' nat_add_distrib mod_if)
    with True show ?thesis by (simp add: NthPreviousEntry_def rb_recent_def Let_def)
  qed (simp add: NthPreviousEntry_def rb_recent_def)
qed

text \<open>
  C29: the history returns what was entered: after any sequence of lines, the \<open>n\<close>-th previous entry
  is the \<open>n\<close>-th line from the end, for the last hundred lines, and nothing beyond.
\<close>

theorem history_reads_back:
  "NthPreviousEntry (foldl Add zero_stRingBuffer xs) n =
     (if n < min 100 (length xs) then Some (xs ! (length xs - Suc n)) else None)"
  using ring.nth_after_adds [of xs n] by (simp add: defaultNumEntries_def)

end
