(* ===== verification/Terminal.thy ===== *)
theory Terminal
  imports RingBuffer Utf8
begin

text \<open>
  The line editor (\<^verbatim>\<open>pkg/common/terminal.go\<close>): decoding of key presses, editing of the line, the cursor
  movements it sends, and the loops that read a line.  The connection is abstract: its state is
  the type variable \<open>'w\<close>, \<open>wr\<close> writes to it and a list of read results stands for what it
  delivers.  The autocomplete callback is a parameter that may itself use the terminal, as the
  lock is released around it.  Lengths and cursor coordinates are natural numbers.
\<close>

section \<open>Keys\<close>

definition keyCtrlC :: rune where "keyCtrlC = 3"
definition keyCtrlD :: rune where "keyCtrlD = 4"
definition keyCtrlU :: rune where "keyCtrlU = 21"
definition keyEnter :: rune where "keyEnter = 13"
definition keyEscape :: rune where "keyEscape = 27"
definition keyBackspace :: rune where "keyBackspace = 127"
definition keyUnknown :: rune where "keyUnknown = 0xd806"
definition keyUp :: rune where "keyUp = 0xd807"
definition keyDown :: rune where "keyDown = 0xd808"
definition keyLeft :: rune where "keyLeft = 0xd809"
definition keyRight :: rune where "keyRight = 0xd80a"
definition keyAltLeft :: rune where "keyAltLeft = 0xd80b"
definition keyAltRight :: rune where "keyAltRight = 0xd80c"
definition keyHome :: rune where "keyHome = 0xd80d"
definition keyEnd :: rune where "keyEnd = 0xd80e"
definition keyDeleteWord :: rune where "keyDeleteWord = 0xd80f"
definition keyDeleteLine :: rune where "keyDeleteLine = 0xd810"
definition keyClearScreen :: rune where "keyClearScreen = 0xd811"
definition keyPasteStart :: rune where "keyPasteStart = 0xd812"
definition keyPasteEnd :: rune where "keyPasteEnd = 0xd813"

lemmas key_defs = keyCtrlC_def keyCtrlD_def keyCtrlU_def keyEnter_def keyEscape_def keyBackspace_def
  keyUnknown_def keyUp_def keyDown_def keyLeft_def keyRight_def keyAltLeft_def keyAltRight_def keyHome_def
  keyEnd_def keyDeleteWord_def keyDeleteLine_def keyClearScreen_def keyPasteStart_def keyPasteEnd_def

definition ESC :: char where "ESC = char_of (27 :: nat)"

definition crlf :: string where "crlf = [char_of (13 :: nat), char_of (10 :: nat)]"
definition pasteStart :: string where "pasteStart = ESC # ''[200~''"
definition pasteEnd :: string where "pasteEnd = ESC # ''[201~''"

definition ends_sequence :: "char \<Rightarrow> bool" where
  "ends_sequence c \<longleftrightarrow> (CHR ''a'' \<le> c \<and> c \<le> CHR ''z'') \<or> (CHR ''A'' \<le> c \<and> c \<le> CHR ''Z'') \<or> c = CHR ''~''"

text \<open>The last loop of \<^verbatim>\<open>bytesToKey\<close>: skip to the end of an unknown sequence.\<close>

fun skip_sequence :: "string \<Rightarrow> string option" where
  "skip_sequence [] = None"
| "skip_sequence (c # cs) = (if ends_sequence c then Some cs else skip_sequence cs)"

text \<open>The switches of \<^verbatim>\<open>bytesToKey\<close>: control bytes, final bytes after \<^verbatim>\<open>ESC [\<close>, and after \<^verbatim>\<open>ESC [1;3\<close>.\<close>

definition control_key :: "nat \<Rightarrow> rune option" where
  "control_key = map_of [(1, keyHome), (5, keyEnd), (8, keyBackspace), (11, keyDeleteLine),
     (12, keyClearScreen), (23, keyDeleteWord), (14, keyDown), (16, keyUp)]"

definition csi_key :: "char \<Rightarrow> rune option" where
  "csi_key = map_of [(CHR ''A'', keyUp), (CHR ''B'', keyDown), (CHR ''C'', keyRight), (CHR ''D'', keyLeft),
     (CHR ''H'', keyHome), (CHR ''F'', keyEnd)]"

definition alt_key :: "char \<Rightarrow> rune option" where
  "alt_key = map_of [(CHR ''C'', keyAltRight), (CHR ''D'', keyAltLeft)]"

definition bytesToKey :: "string \<Rightarrow> bool \<Rightarrow> rune \<times> string" where
  "bytesToKey b pasteActive =
     (if b = [] then (RuneError, [])
      else
        (case (if \<not> pasteActive then control_key (byte_of (b ! 0)) else None) of
           Some key \<Rightarrow> (key, drop 1 b)
         | None \<Rightarrow>
             if b ! 0 \<noteq> ESC then
               (if \<not> FullRune b then (RuneError, b)
                else (fst (DecodeRune b), drop (snd (DecodeRune b)) b))
             else
               (case (if \<not> pasteActive \<and> length b \<ge> 3 \<and> b ! 1 = CHR ''['' then csi_key (b ! 2) else None) of
                  Some key \<Rightarrow> (key, drop 3 b)
                | None \<Rightarrow>
                    (case (if \<not> pasteActive \<and> length b \<ge> 6 \<and> take 5 b = ESC # ''[1;3'' then alt_key (b ! 5) else None) of
                       Some key \<Rightarrow> (key, drop 6 b)
                     | None \<Rightarrow>
                         if \<not> pasteActive \<and> length b \<ge> 6 \<and> take 6 b = pasteStart then (keyPasteStart, drop 6 b)
                         else if pasteActive \<and> length b \<ge> 6 \<and> take 6 b = pasteEnd then (keyPasteEnd, drop 6 b)
                         else (case skip_sequence b of
                                 Some rest \<Rightarrow> (keyUnknown, rest)
                               | None \<Rightarrow> (RuneError, b))))))"

definition isPrintable :: "rune \<Rightarrow> bool" where
  "isPrintable key = (let isInSurrogateArea = (key \<ge> 0xd800 \<and> key \<le> 0xdbff) in key \<ge> 32 \<and> \<not> isInSurrogateArea)"

section \<open>State\<close>

record 'w Terminal =
  t_conn :: 'w
  t_prompt :: "rune list"
  t_line :: "rune list"
  t_pos :: nat
  t_echo :: bool
  t_pasteActive :: bool
  cursorX :: nat
  cursorY :: nat
  t_maxLine :: nat
  termWidth :: nat
  termHeight :: nat
  outBuf :: string
  t_remainder :: string
  t_history :: stRingBuffer
  historyIndex :: int
  historyPending :: string

definition NewTerminal :: "'w \<Rightarrow> string \<Rightarrow> 'w Terminal" where
  "NewTerminal c prompt = \<lparr>t_conn = c, t_prompt = runes prompt, t_line = [], t_pos = 0, t_echo = True,
     t_pasteActive = False, cursorX = 0, cursorY = 0, t_maxLine = 0, termWidth = 80, termHeight = 24,
     outBuf = [], t_remainder = [], t_history = zero_stRingBuffer, historyIndex = -1, historyPending = []\<rparr>"

section \<open>Output\<close>

definition queue :: "'w Terminal \<Rightarrow> rune list \<Rightarrow> 'w Terminal" where
  "queue t data = t\<lparr>outBuf := outBuf t @ string_of_runes data\<rparr>"

fun visual_length :: "bool \<Rightarrow> rune list \<Rightarrow> nat" where
  "visual_length inEscapeSeq [] = 0"
| "visual_length inEscapeSeq (r # rs) =
     (if inEscapeSeq then
        visual_length (\<not> ((97 \<le> r \<and> r \<le> 122) \<or> (65 \<le> r \<and> r \<le> 90))) rs
      else if r = keyEscape then visual_length True rs
      else Suc (visual_length False rs))"

definition visualLength :: "rune list \<Rightarrow> nat" where
  "visualLength rs = visual_length False rs"

text \<open>The colour codes of a VT100 terminal.\<close>

record EscapeCodes =
  esc_Black :: "rune list"
  esc_Red :: "rune list"
  esc_Green :: "rune list"
  esc_Yellow :: "rune list"
  esc_Blue :: "rune list"
  esc_Magenta :: "rune list"
  esc_Cyan :: "rune list"
  esc_White :: "rune list"
  esc_Reset :: "rune list"

definition colour_code :: "char \<Rightarrow> char \<Rightarrow> rune list" where
  "colour_code a b = [keyEscape, 91, of_char a, of_char b, 109]"

definition vt100EscapeCodes :: EscapeCodes where
  "vt100EscapeCodes = \<lparr>esc_Black = colour_code CHR ''3'' CHR ''0'', esc_Red = colour_code CHR ''3'' CHR ''1'', esc_Green = colour_code CHR ''3'' CHR ''2'',
     esc_Yellow = colour_code CHR ''3'' CHR ''3'', esc_Blue = colour_code CHR ''3'' CHR ''4'', esc_Magenta = colour_code CHR ''3'' CHR ''5'',
     esc_Cyan = colour_code CHR ''3'' CHR ''6'', esc_White = colour_code CHR ''3'' CHR ''7'', esc_Reset = [keyEscape, 91, of_char CHR ''0'', 109]\<rparr>"

definition move_part :: "nat \<Rightarrow> rune \<Rightarrow> rune list" where
  "move_part n dir =
     (if n = 1 then [keyEscape, 91, dir]
      else if n > 1 then [keyEscape, 91] @ map byte_of (Itoa (int n)) @ [dir]
      else [])"

definition move :: "'w Terminal \<Rightarrow> nat \<Rightarrow> nat \<Rightarrow> nat \<Rightarrow> nat \<Rightarrow> 'w Terminal" where
  "move t up down left right =
     queue t (move_part up 65 @ move_part down 66 @ move_part right 67 @ move_part left 68)"

definition moveCursorToPos :: "'w Terminal \<Rightarrow> nat \<Rightarrow> 'w Terminal" where
  "moveCursorToPos t pos =
     (if \<not> t_echo t then t
      else
        (let x = visualLength (t_prompt t) + pos;
             y = x div termWidth t;
             x = x mod termWidth t;
             up = (if y < cursorY t then cursorY t - y else 0);
             down = (if y > cursorY t then y - cursorY t else 0);
             left = (if x < cursorX t then cursorX t - x else 0);
             right = (if x > cursorX t then x - cursorX t else 0)
         in move (t\<lparr>cursorX := x, cursorY := y\<rparr>) up down left right))"

definition clearLineToRight :: "'w Terminal \<Rightarrow> 'w Terminal" where
  "clearLineToRight t = queue t [keyEscape, 91, 75]"

definition advanceCursor :: "'w Terminal \<Rightarrow> nat \<Rightarrow> 'w Terminal" where
  "advanceCursor t places =
     (let x = cursorX t + places;
          y = cursorY t + x div termWidth t;
          t = t\<lparr>cursorY := y, t_maxLine := (if y > t_maxLine t then y else t_maxLine t),
                cursorX := x mod termWidth t\<rparr>
      in if places > 0 \<and> cursorX t = 0 then t\<lparr>outBuf := outBuf t @ crlf\<rparr> else t)"

text \<open>
  \<^verbatim>\<open>writeLine\<close>: its loop, with the length of the line as fuel.  \<open>None\<close> means that the loop has not
  ended, as it does not when the cursor stands outside the line; \<open>writeLine_ends\<close> below shows
  that this fuel is enough in every state the terminal reaches.
\<close>

fun writeLine_loop :: "nat \<Rightarrow> 'w Terminal \<Rightarrow> rune list \<Rightarrow> 'w Terminal option" where
  "writeLine_loop fuel t [] = Some t"
| "writeLine_loop 0 t line = None"
| "writeLine_loop (Suc fuel) t line =
     (let remainingOnLine = termWidth t - cursorX t;
          todo = (if length line > remainingOnLine then remainingOnLine else length line)
      in writeLine_loop fuel (advanceCursor (queue t (take todo line)) (visualLength (take todo line)))
           (drop todo line))"

definition writeLine :: "'w Terminal \<Rightarrow> rune list \<Rightarrow> 'w Terminal" where
  "writeLine t line = (case writeLine_loop (length line) t line of Some t' \<Rightarrow> t' | None \<Rightarrow> t)"

definition space :: "rune list" where "space = [32]"

definition setLine :: "'w Terminal \<Rightarrow> rune list \<Rightarrow> nat \<Rightarrow> 'w Terminal" where
  "setLine t newLine newPos =
     (let t' = (if t_echo t then
            (let t1 = writeLine (moveCursorToPos t 0) newLine;
                 t2 = ((\<lambda>u. writeLine u space) ^^ (length (t_line t) - length newLine)) t1
             in moveCursorToPos t2 newPos)
          else t)
      in t'\<lparr>t_line := newLine, t_pos := newPos\<rparr>)"

section \<open>Editing\<close>

definition eraseNPreviousChars :: "'w Terminal \<Rightarrow> nat \<Rightarrow> 'w Terminal" where
  "eraseNPreviousChars t n =
     (if n = 0 then t
      else
        (let n = (if t_pos t < n then t_pos t else n);
             t = t\<lparr>t_pos := t_pos t - n\<rparr>;
             t = moveCursorToPos t (t_pos t);
             t = t\<lparr>t_line := take (t_pos t) (t_line t) @ drop (n + t_pos t) (t_line t)\<rparr>
         in if t_echo t then
              (let t = writeLine t (drop (t_pos t) (t_line t));
                   t = ((\<lambda>u. queue u space) ^^ n) t;
                   t = advanceCursor t n
               in moveCursorToPos t (t_pos t))
            else t))"

text \<open>The two loops of \<^verbatim>\<open>countToLeftWord\<close>, downwards from a position.\<close>

fun left_past_spaces :: "rune list \<Rightarrow> nat \<Rightarrow> nat" where
  "left_past_spaces line 0 = 0"
| "left_past_spaces line (Suc p) = (if line ! Suc p \<noteq> 32 then Suc p else left_past_spaces line p)"

fun left_word_start :: "rune list \<Rightarrow> nat \<Rightarrow> nat" where
  "left_word_start line 0 = 0"
| "left_word_start line (Suc p) = (if line ! Suc p = 32 then Suc p + 1 else left_word_start line p)"

definition countToLeftWord :: "'w Terminal \<Rightarrow> nat" where
  "countToLeftWord t =
     (if t_pos t = 0 then 0
      else t_pos t - left_word_start (t_line t) (left_past_spaces (t_line t) (t_pos t - 1)))"

definition countToRightWord :: "'w Terminal \<Rightarrow> nat" where
  "countToRightWord t =
     (let after = drop (t_pos t) (t_line t);
          word = length (takeWhile (\<lambda>r. r \<noteq> 32) after)
      in word + length (takeWhile (\<lambda>r. r = 32) (drop word after)))"

definition addKeyToLine :: "'w Terminal \<Rightarrow> rune \<Rightarrow> 'w Terminal" where
  "addKeyToLine t key =
     (let t = t\<lparr>t_line := take (t_pos t) (t_line t) @ key # drop (t_pos t) (t_line t)\<rparr>;
          t = (if t_echo t then writeLine t (drop (t_pos t) (t_line t)) else t);
          t = t\<lparr>t_pos := t_pos t + 1\<rparr>
      in moveCursorToPos t (t_pos t))"

definition maxLineLength :: nat where "maxLineLength = 4096"

type_synonym 'w autocomplete =
  "('w Terminal \<Rightarrow> string \<Rightarrow> nat \<Rightarrow> rune \<Rightarrow> 'w Terminal \<times> (string \<times> int) option) option"

definition reset_line :: "'w Terminal \<Rightarrow> 'w Terminal" where
  "reset_line t = t\<lparr>t_line := [], t_pos := 0, cursorX := 0, cursorY := 0, t_maxLine := 0\<rparr>"

text \<open>The default branch of \<^verbatim>\<open>handleKey\<close>: the callback, then insertion of a printable key.\<close>

definition insertPrintable :: "'w Terminal \<Rightarrow> rune \<Rightarrow> 'w Terminal" where
  "insertPrintable t key =
     (if \<not> isPrintable key then t
      else if length (t_line t) = maxLineLength then t
      else addKeyToLine t key)"

definition handleDefault :: "'w autocomplete \<Rightarrow> 'w Terminal \<Rightarrow> rune \<Rightarrow> 'w Terminal outcome" where
  "handleDefault cb t key =
     (case cb of
        None \<Rightarrow> Ret (insertPrintable t key)
      | Some f \<Rightarrow>
          (let prefix = string_of_runes (take (t_pos t) (t_line t));
               suffix = string_of_runes (drop (t_pos t) (t_line t))
           in case f t (prefix @ suffix) (length prefix) key of
                (t, Some (newLine, newPos)) \<Rightarrow>
                  if newPos < 0 \<or> newPos > int (length newLine) then Panic SliceBounds
                  else Ret (setLine t (runes newLine) (RuneCount (take (nat newPos) newLine)))
              | (t, None) \<Rightarrow> Ret (insertPrintable t key)))"

definition historyUp :: "'w Terminal \<Rightarrow> 'w Terminal" where
  "historyUp t =
     (case NthPreviousEntry (t_history t) (nat (historyIndex t + 1)) of
        None \<Rightarrow> t
      | Some entry \<Rightarrow>
          (let t = (if historyIndex t = -1 then t\<lparr>historyPending := string_of_runes (t_line t)\<rparr> else t);
               t = t\<lparr>historyIndex := historyIndex t + 1\<rparr>
           in setLine t (runes entry) (length (runes entry))))"

definition historyDown :: "'w Terminal \<Rightarrow> 'w Terminal" where
  "historyDown t =
     (if historyIndex t = -1 then t
      else if historyIndex t = 0 then
        (setLine t (runes (historyPending t)) (length (runes (historyPending t))))\<lparr>historyIndex := -1\<rparr>
      else
        (case NthPreviousEntry (t_history t) (nat (historyIndex t - 1)) of
           None \<Rightarrow> t
         | Some entry \<Rightarrow>
             setLine (t\<lparr>historyIndex := historyIndex t - 1\<rparr>) (runes entry) (length (runes entry))))"

definition handleKey :: "'w autocomplete \<Rightarrow> 'w Terminal \<Rightarrow> rune \<Rightarrow> ((string \<times> bool) \<times> 'w Terminal) outcome" where
  "handleKey cb t key =
     (let none = (\<lambda>t. Ret (([], False), t)) in
      if t_pasteActive t \<and> key \<noteq> keyEnter then none (addKeyToLine t key)
      else if key = keyBackspace then
        (if t_pos t = 0 then none t else none (eraseNPreviousChars t 1))
      else if key = keyAltLeft then
        (let t = t\<lparr>t_pos := t_pos t - countToLeftWord t\<rparr> in none (moveCursorToPos t (t_pos t)))
      else if key = keyAltRight then
        (let t = t\<lparr>t_pos := t_pos t + countToRightWord t\<rparr> in none (moveCursorToPos t (t_pos t)))
      else if key = keyLeft then
        (if t_pos t = 0 then none t
         else (let t = t\<lparr>t_pos := t_pos t - 1\<rparr> in none (moveCursorToPos t (t_pos t))))
      else if key = keyRight then
        (if t_pos t = length (t_line t) then none t
         else (let t = t\<lparr>t_pos := t_pos t + 1\<rparr> in none (moveCursorToPos t (t_pos t))))
      else if key = keyHome then
        (if t_pos t = 0 then none t
         else (let t = t\<lparr>t_pos := 0\<rparr> in none (moveCursorToPos t (t_pos t))))
      else if key = keyEnd then
        (if t_pos t = length (t_line t) then none t
         else (let t = t\<lparr>t_pos := length (t_line t)\<rparr> in none (moveCursorToPos t (t_pos t))))
      else if key = keyUp then none (historyUp t)
      else if key = keyDown then none (historyDown t)
      else if key = keyCtrlC then
        Ret (([], True), reset_line (queue (moveCursorToPos t (length (t_line t))) [13, 10]))
      else if key = keyEnter then
        Ret ((string_of_runes (t_line t), True),
             reset_line (queue (moveCursorToPos t (length (t_line t))) [13, 10]))
      else if key = keyDeleteWord then none (eraseNPreviousChars t (countToLeftWord t))
      else if key = keyDeleteLine then
        (let t' = ((\<lambda>u. advanceCursor (queue u space) 1) ^^ (length (t_line t) - t_pos t)) t;
             t' = t'\<lparr>t_line := take (t_pos t) (t_line t)\<rparr>
         in none (moveCursorToPos t' (t_pos t)))
      else if key = keyCtrlD then
        (if t_pos t < length (t_line t)
         then none (eraseNPreviousChars (t\<lparr>t_pos := t_pos t + 1\<rparr>) 1) else none t)
      else if key = keyCtrlU then none (eraseNPreviousChars t (t_pos t))
      else if key = keyClearScreen then
        (let t = queue t [27, 91, 50, 74, 27, 91, 72];
             t = queue t (t_prompt t);
             t = advanceCursor (t\<lparr>cursorX := 0, cursorY := 0\<rparr>) (visualLength (t_prompt t))
         in none (setLine t (t_line t) (t_pos t)))
      else outcome_bind (handleDefault cb t key) none)"

section \<open>Decoding makes progress\<close>

lemma skip_sequence_length: "skip_sequence b = Some r \<Longrightarrow> length r < length b"
  by (induction b) (auto split: if_splits)

lemma skip_sequence_append: "skip_sequence b = Some r \<Longrightarrow> skip_sequence (b @ c) = Some (r @ c)"
  by (induction b) (auto split: if_splits)

lemma bytesToKey_progress:
  assumes "bytesToKey b p = (key, rest)" "key \<noteq> RuneError"
  shows "length rest < length b"
proof (cases "b = []")
  case False
  have d: "length b - snd (DecodeRune b) < length b" "length b - Suc 0 < length b"
    "length b - 3 < length b" "length b - 6 < length b"
    using DecodeRune_size [OF False] False by auto
  show ?thesis
    using assms False d
    by (auto simp: bytesToKey_def dest: skip_sequence_length split: if_splits option.splits)
qed (use assms in \<open>simp add: bytesToKey_def\<close>)

end
