(* ===== verification/TerminalIO.thy ===== *)
theory TerminalIO
  imports Terminal
begin

text \<open>
  Reading and writing through the line editor (\<^verbatim>\<open>pkg/common/terminal.go\<close>).  A write to the
  connection returns the number of bytes written and an error; a read delivers a chunk or an
  error, and a chunk longer than the free part of the 256 byte input buffer is delivered in pieces.
\<close>

section \<open>Writing\<close>

type_synonym 'w writer = "'w \<Rightarrow> string \<Rightarrow> (nat \<times> goerror option) \<times> 'w"

lemma IndexByte_less: "IndexByte s ch = Some i \<Longrightarrow> i < length s"
  by (induction s arbitrary: i) (auto split: if_splits)

function writeWithCRLF :: "'w writer \<Rightarrow> 'w \<Rightarrow> string \<Rightarrow> nat \<Rightarrow> (nat \<times> goerror option) \<times> 'w" where
  "writeWithCRLF wr w buf n =
     (if buf = [] then ((n, None), w)
      else
        (let i = IndexByte buf (char_of (10 :: nat));
             todo = (case i of None \<Rightarrow> length buf | Some i \<Rightarrow> i);
             ((nn, err), w) = wr w (take todo buf)
         in case err of
              Some e \<Rightarrow> ((n + nn, Some e), w)
            | None \<Rightarrow>
                (case i of
                   None \<Rightarrow> ((n + nn, None), w)
                 | Some _ \<Rightarrow>
                     (let ((_, err), w) = wr w crlf
                      in case err of
                           Some e \<Rightarrow> ((n + nn, Some e), w)
                         | None \<Rightarrow> writeWithCRLF wr w (drop (Suc todo) buf) (n + nn + 1)))))"
  by pat_completeness auto
termination by (relation "measure (\<lambda>(wr, w, buf, n). length buf)") auto

declare writeWithCRLF.simps [simp del]

text \<open>Sending \<^verbatim>\<open>outBuf\<close> where the code ignores the result of the write.\<close>

definition flush :: "'w writer \<Rightarrow> 'w Terminal \<Rightarrow> 'w Terminal" where
  "flush wr t = t\<lparr>t_conn := snd (wr (t_conn t) (outBuf t)), outBuf := []\<rparr>"

definition Write :: "'w writer \<Rightarrow> 'w Terminal \<Rightarrow> string \<Rightarrow> (nat \<times> goerror option) \<times> 'w Terminal" where
  "Write wr t buf =
     (if cursorX t = 0 \<and> cursorY t = 0 then
        (let (res, w) = writeWithCRLF wr (t_conn t) buf 0 in (res, t\<lparr>t_conn := w\<rparr>))
      else
        (let t = (move t 0 0 (cursorX t) 0)\<lparr>cursorX := 0\<rparr>;
             t = clearLineToRight t;
             t = ((\<lambda>u. clearLineToRight ((move u 1 0 0 0)\<lparr>cursorY := cursorY u - 1\<rparr>)) ^^ cursorY t) t;
             ((_, err), w) = wr (t_conn t) (outBuf t);
             t = t\<lparr>t_conn := w\<rparr>
         in case err of
              Some e \<Rightarrow> ((0, Some e), t)
            | None \<Rightarrow>
                (let t = t\<lparr>outBuf := []\<rparr>;
                     ((n, err), w) = writeWithCRLF wr (t_conn t) buf 0;
                     t = t\<lparr>t_conn := w\<rparr>
                 in case err of
                      Some e \<Rightarrow> ((n, Some e), t)
                    | None \<Rightarrow>
                        (let t = writeLine t (t_prompt t);
                             t = (if t_echo t then writeLine t (t_line t) else t);
                             t = moveCursorToPos t (t_pos t);
                             ((_, err), w) = wr (t_conn t) (outBuf t);
                             t = t\<lparr>t_conn := w\<rparr>
                         in case err of
                              Some e \<Rightarrow> ((n, Some e), t)
                            | None \<Rightarrow> ((n, None), t\<lparr>outBuf := []\<rparr>)))))"

section \<open>Reading a line\<close>

text \<open>The inner loop of \<^verbatim>\<open>readLine\<close> over the bytes at hand.\<close>

datatype 'w keys_result =
    KeyEOF "'w Terminal"
  | KeyBreak "'w Terminal" bool string
  | KeyLine "'w Terminal" bool string string

function readLine_keys :: "'w autocomplete \<Rightarrow> 'w Terminal \<Rightarrow> bool \<Rightarrow> string \<Rightarrow> 'w keys_result outcome" where
  "readLine_keys cb t lineIsPasted rest =
     (let kr = bytesToKey rest (t_pasteActive t); key = fst kr; rest' = snd kr
      in if key = RuneError then Ret (KeyBreak t lineIsPasted rest')
         else if \<not> t_pasteActive t \<and> key = keyCtrlD \<and> t_line t = [] then Ret (KeyEOF (t\<lparr>t_remainder := rest'\<rparr>))
         else if \<not> t_pasteActive t \<and> key = keyPasteStart then
           readLine_keys cb (t\<lparr>t_pasteActive := True\<rparr>) (if t_line t = [] then True else lineIsPasted) rest'
         else if t_pasteActive t \<and> key = keyPasteEnd then
           readLine_keys cb (t\<lparr>t_pasteActive := False\<rparr>) lineIsPasted rest'
         else
           (let lineIsPasted = (if \<not> t_pasteActive t then False else lineIsPasted)
            in case handleKey cb t key of
                 Panic p \<Rightarrow> Panic p
               | Ret ((line, lineOk), t') \<Rightarrow>
                   if lineOk then Ret (KeyLine t' lineIsPasted rest' line)
                   else readLine_keys cb t' lineIsPasted rest'))"
  by pat_completeness auto
termination
  by (relation "measure (\<lambda>(cb, t, p, rest). length rest)")
     (auto intro!: bytesToKey_progress [OF prod.collapse [symmetric]])

declare readLine_keys.simps [simp del]

datatype read_result = Chunk string | ReadFailed goerror

text \<open>
  How a call of \<^verbatim>\<open>readLine\<close> can end.  \<open>Waiting\<close>: the given reads are used up.  \<open>Stalled\<close>: the input
  buffer is full of an unfinished key sequence, so every further read has no room and returns
  nothing; the loop of the source then never ends.
\<close>

datatype line_result = LineRead string bool | LineEOF | LineFailed goerror | Waiting | Stalled

definition inBufSize :: nat where "inBufSize = 256"

fun pending_reads :: "read_result list \<Rightarrow> nat" where
  "pending_reads [] = 0"
| "pending_reads (Chunk s # rs) = Suc (length s) + pending_reads rs"
| "pending_reads (ReadFailed e # rs) = Suc (pending_reads rs)"

definition rest_of_chunk :: "nat \<Rightarrow> string \<Rightarrow> read_result list \<Rightarrow> read_result list" where
  "rest_of_chunk room s rs = (if length s > room then Chunk (drop room s) # rs else rs)"

lemma pending_rest_of_chunk: "0 < room \<Longrightarrow> pending_reads (rest_of_chunk room s rs) < Suc (length s + pending_reads rs)"
  by (auto simp: rest_of_chunk_def)

function readLine_loop :: "'w autocomplete \<Rightarrow> 'w writer \<Rightarrow> 'w Terminal \<Rightarrow> bool \<Rightarrow> read_result list
    \<Rightarrow> (line_result \<times> 'w Terminal \<times> read_result list) outcome" where
  "readLine_loop cb wr t lineIsPasted reads =
     (case readLine_keys cb t lineIsPasted (t_remainder t) of
        Panic p \<Rightarrow> Panic p
      | Ret (KeyEOF t) \<Rightarrow> Ret (LineEOF, t, reads)
      | Ret (KeyLine t lineIsPasted rest line) \<Rightarrow>
          (let t = flush wr (t\<lparr>t_remainder := rest\<rparr>);
               t = (if t_echo t then t\<lparr>historyIndex := -1, t_history := Add (t_history t) line\<rparr> else t)
           in Ret (LineRead line lineIsPasted, t, reads))
      | Ret (KeyBreak t lineIsPasted rest) \<Rightarrow>
          (let t = flush wr (t\<lparr>t_remainder := rest\<rparr>); room = inBufSize - length rest
           in case reads of
                [] \<Rightarrow> Ret (Waiting, t, [])
              | ReadFailed e # reads \<Rightarrow> Ret (LineFailed e, t, reads)
              | Chunk s # reads \<Rightarrow>
                  if room = 0 then Ret (Stalled, t, Chunk s # reads)
                  else readLine_loop cb wr (t\<lparr>t_remainder := rest @ take room s\<rparr>) lineIsPasted
                         (rest_of_chunk room s reads)))"
  by pat_completeness auto
termination
  by (relation "measure (\<lambda>(cb, wr, t, p, reads). pending_reads reads)") (auto intro: pending_rest_of_chunk)

declare readLine_loop.simps [simp del]

definition readLine :: "'w autocomplete \<Rightarrow> 'w writer \<Rightarrow> 'w Terminal \<Rightarrow> read_result list
    \<Rightarrow> (line_result \<times> 'w Terminal \<times> read_result list) outcome" where
  "readLine cb wr t reads =
     (let t = (if cursorX t = 0 \<and> cursorY t = 0 then flush wr (writeLine t (t_prompt t)) else t)
      in readLine_loop cb wr t (t_pasteActive t) reads)"

definition ReadLine :: "'w autocomplete \<Rightarrow> 'w writer \<Rightarrow> 'w Terminal \<Rightarrow> read_result list
    \<Rightarrow> (line_result \<times> 'w Terminal \<times> read_result list) outcome" where
  "ReadLine cb wr t reads = readLine cb wr t reads"

definition ReadPassword :: "'w autocomplete \<Rightarrow> 'w writer \<Rightarrow> 'w Terminal \<Rightarrow> string \<Rightarrow> read_result list
    \<Rightarrow> (line_result \<times> 'w Terminal \<times> read_result list) outcome" where
  "ReadPassword cb wr t prompt reads =
     outcome_bind (readLine cb wr (t\<lparr>t_prompt := runes prompt, t_echo := False\<rparr>) reads)
       (\<lambda>(res, t', reads'). Ret (res, t'\<lparr>t_prompt := t_prompt t, t_echo := True\<rparr>, reads'))"

section \<open>Reading lines until the end\<close>

text \<open>
  The inner loop of \<^verbatim>\<open>ReadLines\<close>: the lines are collected, a line end does not leave the loop, and nothing is sent or added to the
  history.  \<open>None\<close> for the rest means the end of input was typed.
\<close>

function readLines_keys :: "'w autocomplete \<Rightarrow> 'w Terminal \<Rightarrow> string list \<Rightarrow> string \<Rightarrow> (string option \<times> string list \<times> 'w Terminal) outcome" where
  "readLines_keys cb t lines rest =
     (if rest = [] then Ret (Some [], lines, t)
      else
        (let kr = bytesToKey rest (t_pasteActive t); key = fst kr; rest' = snd kr
         in if key = RuneError then Ret (Some rest', lines, t)
            else if \<not> t_pasteActive t \<and> key = keyCtrlD \<and> t_line t = [] then Ret (None, lines, t)
            else if \<not> t_pasteActive t \<and> key = keyPasteStart then readLines_keys cb (t\<lparr>t_pasteActive := True\<rparr>) lines rest'
            else if t_pasteActive t \<and> key = keyPasteEnd then readLines_keys cb (t\<lparr>t_pasteActive := False\<rparr>) lines rest'
            else
              (case handleKey cb t key of
                 Panic p \<Rightarrow> Panic p
               | Ret ((line, lineOk), t') \<Rightarrow> readLines_keys cb t' (if lineOk then lines @ [line] else lines) rest')))"
  by pat_completeness auto
termination
  by (relation "measure (\<lambda>(cb, t, ls, rest). length rest)")
     (auto intro!: bytesToKey_progress [OF prod.collapse [symmetric]])

declare readLines_keys.simps [simp del]

text \<open>How \<^verbatim>\<open>ReadLines\<close> can end; \<open>LinesWaiting\<close> and \<open>LinesStalled\<close> are as for one line.\<close>

datatype lines_result = LinesEOF "string list" | LinesFailed "string list" goerror | LinesWaiting "string list" | LinesStalled

function readLines_loop :: "'w autocomplete \<Rightarrow> 'w Terminal \<Rightarrow> string list \<Rightarrow> read_result list
    \<Rightarrow> (lines_result \<times> 'w Terminal \<times> read_result list) outcome" where
  "readLines_loop cb t lines reads =
     (case readLines_keys cb t lines (t_remainder t) of
        Panic p \<Rightarrow> Panic p
      | Ret (None, lines, t) \<Rightarrow> Ret (LinesEOF lines, t, reads)
      | Ret (Some rest, lines, t) \<Rightarrow>
          (let t = t\<lparr>t_remainder := rest\<rparr>; room = inBufSize - length rest
           in case reads of
                [] \<Rightarrow> Ret (LinesWaiting lines, t, [])
              | ReadFailed e # reads \<Rightarrow> Ret (LinesFailed lines e, t, reads)
              | Chunk s # reads \<Rightarrow>
                  if room = 0 then Ret (LinesStalled, t, Chunk s # reads)
                  else readLines_loop cb (t\<lparr>t_remainder := rest @ take room s\<rparr>) lines (rest_of_chunk room s reads)))"
  by pat_completeness auto
termination
  by (relation "measure (\<lambda>(cb, t, ls, reads). pending_reads reads)") (auto intro: pending_rest_of_chunk)

declare readLines_loop.simps [simp del]

definition ReadLines :: "'w autocomplete \<Rightarrow> 'w writer \<Rightarrow> 'w Terminal \<Rightarrow> read_result list
    \<Rightarrow> (lines_result \<times> 'w Terminal \<times> read_result list) outcome" where
  "ReadLines cb wr t reads =
     (let t = (if cursorX t = 0 \<and> cursorY t = 0 then flush wr (writeLine t (t_prompt t)) else t)
      in readLines_loop cb t [] reads)"

section \<open>Settings\<close>

definition SetEcho :: "'w Terminal \<Rightarrow> bool \<Rightarrow> 'w Terminal" where
  "SetEcho t echo = t\<lparr>t_echo := echo\<rparr>"

definition SetPrompt :: "'w Terminal \<Rightarrow> string \<Rightarrow> 'w Terminal" where
  "SetPrompt t prompt = t\<lparr>t_prompt := runes prompt\<rparr>"

definition clearAndRepaintLinePlusNPrevious :: "'w Terminal \<Rightarrow> nat \<Rightarrow> 'w Terminal" where
  "clearAndRepaintLinePlusNPrevious t numPrevLines =
     (let t = (move t (cursorY t) 0 (cursorX t) 0)\<lparr>cursorX := 0, cursorY := 0\<rparr>;
          t = clearLineToRight t;
          t = ((\<lambda>u. clearLineToRight ((move u 0 1 0 0)\<lparr>cursorY := cursorY u + 1\<rparr>)) ^^ numPrevLines) t;
          t = (move t (cursorY t) 0 0 0)\<lparr>cursorX := 0, cursorY := 0\<rparr>;
          t = advanceCursor (queue t (t_prompt t)) (visualLength (t_prompt t));
          t = writeLine t (t_line t)
      in moveCursorToPos t (t_pos t))"

definition GetSize :: "'w Terminal \<Rightarrow> nat \<times> nat" where
  "GetSize t = (termWidth t, termHeight t)"

definition SetSize :: "'w writer \<Rightarrow> 'w Terminal \<Rightarrow> nat \<Rightarrow> nat \<Rightarrow> goerror option \<times> 'w Terminal" where
  "SetSize wr t width height =
     (let width = (if width = 0 then 1 else width);
          oldWidth = termWidth t;
          t = t\<lparr>termWidth := width, termHeight := height\<rparr>
      in if width = oldWidth then (None, t)
         else if t_line t = [] \<and> cursorX t = 0 \<and> cursorY t = 0 then (None, t)
         else
           (let t = (if width < oldWidth then
                  (let t = (if cursorX t \<ge> termWidth t then t\<lparr>cursorX := termWidth t - 1\<rparr> else t);
                       t = t\<lparr>cursorY := cursorY t * 2\<rparr>
                   in clearAndRepaintLinePlusNPrevious t (t_maxLine t * 2))
                else clearAndRepaintLinePlusNPrevious t (t_maxLine t));
                ((_, err), w) = wr (t_conn t) (outBuf t)
            in (err, t\<lparr>t_conn := w, outBuf := []\<rparr>)))"

definition SetBracketedPasteMode :: "'w writer \<Rightarrow> 'w Terminal \<Rightarrow> bool \<Rightarrow> 'w Terminal" where
  "SetBracketedPasteMode wr t on =
     t\<lparr>t_conn := snd (wr (t_conn t) (if on then ESC # ''[?2004h'' else ESC # ''[?2004l''))\<rparr>"

end
