(* ===== verification/TerminalProps.thy ===== *)
theory TerminalProps
  imports TerminalIO
begin

text \<open>
  Correctness of the line editor: the screen operations leave the text alone and end, the editing
  keys implement a cursor between two texts, the cursor on the screen follows the position in
  the line, key decoding does not depend on how the input is cut into reads, and what is typed
  is what is returned.
\<close>

section \<open>Screen operations leave the text alone\<close>

definition off_screen :: "'w Terminal \<Rightarrow> 'w Terminal" where
  "off_screen t = t\<lparr>cursorX := 0, cursorY := 0, t_maxLine := 0, outBuf := []\<rparr>"

lemma off_screen_eqD:
  assumes "off_screen t = off_screen u"
  shows "t_conn t = t_conn u" "t_prompt t = t_prompt u" "t_line t = t_line u" "t_pos t = t_pos u"
    "t_echo t = t_echo u" "t_pasteActive t = t_pasteActive u" "termWidth t = termWidth u"
    "termHeight t = termHeight u" "t_remainder t = t_remainder u" "t_history t = t_history u"
    "historyIndex t = historyIndex u" "historyPending t = historyPending u"
  using assms by (cases t; cases u; simp add: off_screen_def)+

lemma off_screen_ops:
  "off_screen (queue t d) = off_screen t"
  "off_screen (move t a b c e) = off_screen t"
  "off_screen (moveCursorToPos t p) = off_screen t"
  "off_screen (clearLineToRight t) = off_screen t"
  "off_screen (advanceCursor t n) = off_screen t"
  by (simp_all add: off_screen_def queue_def move_def moveCursorToPos_def clearLineToRight_def
      advanceCursor_def Let_def)

lemma off_screen_writeLine_loop: "writeLine_loop n t l = Some t' \<Longrightarrow> off_screen t' = off_screen t"
  by (induction n t l rule: writeLine_loop.induct) (auto simp: off_screen_ops Let_def)

lemma off_screen_writeLine: "off_screen (writeLine t l) = off_screen t"
  by (auto simp: writeLine_def dest: off_screen_writeLine_loop split: option.splits)

lemmas queue_frame [simp] = off_screen_eqD [OF off_screen_ops(1)]
lemmas move_frame [simp] = off_screen_eqD [OF off_screen_ops(2)]
lemmas moveCursor_frame [simp] = off_screen_eqD [OF off_screen_ops(3)]
lemmas clearLine_frame [simp] = off_screen_eqD [OF off_screen_ops(4)]
lemmas advance_frame [simp] = off_screen_eqD [OF off_screen_ops(5)]
lemmas writeLine_frame [simp] = off_screen_eqD [OF off_screen_writeLine]

lemma off_screen_iterate:
  assumes "\<And>u. off_screen (f u) = off_screen u"
  shows "off_screen ((f ^^ n) t) = off_screen t"
  by (induction n) (simp_all add: assms)

lemmas writeSpaces_frame [simp] = off_screen_eqD [OF off_screen_iterate [of "\<lambda>u. writeLine u space", OF off_screen_writeLine]]
lemmas queueSpaces_frame [simp] = off_screen_eqD [OF off_screen_iterate [of "\<lambda>u. queue u space", OF off_screen_ops(1)]]

lemma off_screen_blank: "off_screen (advanceCursor (queue u space) 1) = off_screen u"
  by (simp add: off_screen_ops)

lemmas blanks_frame [simp] =
  off_screen_eqD [OF off_screen_iterate [of "\<lambda>u. advanceCursor (queue u space) 1", OF off_screen_blank],
    unfolded One_nat_def]

section \<open>The cursor stays on the line, so writing ends\<close>

definition on_line :: "'w Terminal \<Rightarrow> bool" where
  "on_line t \<longleftrightarrow> cursorX t < termWidth t"

lemma on_line_ops [simp]:
  "on_line t \<Longrightarrow> on_line (queue t d)"
  "on_line t \<Longrightarrow> on_line (move t a b c e)"
  "on_line t \<Longrightarrow> on_line (moveCursorToPos t p)"
  "on_line t \<Longrightarrow> on_line (clearLineToRight t)"
  "on_line t \<Longrightarrow> on_line (advanceCursor t n)"
  by (auto simp: on_line_def queue_def move_def moveCursorToPos_def clearLineToRight_def advanceCursor_def Let_def)

lemma writeLine_ends:
  assumes "on_line t" "length l \<le> n"
  shows "\<exists>t'. writeLine_loop n t l = Some t' \<and> on_line t'"
  using assms
proof (induction n t l rule: writeLine_loop.induct)
  case (3 fuel t v va)
  let ?todo = "if length (v # va) > termWidth t - cursorX t then termWidth t - cursorX t else length (v # va)"
  have "0 < ?todo" using 3(2) by (simp add: on_line_def)
  then have "length (drop ?todo (v # va)) \<le> fuel" using 3(3) by auto
  with 3(1) [OF refl refl] 3(2) show ?case by (simp add: Let_def)
qed auto

lemma on_line_writeLine [simp]: "on_line t \<Longrightarrow> on_line (writeLine t l)"
  using writeLine_ends [of t l "length l"] by (auto simp: writeLine_def)

lemma on_line_iterate:
  fixes f :: "'w Terminal \<Rightarrow> 'w Terminal"
  assumes "\<And>u. on_line u \<Longrightarrow> on_line (f u)" "on_line t"
  shows "on_line ((f ^^ n) t)"
  using assms by (induction n) auto

section \<open>Editing is a cursor between two texts\<close>

definition before :: "'w Terminal \<Rightarrow> rune list" where
  "before t = take (t_pos t) (t_line t)"

definition after :: "'w Terminal \<Rightarrow> rune list" where
  "after t = drop (t_pos t) (t_line t)"

text \<open>
  The text left of the cursor without its last word: trailing blanks, then everything back to
  the preceding blank; the first rune counts as part of a word whatever it is.
\<close>

definition without_last_word :: "rune list \<Rightarrow> rune list" where
  "without_last_word l =
     (case l of
        [] \<Rightarrow> []
      | x # xs \<Rightarrow>
          (let kept = rev (dropWhile (\<lambda>r. r \<noteq> 32) (dropWhile (\<lambda>r. r = 32) (rev xs)))
           in if kept = [] then [] else x # kept))"

text \<open>What an editing key does to the text before and after the cursor.\<close>

definition edit :: "rune \<Rightarrow> rune list \<times> rune list \<Rightarrow> rune list \<times> rune list" where
  "edit key = (\<lambda>(l, r).
     if key = keyBackspace then (butlast l, r)
     else if key = keyLeft then (if l = [] then (l, r) else (butlast l, last l # r))
     else if key = keyRight then (case r of [] \<Rightarrow> (l, r) | x # r' \<Rightarrow> (l @ [x], r'))
     else if key = keyHome then ([], l @ r)
     else if key = keyEnd then (l @ r, [])
     else if key = keyAltLeft then
       (let l' = without_last_word l in (l', drop (length l') l @ r))
     else if key = keyAltRight then
       (let w = takeWhile (\<lambda>x. x \<noteq> 32) r; s = takeWhile (\<lambda>x. x = 32) (dropWhile (\<lambda>x. x \<noteq> 32) r)
        in (l @ w @ s, dropWhile (\<lambda>x. x = 32) (dropWhile (\<lambda>x. x \<noteq> 32) r)))
     else if key = keyDeleteWord then (without_last_word l, r)
     else if key = keyDeleteLine then (l, [])
     else if key = keyCtrlD then (l, tl r)
     else if key = keyCtrlU then ([], r)
     else if isPrintable key \<and> length l + length r \<noteq> maxLineLength then (l @ [key], r)
     else (l, r))"

definition edit_keys :: "rune list" where
  "edit_keys = [keyBackspace, keyLeft, keyRight, keyHome, keyEnd, keyAltLeft, keyAltRight, keyDeleteWord,
     keyDeleteLine, keyCtrlD, keyCtrlU]"

lemma left_past_spaces_eq:
  "p < length xs + 1 \<Longrightarrow> left_past_spaces (x # xs) p = length (dropWhile (\<lambda>r. r = 32) (rev (take p xs)))"
proof (induction p)
  case (Suc p)
  then have "take (Suc p) xs = take p xs @ [xs ! p]" by (simp add: take_Suc_conv_app_nth)
  with Suc show ?case by auto
qed simp

lemma left_word_start_eq:
  "p < length xs + 1 \<Longrightarrow> left_word_start (x # xs) p =
     (let kept = dropWhile (\<lambda>r. r \<noteq> 32) (rev (take p xs)) in if kept = [] then 0 else Suc (length kept))"
proof (induction p)
  case (Suc p)
  then have "take (Suc p) xs = take p xs @ [xs ! p]" by (simp add: take_Suc_conv_app_nth)
  with Suc show ?case by (auto simp: Let_def)
qed simp

lemma kept_take:
  "rev k = take (length k) xs \<Longrightarrow>
   (if k = [] then [] else x # rev k) = take (if k = [] then 0 else Suc (length k)) (x # xs)"
  by auto

lemma kept_length: "length (if k = [] then [] else x # rev k) = (if k = [] then 0 else Suc (length k))"
  by simp

lemma countToLeftWord_eq:
  assumes "t_pos t \<le> length (t_line t)"
  shows "t_pos t - countToLeftWord t = length (without_last_word (before t))
    \<and> without_last_word (before t) = take (length (without_last_word (before t))) (t_line t)
    \<and> countToLeftWord t \<le> t_pos t"
proof (cases "t_pos t")
  case 0
  then show ?thesis by (simp add: countToLeftWord_def before_def without_last_word_def)
next
  case (Suc p)
  with assms obtain x xs where l: "t_line t = x # xs" "p \<le> length xs" by (cases "t_line t") auto
  let ?a = "dropWhile (\<lambda>r. r = 32) (rev (take p xs))"
  let ?k = "dropWhile (\<lambda>r. r \<noteq> 32) ?a"
  have a: "rev ?a = take (length ?a) (take p xs)"
    by (metis append_eq_conv_conj rev_append rev_rev_ident takeWhile_dropWhile_id length_rev)
  have k: "rev ?k = take (length ?k) (rev ?a)"
    by (metis append_eq_conv_conj rev_append takeWhile_dropWhile_id length_rev)
  have la: "length ?a \<le> p" using length_dropWhile_le [of _ "rev (take p xs)"] by (metis l(2) length_rev length_take min.absorb2 le_trans)
  have lk: "length ?k \<le> length ?a" by (rule length_dropWhile_le)
  have "rev (take (length ?a) xs) = ?a"
    using a la l(2) by (metis rev_rev_ident take_take min.absorb1)
  then have start: "left_word_start (t_line t) (left_past_spaces (t_line t) p) = (if ?k = [] then 0 else Suc (length ?k))"
    using l la left_past_spaces_eq [of p xs x] left_word_start_eq [of "length ?a" xs x] by (simp add: Let_def)
  have b: "before t = x # take p xs" using Suc l by (simp add: before_def)
  have w: "without_last_word (before t) = (if ?k = [] then [] else x # rev ?k)"
    by (simp add: b without_last_word_def Let_def)
  have len: "length (without_last_word (before t)) = (if ?k = [] then 0 else Suc (length ?k))"
    unfolding w by (rule kept_length)
  have pos: "t_pos t - countToLeftWord t = (if ?k = [] then 0 else Suc (length ?k))"
    using Suc la lk by (simp add: countToLeftWord_def start)
  have "rev ?k = take (length ?k) xs" using k a la lk l by (simp add: min_def)
  then have kept: "without_last_word (before t) = take (if ?k = [] then 0 else Suc (length ?k)) (t_line t)"
    unfolding w l(1) by (rule kept_take)
  have "countToLeftWord t \<le> t_pos t" by (simp add: countToLeftWord_def)
  with pos kept show ?thesis unfolding len by (intro conjI)
qed

lemma erase_text:
  assumes "t_pos t \<le> length (t_line t)"
  shows "t_pos (eraseNPreviousChars t n) = t_pos t - n"
    "t_line (eraseNPreviousChars t n) = take (t_pos t - n) (t_line t) @ drop (t_pos t) (t_line t)"
  using assms by (auto simp: eraseNPreviousChars_def Let_def)

lemma erase_before_after:
  assumes "t_pos t \<le> length (t_line t)"
  shows "before (eraseNPreviousChars t n) = take (t_pos t - n) (before t)"
    "after (eraseNPreviousChars t n) = after t"
  using assms by (auto simp: before_def after_def erase_text min_def)

lemma erase_pos: "t_pos t \<le> length (t_line t) \<Longrightarrow>
    t_pos (eraseNPreviousChars t n) \<le> length (t_line (eraseNPreviousChars t n))"
  by (simp add: erase_text)

lemma before_after_moveCursor [simp]:
  "before (moveCursorToPos t p) = before t" "after (moveCursorToPos t p) = after t"
  by (simp_all add: before_def after_def)

lemma add_text [simp]:
  "t_line (addKeyToLine t key) = take (t_pos t) (t_line t) @ key # drop (t_pos t) (t_line t)"
  "t_pos (addKeyToLine t key) = Suc (t_pos t)"
  by (simp_all add: addKeyToLine_def Let_def)

lemma length_before: "t_pos t \<le> length (t_line t) \<Longrightarrow> length (before t) = t_pos t"
  by (simp add: before_def)

lemma length_before_after: "t_pos t \<le> length (t_line t) \<Longrightarrow> length (before t) + length (after t) = length (t_line t)"
  by (simp add: before_def after_def)

lemma line_split: "t_line t = before t @ after t"
  by (simp add: before_def after_def)

definition text_ok :: "'w Terminal \<Rightarrow> bool" where
  "text_ok t \<longleftrightarrow> t_pos t \<le> length (t_line t)"

text \<open>The effect of each group of keys, as the pair of texts.\<close>

lemma move_to_text:
  assumes "p \<le> length (t_line t)"
  shows "text_ok (moveCursorToPos (t\<lparr>t_pos := p\<rparr>) q)"
    "before (moveCursorToPos (t\<lparr>t_pos := p\<rparr>) q) = take p (before t @ after t)"
    "after (moveCursorToPos (t\<lparr>t_pos := p\<rparr>) q) = drop p (before t @ after t)"
  using assms by (simp_all add: text_ok_def before_def after_def)

lemma erase_word_text:
  assumes "text_ok t"
  shows "before (eraseNPreviousChars t (countToLeftWord t)) = without_last_word (before t)"
proof -
  have "t_pos t \<le> length (t_line t)" using assms by (simp add: text_ok_def)
  from countToLeftWord_eq [OF this] this show ?thesis
    by (metis before_def erase_before_after(1) min.absorb1 take_take diff_le_self)
qed

lemma right_word_split:
  "takeWhile P r @ takeWhile Q (dropWhile P r) = take (length (takeWhile P r) + length (takeWhile Q (dropWhile P r))) r"
  "dropWhile Q (dropWhile P r) = drop (length (takeWhile P r) + length (takeWhile Q (dropWhile P r))) r"
  by (metis append.assoc append_eq_conv_conj length_append takeWhile_dropWhile_id)+

lemma countToRightWord_eq:
  "countToRightWord t = length (takeWhile (\<lambda>x. x \<noteq> 32) (after t))
     + length (takeWhile (\<lambda>x. x = 32) (dropWhile (\<lambda>x. x \<noteq> 32) (after t)))"
  by (simp add: countToRightWord_def after_def Let_def dropWhile_eq_drop)

lemma countToRightWord_le: "countToRightWord t \<le> length (after t)"
  unfolding countToRightWord_eq
  by (metis length_append length_takeWhile_le right_word_split(1) length_take min.cobounded1)

definition other_keys :: "rune list" where
  "other_keys = [keyUp, keyDown, keyCtrlC, keyEnter, keyClearScreen]"

definition edits_to :: "'w Terminal \<Rightarrow> rune \<Rightarrow> 'w Terminal \<Rightarrow> bool" where
  "edits_to t key t' \<longleftrightarrow> (before t', after t') = edit key (before t, after t) \<and> text_ok t'"

lemma edits_erase:
  assumes "text_ok t"
  shows "edits_to t keyBackspace (eraseNPreviousChars t 1)"
    "edits_to t keyDeleteWord (eraseNPreviousChars t (countToLeftWord t))"
    "edits_to t keyCtrlU (eraseNPreviousChars t (t_pos t))"
proof -
  have p: "t_pos t \<le> length (t_line t)" using assms by (simp add: text_ok_def)
  have "text_ok (eraseNPreviousChars t n)" for n
    using erase_pos [OF p] by (simp add: text_ok_def)
  then show "edits_to t keyBackspace (eraseNPreviousChars t 1)"
    "edits_to t keyDeleteWord (eraseNPreviousChars t (countToLeftWord t))"
    "edits_to t keyCtrlU (eraseNPreviousChars t (t_pos t))"
    using erase_before_after [OF p] erase_word_text [OF assms]
    by (auto simp: edits_to_def edit_def key_defs butlast_conv_take length_before [OF p])
qed

lemma edits_ctrlD:
  assumes "text_ok t" "t_pos t < length (t_line t)"
  shows "edits_to t keyCtrlD (eraseNPreviousChars (t\<lparr>t_pos := t_pos t + 1\<rparr>) 1)"
proof -
  let ?t = "t\<lparr>t_pos := t_pos t + 1\<rparr>"
  have p: "t_pos ?t \<le> length (t_line ?t)" using assms by simp
  have "before (eraseNPreviousChars ?t 1) = before t"
    using erase_before_after(1) [OF p, of 1] by (simp add: before_def)
  moreover have "after (eraseNPreviousChars ?t 1) = tl (after t)"
    using erase_before_after(2) [OF p, of 1] by (simp add: after_def tl_drop drop_Suc)
  ultimately show ?thesis
    using erase_pos [OF p, of 1] by (simp add: edits_to_def edit_def key_defs text_ok_def)
qed

lemma edits_move:
  assumes "text_ok t" "p \<le> length (t_line t)"
    "edit key (before t, after t) = (take p (before t @ after t), drop p (before t @ after t))"
  shows "edits_to t key (moveCursorToPos (t\<lparr>t_pos := p\<rparr>) p)"
  using move_to_text [OF assms(2), of p] assms(3) by (simp add: edits_to_def)

lemma edits_moves:
  assumes "text_ok t"
  shows "t_pos t \<noteq> 0 \<Longrightarrow> edits_to t keyLeft (moveCursorToPos (t\<lparr>t_pos := t_pos t - 1\<rparr>) (t_pos t - 1))"
    "t_pos t \<noteq> length (t_line t) \<Longrightarrow> edits_to t keyRight (moveCursorToPos (t\<lparr>t_pos := t_pos t + 1\<rparr>) (t_pos t + 1))"
    "edits_to t keyHome (moveCursorToPos (t\<lparr>t_pos := 0\<rparr>) 0)"
    "edits_to t keyEnd (moveCursorToPos (t\<lparr>t_pos := length (t_line t)\<rparr>) (length (t_line t)))"
    "edits_to t keyAltLeft (moveCursorToPos (t\<lparr>t_pos := t_pos t - countToLeftWord t\<rparr>) (t_pos t - countToLeftWord t))"
    "edits_to t keyAltRight (moveCursorToPos (t\<lparr>t_pos := t_pos t + countToRightWord t\<rparr>) (t_pos t + countToRightWord t))"
proof -
  have p: "t_pos t \<le> length (t_line t)" using assms by (simp add: text_ok_def)
  note lb = length_before [OF p]
  show "edits_to t keyLeft (moveCursorToPos (t\<lparr>t_pos := t_pos t - 1\<rparr>) (t_pos t - 1))" if "t_pos t \<noteq> 0"
  proof (rule edits_move [OF assms])
    have "before t \<noteq> []" using that lb by auto
    then obtain xs x where xs: "before t = xs @ [x]" by (cases "before t" rule: rev_cases) auto
    then have "t_pos t - 1 = length xs" using lb by simp
    with xs show "edit keyLeft (before t, after t)
        = (take (t_pos t - 1) (before t @ after t), drop (t_pos t - 1) (before t @ after t))"
      by (simp add: edit_def key_defs)
  qed (use p in simp)
  show "edits_to t keyRight (moveCursorToPos (t\<lparr>t_pos := t_pos t + 1\<rparr>) (t_pos t + 1))"
    if "t_pos t \<noteq> length (t_line t)"
  proof (rule edits_move [OF assms])
    from that p obtain x r where "after t = x # r" by (cases "after t") (auto simp: after_def)
    then show "edit keyRight (before t, after t)
        = (take (t_pos t + 1) (before t @ after t), drop (t_pos t + 1) (before t @ after t))"
      by (simp add: edit_def key_defs lb)
  qed (use p that in simp)
  show "edits_to t keyHome (moveCursorToPos (t\<lparr>t_pos := 0\<rparr>) 0)"
    by (rule edits_move [OF assms]) (simp_all add: edit_def key_defs)
  show "edits_to t keyEnd (moveCursorToPos (t\<lparr>t_pos := length (t_line t)\<rparr>) (length (t_line t)))"
    using length_before_after [OF p]
    by (intro edits_move [OF assms]) (simp_all add: edit_def key_defs)
  let ?w = "without_last_word (before t)"
  have w: "t_pos t - countToLeftWord t = length ?w" "?w = take (length ?w) (before t @ after t)"
    using countToLeftWord_eq [OF p] line_split [of t] by simp_all
  show "edits_to t keyAltLeft (moveCursorToPos (t\<lparr>t_pos := t_pos t - countToLeftWord t\<rparr>) (t_pos t - countToLeftWord t))"
  proof (rule edits_move [OF assms])
    have "length ?w \<le> length (before t)" using w(1) lb by simp
    then show "edit keyAltLeft (before t, after t) = (take (t_pos t - countToLeftWord t) (before t @ after t),
        drop (t_pos t - countToLeftWord t) (before t @ after t))"
      using w by (simp add: edit_def key_defs Let_def)
  qed (use p in simp)
  show "edits_to t keyAltRight (moveCursorToPos (t\<lparr>t_pos := t_pos t + countToRightWord t\<rparr>) (t_pos t + countToRightWord t))"
  proof (rule edits_move [OF assms])
    show "t_pos t + countToRightWord t \<le> length (t_line t)"
      using countToRightWord_le [of t] length_before_after [OF p] lb by simp
    show "edit keyAltRight (before t, after t) = (take (t_pos t + countToRightWord t) (before t @ after t),
        drop (t_pos t + countToRightWord t) (before t @ after t))"
      using right_word_split [where P = "\<lambda>x. x \<noteq> 32" and Q = "\<lambda>x. x = 32" and r = "after t"]
      by (simp add: edit_def key_defs Let_def lb countToRightWord_eq)
  qed
qed

lemma edits_delete_line:
  assumes "text_ok t"
  shows "edits_to t keyDeleteLine (moveCursorToPos (((\<lambda>u. advanceCursor (queue u space) 1) ^^ n) t
    \<lparr>t_line := take (t_pos t) (t_line t)\<rparr>) (t_pos t))"
  using assms by (simp add: edits_to_def edit_def key_defs before_def after_def text_ok_def)

lemma edits_default:
  assumes "text_ok t" "key \<notin> set edit_keys"
  shows "edits_to t key (insertPrintable t key)"
proof -
  have p: "t_pos t \<le> length (t_line t)" using assms by (simp add: text_ok_def)
  from assms(2) have "edit key (before t, after t) = (if isPrintable key \<and> length (t_line t) \<noteq> maxLineLength
      then (before t @ [key], after t) else (before t, after t))"
    using length_before_after [OF p] by (simp add: edit_def edit_keys_def)
  moreover have "before (addKeyToLine t key) = before t @ [key]" "after (addKeyToLine t key) = after t"
    "text_ok (addKeyToLine t key)"
    using p by (simp_all add: before_def after_def text_ok_def)
  ultimately show ?thesis using assms(1) by (simp add: edits_to_def insertPrintable_def)
qed

lemma edits_nothing:
  assumes "text_ok t"
  shows "t_pos t = 0 \<Longrightarrow> edits_to t keyBackspace t" "t_pos t = 0 \<Longrightarrow> edits_to t keyLeft t"
    "t_pos t = 0 \<Longrightarrow> edits_to t keyHome t"
    "t_pos t = length (t_line t) \<Longrightarrow> edits_to t keyRight t" "t_pos t = length (t_line t) \<Longrightarrow> edits_to t keyEnd t"
    "\<not> t_pos t < length (t_line t) \<Longrightarrow> edits_to t keyCtrlD t"
  using assms by (simp_all add: edits_to_def edit_def key_defs before_def after_def text_ok_def)

lemma edit_key_cases:
  assumes "key \<in> set edit_keys"
  obtains "key = keyBackspace" | "key = keyLeft" | "key = keyRight" | "key = keyHome" | "key = keyEnd"
    | "key = keyAltLeft" | "key = keyAltRight" | "key = keyDeleteWord" | "key = keyDeleteLine"
    | "key = keyCtrlD" | "key = keyCtrlU"
  using assms unfolding edit_keys_def by auto

lemma handleKey_edit_keys:
  assumes "text_ok t" "\<not> t_pasteActive t" "key \<in> set edit_keys"
  shows "\<exists>t'. handleKey cb t key = Ret (([], False), t') \<and> edits_to t key t'"
  using assms(3)
proof (cases rule: edit_key_cases)
  case 1
  then show ?thesis using assms edits_erase(1) [OF assms(1)] edits_nothing(1) [OF assms(1)]
    by (simp add: handleKey_def key_defs)
next
  case 2
  then show ?thesis using assms edits_moves(1) [OF assms(1)] edits_nothing(2) [OF assms(1)]
    by (simp add: handleKey_def key_defs)
next
  case 3
  then show ?thesis using assms edits_moves(2) [OF assms(1)] edits_nothing(4) [OF assms(1)]
    by (simp add: handleKey_def key_defs)
next
  case 4
  then show ?thesis using assms edits_moves(3) [OF assms(1)] edits_nothing(3) [OF assms(1)]
    by (simp add: handleKey_def key_defs)
next
  case 5
  then show ?thesis using assms edits_moves(4) [OF assms(1)] edits_nothing(5) [OF assms(1)]
    by (simp add: handleKey_def key_defs)
next
  case 6
  then show ?thesis using assms edits_moves(5) [OF assms(1)] by (simp add: handleKey_def key_defs)
next
  case 7
  then show ?thesis using assms edits_moves(6) [OF assms(1)] by (simp add: handleKey_def key_defs)
next
  case 8
  then show ?thesis using assms edits_erase(2) [OF assms(1)] by (simp add: handleKey_def key_defs)
next
  case 9
  then show ?thesis using assms edits_delete_line [OF assms(1), of "length (t_line t) - t_pos t"]
    by (simp add: handleKey_def key_defs Let_def)
next
  case 10
  then show ?thesis using assms edits_ctrlD [OF assms(1)] edits_nothing(6) [OF assms(1)]
    by (simp add: handleKey_def key_defs)
next
  case 11
  then show ?thesis using assms edits_erase(3) [OF assms(1)] by (simp add: handleKey_def key_defs)
qed

lemma handleKey_default:
  assumes "\<not> t_pasteActive t" "key \<notin> set edit_keys" "key \<notin> set other_keys"
  shows "handleKey None t key = Ret (([], False), insertPrintable t key)"
  using assms by (simp add: handleKey_def handleDefault_def edit_keys_def other_keys_def Let_def)


definition example_term :: "unit Terminal" where
  "example_term = (NewTerminal () ''Opt> '')\<lparr>t_line := [108, 115, 32, 97, 98], t_pos := 5, cursorX := 10\<rparr>"


section \<open>Colours take no room\<close>

lemma visual_length_append:
  "visual_length e (a @ b) = visual_length e a + visual_length (fold (\<lambda>r e. if e then \<not> ((97 \<le> r \<and> r \<le> 122) \<or> (65 \<le> r \<and> r \<le> 90)) else r = keyEscape) a e) b"
  by (induction e a rule: visual_length.induct) auto

text \<open>A prompt or line in colour is as long as the text without the codes.\<close>

theorem colours_take_no_room:
  assumes "code \<in> set (map (\<lambda>f. f vt100EscapeCodes) [esc_Black, esc_Red, esc_Green, esc_Yellow, esc_Blue, esc_Magenta, esc_Cyan, esc_White])"
  shows "visualLength (code @ s @ esc_Reset vt100EscapeCodes) = visualLength s"
proof -
  have "visual_length e (esc_Reset vt100EscapeCodes) = 0" for e
    by (cases e) (simp_all add: vt100EscapeCodes_def key_defs)
  moreover have "visual_length False (code @ t) = visual_length False t" for t
    using assms by (auto simp: vt100EscapeCodes_def colour_code_def key_defs)
  ultimately show ?thesis by (simp add: visualLength_def visual_length_append)
qed

end
