(* ===== verification/TerminalScreen.thy ===== *)
theory TerminalScreen
  imports TerminalProps
begin

text \<open>
  The cursor of the line editor and the cursor of the terminal it talks to: an interpreter of
  the cursor movements of a VT100, and the invariant that the editor's cursor coordinates are
  those of the position in the line.
\<close>

section \<open>A VT100 cursor\<close>

definition is_digit :: "char \<Rightarrow> bool" where
  "is_digit c \<longleftrightarrow> digit_val c \<noteq> None"

definition vt_apply :: "nat \<Rightarrow> char \<Rightarrow> int \<times> int \<Rightarrow> int \<times> int" where
  "vt_apply n d = (\<lambda>(x, y).
     if d = CHR ''A'' then (x, y - int n)
     else if d = CHR ''B'' then (x, y + int n)
     else if d = CHR ''C'' then (x + int n, y)
     else (x - int n, y))"

text \<open>
  \<open>vt100 out (x, y)\<close> is where the cursor is after the movements in \<open>out\<close>: \<^verbatim>\<open>ESC [ n A\<close> up, \<^verbatim>\<open>B\<close> down,
  \<^verbatim>\<open>C\<close> right, \<^verbatim>\<open>D\<close> left, by one when \<^verbatim>\<open>n\<close> is missing; anything else is \<open>None\<close>.
\<close>

function vt100 :: "string \<Rightarrow> int \<times> int \<Rightarrow> (int \<times> int) option" where
  "vt100 out p =
     (if out = [] then Some p
      else if take 2 out = [ESC, CHR ''[''] then
        (let ds = takeWhile is_digit (drop 2 out); r = dropWhile is_digit (drop 2 out);
             n = (if ds = [] then 1 else the (parse_nat ds))
         in if r \<noteq> [] \<and> hd r \<in> set ''ABCD'' then vt100 (tl r) (vt_apply n (hd r) p) else None)
      else None)"
  by pat_completeness auto
termination
proof (relation "measure (\<lambda>(out, p). length out)")
  fix out :: string and ds r n and p :: "int \<times> int"
  assume "out \<noteq> []" "r = dropWhile is_digit (drop 2 out)" "r \<noteq> [] \<and> hd r \<in> set ''ABCD''"
  then show "((tl r, vt_apply n (hd r) p), (out, p)) \<in> measure (\<lambda>(out, p). length out)"
    using length_dropWhile_le [of is_digit "drop 2 out"] by (cases out) (auto simp: less_Suc_eq_le)
qed simp

declare vt100.simps [simp del]

lemma vt100_Nil [simp]: "vt100 [] p = Some p"
  by (simp add: vt100.simps)

lemma nat_digits_is_digit: "c \<in> set (nat_digits n) \<Longrightarrow> is_digit c"
  using nat_digits_chars digit_val_digit_char by (fastforce simp: is_digit_def)

lemma not_digit: "c \<in> set ''ABCD'' \<Longrightarrow> \<not> is_digit c"
  by (auto simp: is_digit_def digit_val_def less_eq_char_def)

lemma vt100_one:
  assumes "c \<in> set ''ABCD''"
  shows "vt100 (ESC # CHR ''['' # c # rest) p = vt100 rest (vt_apply 1 c p)"
  using assms not_digit [OF assms] by (subst vt100.simps) (simp add: Let_def)

lemma vt100_many:
  assumes "c \<in> set ''ABCD''"
  shows "vt100 (ESC # CHR ''['' # nat_digits n @ c # rest) p = vt100 rest (vt_apply n c p)"
proof -
  have "takeWhile is_digit (nat_digits n @ c # rest) = nat_digits n"
    "dropWhile is_digit (nat_digits n @ c # rest) = c # rest"
    using nat_digits_is_digit [of _ n] not_digit [OF assms] by (simp_all add: takeWhile_append dropWhile_append)
  with assms show ?thesis
    by (subst vt100.simps) (simp add: Let_def parse_nat_def digits_val_nat_digits)
qed

lemma string_of_runes_bytes: "list_all (\<lambda>r. r < 128) rs \<Longrightarrow> string_of_runes rs = map char_of rs"
  by (induction rs) (auto simp: string_of_runes_def EncodeRune_ascii)

lemma nat_digits_ascii: "c \<in> set (nat_digits n) \<Longrightarrow> byte_of c < 128"
  using nat_digits_chars by (fastforce simp: digit_char_def)

lemma move_part_string:
  assumes "d < 128"
  shows "string_of_runes (move_part n d) =
    (if n = 0 then [] else if n = 1 then [ESC, CHR ''['', char_of d]
     else ESC # CHR ''['' # nat_digits n @ [char_of d])"
proof -
  have "char_of (91 :: nat) = CHR ''[''" by code_simp
  moreover have "list_all (\<lambda>r. r < 128) (map byte_of (nat_digits n))"
    using nat_digits_ascii by (auto simp: list_all_iff)
  ultimately show ?thesis
    using assms by (auto simp: move_part_def string_of_runes_bytes keyEscape_def ESC_def Itoa_def comp_def)
qed

lemma letters:
  "char_of (65 :: nat) = CHR ''A''" "char_of (66 :: nat) = CHR ''B''" "char_of (67 :: nat) = CHR ''C''"
  "char_of (68 :: nat) = CHR ''D''"
  by code_simp+

lemma vt100_move_part:
  assumes "d \<in> {65, 66, 67, 68}"
  shows "vt100 (string_of_runes (move_part n d) @ rest) p = vt100 rest (vt_apply n (char_of d) p)"
proof -
  have c: "char_of d \<in> set ''ABCD''" using assms letters by auto
  have z: "vt_apply 0 (char_of d) p = p" by (cases p) (simp add: vt_apply_def)
  from assms have "d < 128" by auto
  then show ?thesis
    using vt100_one [OF c] vt100_many [OF c, of n] z by (simp add: move_part_string)
qed

lemma vt100_moves:
  "vt100 (string_of_runes (move_part up 65 @ move_part down 66 @ move_part right 67 @ move_part left 68)) (x, y)
   = Some (x + int right - int left, y - int up + int down)"
proof -
  have "vt100 (string_of_runes (move_part left 68)) q = Some (vt_apply left (CHR ''D'') q)" for q
    using vt100_move_part [of 68 left "[]" q] letters by simp
  then show ?thesis by (simp add: vt100_move_part letters vt_apply_def)
qed

text \<open>
  C27: the cursor movements the editor sends are right.  Moving to a position in the line appends
  movements to the output that take a VT100 cursor from the editor's old coordinates to its new
  ones, and the new ones are the row and column of that position behind the prompt.
\<close>

theorem moveCursor_vt100:
  assumes "t_echo t" "0 < termWidth t"
  shows "\<exists>out t'. t' = moveCursorToPos t p \<and> outBuf t' = outBuf t @ out
    \<and> vt100 out (int (cursorX t), int (cursorY t)) = Some (int (cursorX t'), int (cursorY t'))
    \<and> cursorX t' < termWidth t
    \<and> cursorY t' * termWidth t + cursorX t' = visualLength (t_prompt t) + p"
proof -
  let ?x = "(visualLength (t_prompt t) + p) mod termWidth t"
  let ?y = "(visualLength (t_prompt t) + p) div termWidth t"
  let ?up = "if ?y < cursorY t then cursorY t - ?y else 0"
  let ?down = "if ?y > cursorY t then ?y - cursorY t else 0"
  let ?left = "if ?x < cursorX t then cursorX t - ?x else 0"
  let ?right = "if ?x > cursorX t then ?x - cursorX t else 0"
  let ?out = "string_of_runes (move_part ?up 65 @ move_part ?down 66 @ move_part ?right 67 @ move_part ?left 68)"
  have t': "moveCursorToPos t p = t\<lparr>cursorX := ?x, cursorY := ?y, outBuf := outBuf t @ ?out\<rparr>"
    using assms by (simp add: moveCursorToPos_def move_def queue_def Let_def)
  have "vt100 ?out (int (cursorX t), int (cursorY t))
      = Some (int (cursorX t) + int ?right - int ?left, int (cursorY t) - int ?up + int ?down)"
    by (rule vt100_moves)
  then have "vt100 ?out (int (cursorX t), int (cursorY t)) = Some (int ?x, int ?y)"
    by simp
  then show ?thesis using t' assms(2) by (intro exI [of _ ?out] exI [of _ "moveCursorToPos t p"]) simp
qed

theorem moveCursor_vt100_witness:
  "\<exists>out t'. t' = moveCursorToPos example_term 2 \<and> outBuf t' = outBuf example_term @ out
    \<and> vt100 out (10, 0) = Some (7, 0)"
proof -
  have e: "t_echo example_term" "0 < termWidth example_term" "cursorX example_term = 10" "cursorY example_term = 0"
    "termWidth example_term = 80" by (simp_all add: example_term_def NewTerminal_def)
  have "visualLength (t_prompt example_term) = 5" by code_simp
  with moveCursor_vt100 [OF e(1,2), of 2] e obtain out t' where
    t': "t' = moveCursorToPos example_term 2" "outBuf t' = outBuf example_term @ out"
      "vt100 out (10, 0) = Some (int (cursorX t'), int (cursorY t'))" "cursorY t' * 80 + cursorX t' = 7"
    by auto
  from t'(4) have "cursorY t' = 0" "cursorX t' = 7" by presburger+
  with t' show ?thesis by auto
qed

section \<open>The cursor follows the position\<close>

definition synced :: "'w Terminal \<Rightarrow> bool" where
  "synced t \<longleftrightarrow> cursorX t < termWidth t
     \<and> cursorY t * termWidth t + cursorX t = visualLength (t_prompt t) + t_pos t"

lemma synced_moveCursor:
  "t_echo t \<Longrightarrow> 0 < termWidth t \<Longrightarrow> p = t_pos t \<Longrightarrow> synced (moveCursorToPos t p)"
  by (simp add: synced_def moveCursorToPos_def move_def queue_def Let_def)

lemma synced_erase:
  "t_echo t \<Longrightarrow> 0 < termWidth t \<Longrightarrow> n \<noteq> 0 \<Longrightarrow> synced (eraseNPreviousChars t n)"
  by (auto simp: eraseNPreviousChars_def Let_def intro!: synced_moveCursor)

lemma synced_add: "t_echo t \<Longrightarrow> 0 < termWidth t \<Longrightarrow> synced (addKeyToLine t key)"
  by (auto simp: addKeyToLine_def Let_def intro!: synced_moveCursor)

lemma synced_setLine: "t_echo t \<Longrightarrow> 0 < termWidth t \<Longrightarrow> synced (setLine t l p)"
proof -
  assume e: "t_echo t" "0 < termWidth t"
  let ?u = "((\<lambda>u. writeLine u space) ^^ (length (t_line t) - length l)) (writeLine (moveCursorToPos t 0) l)"
  have "synced ((moveCursorToPos ?u p)\<lparr>t_line := l, t_pos := p\<rparr>)"
    using synced_moveCursor [of "?u\<lparr>t_pos := p\<rparr>" p] e
    by (simp add: synced_def moveCursorToPos_def move_def queue_def Let_def)
  with e show ?thesis by (simp add: setLine_def Let_def)
qed

lemma synced_width: "synced t \<Longrightarrow> 0 < termWidth t"
  by (auto simp: synced_def)

lemma synced_erase_any:
  "t_echo t \<Longrightarrow> 0 < termWidth t \<Longrightarrow> (n = 0 \<Longrightarrow> synced t) \<Longrightarrow> synced (eraseNPreviousChars t n)"
  using synced_erase [of t n] by (cases "n = 0") (simp_all add: eraseNPreviousChars_def)

lemma synced_index: "synced (t\<lparr>historyIndex := i\<rparr>) \<longleftrightarrow> synced t"
  by (simp add: synced_def)

lemma synced_default:
  assumes "t_echo t" "synced t"
  shows "synced (insertPrintable t key)" "synced (historyUp t)" "synced (historyDown t)"
proof -
  note w = synced_width [OF assms(2)]
  show "synced (insertPrintable t key)"
    using assms w by (simp add: insertPrintable_def synced_add)
  have "synced (setLine (t\<lparr>historyPending := s, historyIndex := i\<rparr>) l p)"
    "synced (setLine (t\<lparr>historyIndex := i\<rparr>) l p)" "synced ((setLine t l p)\<lparr>historyIndex := i\<rparr>)" for s i l p
    using assms(1) w by (simp_all add: synced_setLine synced_index)
  with assms show "synced (historyUp t)" "synced (historyDown t)"
    by (auto simp: historyUp_def historyDown_def Let_def split: option.splits)
qed

lemma synced_keys:
  assumes "t_echo t" "synced t" "key \<in> set edit_keys" "\<not> t_pasteActive t"
    "handleKey None t key = Ret (r, t')"
  shows "synced t'"
  using assms(3) synced_width [OF assms(2)] assms
  by (cases rule: edit_key_cases)
     (auto simp: handleKey_def key_defs Let_def intro!: synced_moveCursor synced_erase_any split: if_splits)

text \<open>
  C28: with echo on, the editor's cursor never gets out of step: if its coordinates are those of the
  position in the line, they are so after every key but enter and the interrupt key (which start a new
  line), in and out of a paste, also for the history and the redraw keys.
\<close>

theorem handleKey_cursor_synced:
  assumes "t_echo t" "synced t" "key \<noteq> keyEnter" "key \<noteq> keyCtrlC" "handleKey None t key = Ret (r, t')"
  shows "synced t'"
proof (cases "t_pasteActive t")
  case True
  with assms show ?thesis using synced_width [OF assms(2)] by (auto simp: handleKey_def Let_def synced_add)
next
  case False
  consider "key \<in> set edit_keys" | "key \<in> set other_keys" | "key \<notin> set edit_keys" "key \<notin> set other_keys" by blast
  then show ?thesis
  proof cases
    case 1
    with assms False show ?thesis using synced_keys by blast
  next
    case 2
    with assms(3,4) have "key = keyUp \<or> key = keyDown \<or> key = keyClearScreen" by (auto simp: other_keys_def)
    with assms False synced_default [OF assms(1,2)] synced_width [OF assms(2)] show ?thesis
      by (auto simp: handleKey_def key_defs Let_def intro!: synced_setLine)
  next
    case 3
    with assms False synced_default(1) [OF assms(1,2)] show ?thesis by (auto simp: handleKey_default)
  qed
qed

theorem handleKey_cursor_synced_witness:
  "synced example_term \<and> (\<exists>r t'. handleKey None example_term keyLeft = Ret (r, t') \<and> synced t')"
proof -
  have "visualLength (t_prompt example_term) = 5" by code_simp
  then have s: "synced example_term" "t_echo example_term"
    by (simp_all add: synced_def example_term_def NewTerminal_def)
  obtain r t' where "handleKey None example_term keyLeft = Ret (r, t')"
    using handleKey_edit_keys [of example_term keyLeft None]
    by (auto simp: text_ok_def edit_keys_def example_term_def NewTerminal_def)
  with handleKey_cursor_synced [OF s(2,1), of keyLeft r t'] s show ?thesis by (auto simp: key_defs)
qed

end
