(* ===== verification/SshSession.thy ===== *)
theory SshSession
  imports Prelude "HOL-Library.Word"
begin

text \<open>
  The SSH server library of the repository, first part: the wire format of terminal requests
  (\<^verbatim>\<open>pkg/ssh/util.go\<close>) and the session with its request loop (\<^verbatim>\<open>pkg/ssh/session.go\<close>).  Lengths on the
  wire are 32-bit words; the comparison that guards the slices wraps as it does in Go.
\<close>

section \<open>Wire format\<close>

definition Uint32 :: "string \<Rightarrow> 32 word" where
  "Uint32 b = of_nat (of_char (b ! 0) * 2 ^ 24 + of_char (b ! 1) * 2 ^ 16 + of_char (b ! 2) * 2 ^ 8 + of_char (b ! 3))"

record Window =
  Width :: int
  Height :: int

record Pty =
  Term :: string
  Pty_Window :: Window

text \<open>\<^verbatim>\<open>parseString\<close>: \<open>Ret None\<close> is \<^verbatim>\<open>ok = false\<close>.\<close>

definition parseString :: "string \<Rightarrow> (string \<times> string) option outcome" where
  "parseString s =
     (if length s < 4 then Ret None
      else
        (let len = Uint32 s
         in if (of_nat (length s) :: 32 word) < 4 + len then Ret None
            else if unat (4 + len) < 4 then Panic SliceBounds
            else Ret (Some (take (unat (4 + len) - 4) (drop 4 s), drop (unat (4 + len)) s))))"

definition parseUint32 :: "string \<Rightarrow> (32 word \<times> string) option" where
  "parseUint32 s = (if length s < 4 then None else Some (Uint32 s, drop 4 s))"

definition parsePtyRequest :: "string \<Rightarrow> Pty option outcome" where
  "parsePtyRequest s =
     outcome_bind (parseString s) (\<lambda>r.
       case r of
         None \<Rightarrow> Ret None
       | Some (term, s) \<Rightarrow>
           (case parseUint32 s of
              None \<Rightarrow> Ret None
            | Some (width32, s) \<Rightarrow>
                (case parseUint32 s of
                   None \<Rightarrow> Ret None
                 | Some (height32, _) \<Rightarrow>
                     Ret (Some \<lparr>Term = term,
                       Pty_Window = \<lparr>Width = uint width32, Height = uint height32\<rparr>\<rparr>))))"

definition parseWinchRequest :: "string \<Rightarrow> Window option" where
  "parseWinchRequest s =
     (case parseUint32 s of
        None \<Rightarrow> None
      | Some (width32, s) \<Rightarrow>
          if width32 < 1 then None
          else
            (case parseUint32 s of
               None \<Rightarrow> None
             | Some (height32, _) \<Rightarrow>
                 if height32 < 1 then None else Some \<lparr>Width = uint width32, Height = uint height32\<rparr>))"

section \<open>Sessions\<close>

text \<open>
  The state of a session.  A registered signal or break channel is the list of what has been sent on
  it so far; \<open>winch\<close> is the list of window sizes sent, once a terminal is granted.
\<close>

record ssh_session =
  handled :: bool
  exited :: bool
  sess_pty :: "Pty option"
  winch :: "Window list"
  sess_env :: "string list"
  rawCmd :: string
  sess_subsystem :: string
  sigCh :: "string list option"
  sigBuf :: "string list"
  breakCh :: "bool list option"
  agentRequested :: bool

definition new_session :: ssh_session where
  "new_session = \<lparr>handled = False, exited = False, sess_pty = None, winch = [], sess_env = [], rawCmd = [],
     sess_subsystem = [], sigCh = None, sigBuf = [], breakCh = None, agentRequested = False\<rparr>"

text \<open>
  What the session gets from the server and from the SSH library: the payload decoders, the policy
  callbacks (\<open>None\<close> when not set) and the names of the registered subsystem handlers.
\<close>

record session_params =
  unmarshal_Value :: "string \<Rightarrow> string"
  unmarshal_KeyValue :: "string \<Rightarrow> string \<times> string"
  sessReqCb :: "(ssh_session \<Rightarrow> string \<Rightarrow> bool) option"
  ptyCb :: "(Pty \<Rightarrow> bool) option"
  subsystemHandlers :: "string \<Rightarrow> bool"

definition maxSigBufSize :: nat where "maxSigBufSize = 128"

definition agentRequestType :: string where "agentRequestType = ''auth-agent-req@openssh.com''"

record ssh_request =
  req_Type :: string
  req_Payload :: string

text \<open>The handler goroutine that a request starts.\<close>

datatype started = Nothing | Handler | SubsystemHandler string

definition denied :: "session_params \<Rightarrow> ssh_session \<Rightarrow> string \<Rightarrow> bool" where
  "denied P s tp = (case sessReqCb P of None \<Rightarrow> False | Some cb \<Rightarrow> \<not> cb s tp)"

definition find_subsystem :: "session_params \<Rightarrow> string \<Rightarrow> string option" where
  "find_subsystem P v =
     (if subsystemHandlers P v then Some v
      else if subsystemHandlers P ''default'' then Some ''default'' else None)"

text \<open>One round of \<^verbatim>\<open>handleRequests\<close>: the new state, the reply (\<open>None\<close>: no reply), the handler started.\<close>

definition handleRequest ::
  "session_params \<Rightarrow> ssh_session \<Rightarrow> ssh_request \<Rightarrow> (ssh_session \<times> bool option \<times> started) outcome" where
  "handleRequest P s req =
     (let tp = req_Type req; reject = (\<lambda>s. Ret (s, Some False, Nothing)) in
      if tp = ''shell'' \<or> tp = ''exec'' then
        (if handled s then reject s
         else
           (let s = s\<lparr>rawCmd := unmarshal_Value P (req_Payload req)\<rparr>
            in if denied P s tp then reject (s\<lparr>rawCmd := []\<rparr>)
               else Ret (s\<lparr>handled := True\<rparr>, Some True, Handler)))
      else if tp = ''subsystem'' then
        (if handled s then reject s
         else
           (let v = unmarshal_Value P (req_Payload req); s = s\<lparr>sess_subsystem := v\<rparr>
            in if denied P s tp then reject (s\<lparr>rawCmd := []\<rparr>)
               else (case find_subsystem P v of
                       None \<Rightarrow> reject s
                     | Some h \<Rightarrow> Ret (s\<lparr>handled := True\<rparr>, Some True, SubsystemHandler h))))
      else if tp = ''env'' then
        (if handled s then reject s
         else
           (let (k, v) = unmarshal_KeyValue P (req_Payload req)
            in Ret (s\<lparr>sess_env := sess_env s @ [k @ ''='' @ v]\<rparr>, Some True, Nothing)))
      else if tp = ''signal'' then
        (let sig = unmarshal_Value P (req_Payload req)
         in Ret (case sigCh s of
                   Some sent \<Rightarrow> s\<lparr>sigCh := Some (sent @ [sig])\<rparr>
                 | None \<Rightarrow> if length (sigBuf s) < maxSigBufSize then s\<lparr>sigBuf := sigBuf s @ [sig]\<rparr> else s,
                 None, Nothing))
      else if tp = ''pty-req'' then
        (if handled s \<or> sess_pty s \<noteq> None then reject s
         else outcome_bind (parsePtyRequest (req_Payload req)) (\<lambda>r.
           case r of
             None \<Rightarrow> reject s
           | Some ptyReq \<Rightarrow>
               if (case ptyCb P of None \<Rightarrow> False | Some cb \<Rightarrow> \<not> cb ptyReq) then reject s
               else Ret (s\<lparr>sess_pty := Some ptyReq, winch := [Pty_Window ptyReq]\<rparr>, Some True, Nothing)))
      else if tp = ''window-change'' then
        (case sess_pty s of
           None \<Rightarrow> reject s
         | Some p \<Rightarrow>
             (case parseWinchRequest (req_Payload req) of
                Some win \<Rightarrow> Ret (s\<lparr>sess_pty := Some (p\<lparr>Pty_Window := win\<rparr>), winch := winch s @ [win]\<rparr>,
                  Some True, Nothing)
              | None \<Rightarrow> reject s))
      else if tp = agentRequestType then Ret (s\<lparr>agentRequested := True\<rparr>, Some True, Nothing)
      else if tp = ''break'' then
        (case breakCh s of
           Some sent \<Rightarrow> Ret (s\<lparr>breakCh := Some (sent @ [True])\<rparr>, Some True, Nothing)
         | None \<Rightarrow> reject s)
      else reject s)"

fun handleRequests :: "session_params \<Rightarrow> ssh_session \<Rightarrow> ssh_request list \<Rightarrow> (ssh_session \<times> started list) outcome" where
  "handleRequests P s [] = Ret (s, [])"
| "handleRequests P s (req # reqs) =
     outcome_bind (handleRequest P s req) (\<lambda>(s', reply, st).
       outcome_bind (handleRequests P s' reqs) (\<lambda>(s'', sts). Ret (s'', st # sts)))"

text \<open>
  \<^verbatim>\<open>Exit\<close>: \<open>sent\<close> is the error of sending the exit status and \<open>closed\<close> that of closing the
  channel; the second result tells whether the status was sent.
\<close>

definition Exit :: "ssh_session \<Rightarrow> goerror option \<Rightarrow> goerror option \<Rightarrow> goerror option \<times> bool \<times> ssh_session" where
  "Exit s sent closed =
     (if exited s then (Some ''Session.Exit called multiple times'', False, s)
      else (case sent of
              Some err \<Rightarrow> (Some err, True, s\<lparr>exited := True\<rparr>)
            | None \<Rightarrow> (closed, True, s\<lparr>exited := True\<rparr>)))"

definition Environ :: "ssh_session \<Rightarrow> string list" where
  "Environ s = sess_env s"

definition RawCommand :: "ssh_session \<Rightarrow> string" where
  "RawCommand s = rawCmd s"

definition Command :: "(string \<Rightarrow> string list) \<Rightarrow> ssh_session \<Rightarrow> string list" where
  "Command shlex_Split s = shlex_Split (rawCmd s)"

definition Subsystem :: "ssh_session \<Rightarrow> string" where
  "Subsystem s = sess_subsystem s"

definition zero_Pty :: Pty where
  "zero_Pty = \<lparr>Term = [], Pty_Window = \<lparr>Width = 0, Height = 0\<rparr>\<rparr>"

definition session_Pty :: "ssh_session \<Rightarrow> Pty \<times> Window list \<times> bool" where
  "session_Pty s = (case sess_pty s of Some p \<Rightarrow> (p, winch s, True) | None \<Rightarrow> (zero_Pty, winch s, False))"

text \<open>\<^verbatim>\<open>Signals\<close> registers a channel and has the buffered signals sent on it; the buffer is not emptied.\<close>

definition Signals :: "ssh_session \<Rightarrow> bool \<Rightarrow> ssh_session" where
  "Signals s reg = (if reg then s\<lparr>sigCh := Some (sigBuf s)\<rparr> else s\<lparr>sigCh := None\<rparr>)"

definition Break :: "ssh_session \<Rightarrow> bool \<Rightarrow> ssh_session" where
  "Break s reg = s\<lparr>breakCh := (if reg then Some [] else None)\<rparr>"

section \<open>Terminal requests on the wire\<close>

definition enc32 :: "nat \<Rightarrow> string" where
  "enc32 n = [char_of (n div 2 ^ 24 mod 256), char_of (n div 2 ^ 16 mod 256), char_of (n div 2 ^ 8 mod 256),
     char_of (n mod 256)]"

lemma length_enc32 [simp]: "length (enc32 n) = 4"
  by (simp add: enc32_def)

lemma Uint32_sum:
  "(n :: nat) = b * 256 + d \<Longrightarrow> b = c * 256 + e \<Longrightarrow> c = f * 256 + g
    \<Longrightarrow> f * 2 ^ 24 + g * 2 ^ 16 + e * 2 ^ 8 + d = n"
  by simp

lemma Uint32_enc32: "n < 2 ^ 32 \<Longrightarrow> Uint32 (enc32 n @ r) = of_nat n"
proof -
  assume n: "n < 2 ^ 32"
  have "n div 2 ^ 24 mod 256 * 2 ^ 24 + n div 2 ^ 16 mod 256 * 2 ^ 16 + n div 2 ^ 8 mod 256 * 2 ^ 8 + n mod 256 = n"
  proof -
    have "n div 2 ^ 24 mod 256 = n div 2 ^ 24" using n by simp
    moreover have "n div 2 ^ 16 = (n div 2 ^ 24) * 256 + n div 2 ^ 16 mod 256"
      using div_mult_mod_eq [of "n div 2 ^ 16" 256] by (simp flip: div_mult2_eq)
    moreover have "n div 2 ^ 8 = (n div 2 ^ 16) * 256 + n div 2 ^ 8 mod 256"
      using div_mult_mod_eq [of "n div 2 ^ 8" 256] by (simp flip: div_mult2_eq)
    moreover have "n = (n div 2 ^ 8) * 256 + n mod 256"
      using div_mult_mod_eq [of n 256] by simp
    ultimately show ?thesis by (metis Uint32_sum)
  qed
  then show ?thesis
    by (simp add: Uint32_def enc32_def del: of_nat_add of_nat_mult of_nat_numeral mod_less)
qed

lemma unat_add_small: "unat (a :: 32 word) + b < 2 ^ 32 \<Longrightarrow> unat (of_nat b + a) = unat a + b"
  by (simp add: unat_word_ariths unat_of_nat)

lemma parseString_enc:
  assumes "length term + length rest < 2 ^ 32 - 4"
  shows "parseString (enc32 (length term) @ term @ rest) = Ret (Some (term, rest))"
proof -
  have len: "Uint32 (enc32 (length term) @ term @ rest) = of_nat (length term)"
    using assms by (intro Uint32_enc32) simp
  have u: "unat (4 + of_nat (length term) :: 32 word) = 4 + length term"
    using assms by (simp add: unat_word_ariths unat_of_nat)
  have "unat (of_nat (4 + (length term + length rest)) :: 32 word) = 4 + (length term + length rest)"
    using assms by (simp add: unat_of_nat del: of_nat_add)
  then have "\<not> (of_nat (length (enc32 (length term) @ term @ rest)) :: 32 word) < 4 + of_nat (length term)"
    using u by (simp add: word_less_nat_alt del: of_nat_add)
  with u show ?thesis by (simp add: parseString_def len Let_def del: of_nat_add)
qed

lemma parseUint32_enc: "n < 2 ^ 32 \<Longrightarrow> parseUint32 (enc32 n @ rest) = Some (of_nat n, rest)"
  by (simp add: parseUint32_def Uint32_enc32)

text \<open>
  A terminal request in the format of RFC 4254 is understood: from the encoding of a terminal
  name, a width and a height, followed by anything, the parser returns exactly these.
\<close>

theorem parsePty_roundtrip:
  assumes "length term + length modes < 2 ^ 32 - 12" "w < 2 ^ 32" "h < 2 ^ 32"
  shows "parsePtyRequest (enc32 (length term) @ term @ enc32 w @ enc32 h @ modes)
    = Ret (Some \<lparr>Term = term, Pty_Window = \<lparr>Width = int w, Height = int h\<rparr>\<rparr>)"
proof -
  have "parseString (enc32 (length term) @ term @ enc32 w @ enc32 h @ modes)
      = Ret (Some (term, enc32 w @ enc32 h @ modes))"
    using assms by (intro parseString_enc) simp
  moreover have "uint (of_nat w :: 32 word) = int w" "uint (of_nat h :: 32 word) = int h"
    using assms by (simp_all add: uint_nat unat_of_nat)
  ultimately show ?thesis
    using parseUint32_enc [OF assms(2)] parseUint32_enc [OF assms(3)] by (simp add: parsePtyRequest_def)
qed

theorem parsePty_roundtrip_witness:
  "parsePtyRequest (enc32 (length ''xterm'') @ ''xterm'' @ enc32 80 @ enc32 24 @ []) =
     Ret (Some \<lparr>Term = ''xterm'', Pty_Window = \<lparr>Width = int 80, Height = int 24\<rparr>\<rparr>)"
  by (rule parsePty_roundtrip) simp_all

lemma parseString_panics:
  assumes "length s < 2 ^ 32"
  shows "(\<exists>p. parseString s = Panic p) \<longleftrightarrow> 4 \<le> length s \<and> 2 ^ 32 - 4 \<le> unat (Uint32 s)"
proof (cases "4 \<le> length s")
  case True
  let ?l = "Uint32 s"
  have l: "unat ?l < 2 ^ 32" using unsigned_less [of ?l] by simp
  have sum: "unat (4 + ?l) = (if 2 ^ 32 - 4 \<le> unat ?l then unat ?l + 4 - 2 ^ 32 else unat ?l + 4)"
    using l by (auto simp: unat_word_ariths mod_if)
  have n: "unat (of_nat (length s) :: 32 word) = length s" using assms by (simp add: unat_of_nat)
  show ?thesis
    using True sum n l by (auto simp: parseString_def Let_def word_less_nat_alt)
qed (simp add: parseString_def)

lemma parsePty_panics:
  "(\<exists>p. parsePtyRequest s = Panic p) \<longleftrightarrow> (\<exists>p. parseString s = Panic p)"
  by (cases "parseString s") (auto simp: parsePtyRequest_def split: option.splits)

text \<open>
  C37: the request loop panics exactly on a terminal request whose declared name length is one of the
  four largest 32-bit numbers, sent before a handler runs and before a terminal is granted: there the sum
  in the bounds check wraps around, and the slice behind it is out of range.  No other request of
  any kind or content can panic.
\<close>

theorem handleRequest_panics_iff:
  assumes "length (req_Payload req) < 2 ^ 32"
  shows "(\<exists>p. handleRequest P s req = Panic p) \<longleftrightarrow>
    req_Type req = ''pty-req'' \<and> \<not> handled s \<and> sess_pty s = None
    \<and> 4 \<le> length (req_Payload req) \<and> 2 ^ 32 - 4 \<le> unat (Uint32 (req_Payload req))"
proof (cases "req_Type req = ''pty-req''")
  case True
  have "(\<exists>p. handleRequest P s req = Panic p) \<longleftrightarrow>
      \<not> handled s \<and> sess_pty s = None \<and> (\<exists>p. parsePtyRequest (req_Payload req) = Panic p)"
    using True by (cases "parsePtyRequest (req_Payload req)")
      (auto simp: handleRequest_def Let_def split: option.splits)
  with True parsePty_panics parseString_panics [OF assms] show ?thesis by simp
next
  case False
  then have "\<forall>p. handleRequest P s req \<noteq> Panic p"
    by (simp add: handleRequest_def Let_def split: option.split prod.split)
  with False show ?thesis by simp
qed


definition example_params :: session_params where
  "example_params = \<lparr>unmarshal_Value = drop 4, unmarshal_KeyValue = (\<lambda>s. (take 4 s, drop 4 s)), sessReqCb = None,
     ptyCb = None, subsystemHandlers = (\<lambda>n. n = ''sftp'')\<rparr>"

definition bad_pty :: ssh_request where
  "bad_pty = \<lparr>req_Type = ''pty-req'', req_Payload = enc32 (2 ^ 32 - 1)\<rparr>"

theorem handleRequest_panics_iff_witness:
  "\<exists>p. handleRequest example_params new_session bad_pty = Panic p"
proof -
  have "Uint32 (req_Payload bad_pty) = of_nat (2 ^ 32 - 1)"
    using Uint32_enc32 [of "2 ^ 32 - 1" "[]"] by (simp add: bad_pty_def)
  then have "unat (Uint32 (req_Payload bad_pty)) = 2 ^ 32 - 1"
    by (simp add: unat_of_nat)
  then show ?thesis
    using handleRequest_panics_iff [of bad_pty example_params new_session] by (simp add: bad_pty_def new_session_def)
qed

section \<open>One handler per session\<close>

text \<open>What a running session keeps: the command, environment, subsystem and the name of its terminal.\<close>

definition identity_of :: "ssh_session \<Rightarrow> string \<times> string list \<times> string \<times> string option" where
  "identity_of s = (rawCmd s, sess_env s, sess_subsystem s, map_option Term (sess_pty s))"

definition started_count :: "started list \<Rightarrow> nat" where
  "started_count sts = length (filter (\<lambda>st. st \<noteq> Nothing) sts)"

lemma started_count_simps [simp]:
  "started_count [] = 0"
  "started_count (st # sts) = (if st = Nothing then 0 else 1) + started_count sts"
  by (simp_all add: started_count_def)

lemma request_when_handled:
  assumes "handled s" "handleRequest P s req = Ret (s', reply, st)"
  shows "handled s' \<and> st = Nothing \<and> identity_of s' = identity_of s"
proof -
  have "case handleRequest P s req of Ret (s', _, st) \<Rightarrow> handled s' \<and> st = Nothing \<and> identity_of s' = identity_of s
      | Panic _ \<Rightarrow> True"
    using assms(1) by (simp add: handleRequest_def Let_def identity_of_def split: option.split)
  with assms(2) show ?thesis by simp
qed

lemma request_starts:
  assumes "\<not> handled s" "handleRequest P s req = Ret (s', reply, st)"
  shows "handled s' \<longleftrightarrow> st \<noteq> Nothing"
proof -
  have "case handleRequest P s req of Ret (s', _, st) \<Rightarrow> handled s' \<longleftrightarrow> st \<noteq> Nothing | Panic _ \<Rightarrow> True"
    using assms(1) by (cases "parsePtyRequest (req_Payload req)")
      (simp_all add: handleRequest_def Let_def split: option.split prod.split)
  with assms(2) show ?thesis by simp
qed

lemma request_sigBuf:
  assumes "length (sigBuf s) \<le> maxSigBufSize" "handleRequest P s req = Ret (s', reply, st)"
  shows "length (sigBuf s') \<le> maxSigBufSize"
proof -
  have "case handleRequest P s req of Ret (s', _, st) \<Rightarrow> length (sigBuf s') \<le> maxSigBufSize | Panic _ \<Rightarrow> True"
    using assms(1) by (cases "parsePtyRequest (req_Payload req)")
      (simp_all add: handleRequest_def Let_def split: option.split prod.split)
  with assms(2) show ?thesis by simp
qed

lemma requests_Cons:
  assumes "handleRequests P s (req # reqs) = Ret (s'', sts)"
  obtains s' reply st sts' where "handleRequest P s req = Ret (s', reply, st)"
    "handleRequests P s' reqs = Ret (s'', sts')" "sts = st # sts'"
  using assms by auto

lemma requests_when_handled:
  "handled s \<Longrightarrow> handleRequests P s reqs = Ret (s', sts) \<Longrightarrow>
    handled s' \<and> started_count sts = 0 \<and> identity_of s' = identity_of s"
proof (induction reqs arbitrary: s sts)
  case (Cons req reqs)
  from Cons.prems(2) obtain t reply st sts' where t: "handleRequest P s req = Ret (t, reply, st)"
    "handleRequests P t reqs = Ret (s', sts')" "sts = st # sts'" by (rule requests_Cons)
  from request_when_handled [OF Cons.prems(1) t(1)] Cons.IH [OF _ t(2)] t(3) show ?case by simp
qed simp

lemma requests_count:
  "\<not> handled s \<Longrightarrow> handleRequests P s reqs = Ret (s', sts) \<Longrightarrow> started_count sts = (if handled s' then 1 else 0)"
proof (induction reqs arbitrary: s sts)
  case (Cons req reqs)
  from Cons.prems(2) obtain t reply st sts' where t: "handleRequest P s req = Ret (t, reply, st)"
    "handleRequests P t reqs = Ret (s', sts')" "sts = st # sts'" by (rule requests_Cons)
  show ?case
  proof (cases "handled t")
    case True
    with requests_when_handled [OF True t(2)] request_starts [OF Cons.prems(1) t(1)] t(3) show ?thesis by simp
  next
    case False
    with Cons.IH [OF False t(2)] request_starts [OF Cons.prems(1) t(1)] t(3) show ?thesis by simp
  qed
qed simp

lemma requests_sigBuf:
  "length (sigBuf s) \<le> maxSigBufSize \<Longrightarrow> handleRequests P s reqs = Ret (s', sts) \<Longrightarrow> length (sigBuf s') \<le> maxSigBufSize"
proof (induction reqs arbitrary: s sts)
  case (Cons req reqs)
  from Cons.prems(2) obtain t reply st sts' where t: "handleRequest P s req = Ret (t, reply, st)"
    "handleRequests P t reqs = Ret (s', sts')" by (rule requests_Cons)
  from Cons.IH [OF request_sigBuf [OF Cons.prems(1) t(1)] t(2)] show ?case .
qed simp

text \<open>
  C30: however many shell, exec and subsystem requests a client sends on one channel, at most one
  handler is started, and one is started exactly when the session counts as handled; the signal
  buffer never exceeds its bound.  From then on no request changes the command, the environment,
  the subsystem or the terminal name that the handler sees.
\<close>

theorem session_started_once:
  assumes "handleRequests P new_session reqs = Ret (s, sts)"
  shows "started_count sts = (if handled s then 1 else 0) \<and> length (sigBuf s) \<le> maxSigBufSize \<and>
    (handled s \<longrightarrow> (\<forall>reqs' s' sts'. handleRequests P s reqs' = Ret (s', sts') \<longrightarrow>
       started_count sts' = 0 \<and> identity_of s' = identity_of s))"
  using requests_count [OF _ assms] requests_sigBuf [OF _ assms] requests_when_handled
  by (simp add: new_session_def)

definition example_reqs :: "ssh_request list" where
  "example_reqs = [\<lparr>req_Type = ''exec'', req_Payload = enc32 2 @ ''ls''\<rparr>,
     \<lparr>req_Type = ''shell'', req_Payload = []\<rparr>, \<lparr>req_Type = ''subsystem'', req_Payload = enc32 4 @ ''sftp''\<rparr>]"

lemma example_reqs_run:
  "handleRequests example_params new_session example_reqs =
     Ret (new_session\<lparr>rawCmd := ''ls'', handled := True\<rparr>, [Handler, Nothing, Nothing])"
  by (simp add: example_reqs_def handleRequest_def Let_def example_params_def denied_def new_session_def)

theorem session_started_once_witness:
  "started_count [Handler, Nothing, Nothing] = 1 \<and>
   length (sigBuf (new_session\<lparr>rawCmd := ''ls'', handled := True\<rparr>)) \<le> maxSigBufSize"
  using session_started_once [OF example_reqs_run] by simp

end
