(* ===== verification/WrapSession.thy ===== *)
theory WrapSession
  imports SshSession "HOL-Library.Sublist"
begin

text \<open>
  The wrapped session (\<^verbatim>\<open>pkg/handler/wrapperSession.go\<close>) between the client and whoever reads the terminal: the menu, then a proxy
  session, then the menu again.  A goroutine reads from the client and writes into an \<^verbatim>\<open>io.Pipe\<close>; \<^verbatim>\<open>Close\<close>, at the end of a
  proxy session, ends the pipe, which releases its reader, and puts a fresh one in its place.

  A pipe has no buffer: a write lasts until its bytes are read, or until the pipe is closed, when the rest is dropped.  So the state
  is the rest of the chunk being written (empty while the goroutine waits for the client).  What happens is a list of
  operations in the order in which they take effect.
\<close>

section \<open>The session\<close>

record WrapperSession =
  ws_Uuid :: string
  currentWin :: Window
  ws_Pty :: Pty
  ws_addr :: string
  ws_writing :: string
  ws_closed :: bool

definition NewWrapperSession :: "string \<Rightarrow> Pty \<Rightarrow> string \<Rightarrow> WrapperSession" where
  "NewWrapperSession uuid pty addr =
     \<lparr>ws_Uuid = uuid, currentWin = \<lparr>Width = 0, Height = 0\<rparr>, ws_Pty = pty, ws_addr = addr, ws_writing = [], ws_closed = False\<rparr>"

definition SetWin :: "Window \<Rightarrow> WrapperSession \<Rightarrow> WrapperSession" where
  "SetWin win w = w\<lparr>currentWin := win\<rparr>"

definition WrapperSession_Pty :: "WrapperSession \<Rightarrow> Pty" where
  "WrapperSession_Pty w =
     \<lparr>Term = Term (ws_Pty w),
      Pty_Window = (if Width (currentWin w) = 0 \<or> Height (currentWin w) = 0 then Pty_Window (ws_Pty w) else currentWin w)\<rparr>"

definition WrapperSession_LoginFrom :: string where "WrapperSession_LoginFrom = ''ST''"

section \<open>The pipe\<close>

text \<open>
  \<open>ClientSent\<close> and \<open>ClientGone\<close> are the two outcomes of the read in \<^verbatim>\<open>readLoop\<close>; the loop is there only when it is not writing, and ends
  with the second.  \<open>ReadUp n\<close> is a \<^verbatim>\<open>Read\<close> with a buffer of \<open>n\<close> bytes that returns; \<open>None\<close> means that the operation cannot take
  effect now.
\<close>

datatype pipe_op = ClientSent string | ClientGone | ReadUp nat | CloseUp

datatype pipe_out = Silent | Got string | GotEOF

definition bufSize :: nat where "bufSize = 8192"

definition readLoop_sent :: "string \<Rightarrow> WrapperSession \<Rightarrow> WrapperSession option" where
  "readLoop_sent p w =
     (if ws_closed w \<or> ws_writing w \<noteq> [] \<or> p = [] \<or> length p > bufSize then None else Some (w\<lparr>ws_writing := p\<rparr>))"

definition readLoop_end :: "WrapperSession \<Rightarrow> WrapperSession option" where
  "readLoop_end w = (if ws_closed w \<or> ws_writing w \<noteq> [] then None else Some (w\<lparr>ws_closed := True\<rparr>))"

definition WrapperSession_Read :: "nat \<Rightarrow> WrapperSession \<Rightarrow> (pipe_out \<times> WrapperSession) option" where
  "WrapperSession_Read n w =
     (if ws_closed w then Some (GotEOF, w)
      else if ws_writing w = [] \<or> n = 0 then None
      else Some (Got (take n (ws_writing w)), w\<lparr>ws_writing := drop n (ws_writing w)\<rparr>))"

definition WrapperSession_Close :: "WrapperSession \<Rightarrow> WrapperSession" where
  "WrapperSession_Close w = (if ws_closed w then w else w\<lparr>ws_writing := []\<rparr>)"

fun pipe_step :: "pipe_op \<Rightarrow> WrapperSession \<Rightarrow> (pipe_out \<times> WrapperSession) option" where
  "pipe_step (ClientSent p) w = map_option (Pair Silent) (readLoop_sent p w)"
| "pipe_step ClientGone w = map_option (Pair Silent) (readLoop_end w)"
| "pipe_step (ReadUp n) w = WrapperSession_Read n w"
| "pipe_step CloseUp w = Some (Silent, WrapperSession_Close w)"

fun pipe_run :: "pipe_op list \<Rightarrow> WrapperSession \<Rightarrow> (pipe_out list \<times> WrapperSession) option" where
  "pipe_run [] w = Some ([], w)"
| "pipe_run (op # ops) w =
     (case pipe_step op w of
        None \<Rightarrow> None
      | Some (out, w) \<Rightarrow> (case pipe_run ops w of None \<Rightarrow> None | Some (outs, w) \<Rightarrow> Some (out # outs, w)))"

section \<open>What the readers get\<close>

definition sent :: "pipe_op list \<Rightarrow> string" where
  "sent ops = concat (map (\<lambda>op. case op of ClientSent p \<Rightarrow> p | _ \<Rightarrow> []) ops)"

definition got :: "pipe_out list \<Rightarrow> string" where
  "got outs = concat (map (\<lambda>out. case out of Got p \<Rightarrow> p | _ \<Rightarrow> []) outs)"

lemma sent_Cons [simp]: "sent (ClientSent p # ops) = p @ sent ops" "sent (ClientGone # ops) = sent ops"
  "sent (ReadUp n # ops) = sent ops" "sent (CloseUp # ops) = sent ops" "sent [] = []"
  by (simp_all add: sent_def)

lemma got_Cons [simp]: "got (Got p # outs) = p @ got outs" "got (Silent # outs) = got outs" "got (GotEOF # outs) = got outs" "got [] = []"
  by (simp_all add: got_def)

lemma pipe_step_flow:
  assumes "pipe_step op w = Some (out, w')" "op \<noteq> CloseUp"
  shows "ws_writing w @ sent [op] = got [out] @ ws_writing w'"
  using assms by (cases op) (auto simp: readLoop_sent_def readLoop_end_def WrapperSession_Read_def split: if_splits)

lemma pipe_run_flow:
  assumes "pipe_run ops w = Some (outs, w')" "CloseUp \<notin> set ops"
  shows "ws_writing w @ sent ops = got outs @ ws_writing w'"
  using assms
proof (induction ops arbitrary: w outs)
  case (Cons op ops)
  from Cons.prems(1) obtain out w1 outs1 where step: "pipe_step op w = Some (out, w1)" "pipe_run ops w1 = Some (outs1, w')" "outs = out # outs1"
    by (auto split: option.splits)
  have "sent (op # ops) = sent [op] @ sent ops" "got (out # outs1) = got [out] @ got outs1" by (simp_all add: sent_def got_def)
  with pipe_step_flow [OF step(1)] Cons.IH [OF step(2)] Cons.prems(2) step(3) show ?case by (metis append.assoc list.set_intros)
qed simp

lemma pipe_run_subseq:
  assumes "pipe_run ops w = Some (outs, w')"
  shows "subseq (got outs @ ws_writing w') (ws_writing w @ sent ops)"
  using assms
proof (induction ops arbitrary: w outs)
  case (Cons op ops)
  from Cons.prems obtain out w1 outs1 where step: "pipe_step op w = Some (out, w1)" "pipe_run ops w1 = Some (outs1, w')" "outs = out # outs1"
    by (auto split: option.splits)
  note ih = Cons.IH [OF step(2)]
  show ?case
  proof (cases "op = CloseUp")
    case True
    with step have "out = Silent" "ws_writing w1 = [] \<or> ws_writing w1 = ws_writing w" by (auto simp: WrapperSession_Close_def split: if_splits)
    with ih True step(3) show ?thesis by (auto intro: list_emb_prefix)
  next
    case False
    have "sent (op # ops) = sent [op] @ sent ops" "got (out # outs1) = got [out] @ got outs1" by (simp_all add: sent_def got_def)
    with pipe_step_flow [OF step(1) False] ih step(3) show ?thesis by (metis append.assoc list_emb_append_mono subseq_order.order_refl)
  qed
qed simp

lemma pipe_run_closed:
  assumes "pipe_run ops w = Some (outs, w')" "ws_closed w \<longrightarrow> ws_writing w = []"
  shows "ws_closed w' \<longrightarrow> ws_writing w' = []"
  using assms
proof (induction ops arbitrary: w outs)
  case (Cons op ops)
  from Cons.prems(1) obtain out w1 outs1 where step: "pipe_step op w = Some (out, w1)" "pipe_run ops w1 = Some (outs1, w')"
    by (auto split: option.splits)
  from step(1) Cons.prems(2) have "ws_closed w1 \<longrightarrow> ws_writing w1 = []"
    by (cases op) (auto simp: readLoop_sent_def readLoop_end_def WrapperSession_Read_def WrapperSession_Close_def split: if_splits)
  with Cons.IH step(2) show ?case by blast
qed simp

text \<open>
  C20: what the readers of a wrapped session get, taken together, is what the client sent, in order and nothing twice; bytes
  are only missing when the session was closed and reopened in between, and when it never was, everything the client sent before it went away
  has been read or is still being handed over.
\<close>

theorem wrapper_delivers:
  assumes "pipe_run ops (NewWrapperSession uuid pty addr) = Some (outs, w)"
  shows "subseq (got outs) (sent ops)
    \<and> (CloseUp \<notin> set ops \<longrightarrow> sent ops = got outs @ ws_writing w \<and> (ws_closed w \<longrightarrow> got outs = sent ops))"
proof -
  let ?w = "NewWrapperSession uuid pty addr"
  have new: "ws_writing ?w = []" "\<not> ws_closed ?w" by (simp_all add: NewWrapperSession_def)
  have "subseq (got outs) (got outs @ ws_writing w)" by (rule list_emb_prefix) (rule subseq_order.order_refl)
  then have "subseq (got outs) (sent ops)" using pipe_run_subseq [OF assms] new subseq_order.order_trans by fastforce
  moreover have "sent ops = got outs @ ws_writing w" if "CloseUp \<notin> set ops"
    using pipe_run_flow [OF assms that] new by simp
  moreover have "ws_closed w \<longrightarrow> ws_writing w = []" using pipe_run_closed [OF assms] new by simp
  ultimately show ?thesis by auto
qed

definition example_wrapper :: WrapperSession where
  "example_wrapper = NewWrapperSession ''u1'' \<lparr>Term = ''xterm'', Pty_Window = \<lparr>Width = 80, Height = 24\<rparr>\<rparr> ''10.0.0.9:5022''"

lemma example_pipe:
  "case pipe_run [ClientSent ''ls -l'', ReadUp 2, ReadUp 9, ClientGone, ReadUp 4] example_wrapper of
     Some (outs, w) \<Rightarrow> outs = [Silent, Got ''ls'', Got '' -l'', Silent, GotEOF] \<and> ws_closed w | None \<Rightarrow> False"
  by code_simp

theorem wrapper_delivers_witness:
  "\<exists>outs w. pipe_run [ClientSent ''ls -l'', ReadUp 2, ReadUp 9, ClientGone, ReadUp 4] example_wrapper = Some (outs, w) \<and> got outs = ''ls -l''"
proof -
  obtain outs w where r: "pipe_run [ClientSent ''ls -l'', ReadUp 2, ReadUp 9, ClientGone, ReadUp 4] example_wrapper = Some (outs, w)"
    "ws_closed w" using example_pipe by (auto split: option.splits)
  have "CloseUp \<notin> set [ClientSent ''ls -l'', ReadUp 2, ReadUp 9, ClientGone, ReadUp 4]" by simp
  with wrapper_delivers [OF r(1) [unfolded example_wrapper_def]] r(2)
  have "got outs = sent [ClientSent ''ls -l'', ReadUp 2, ReadUp 9, ClientGone, ReadUp 4]" by blast
  with r(1) show ?thesis by (intro exI conjI) (assumption, simp)
qed

end
