(* ===== verification/WindowSize.thy ===== *)
theory WindowSize
  imports TerminalScreen WrapSession
begin

text \<open>
  Changes of the window size while the menu is open (\<^verbatim>\<open>WatchWinSizeChange\<close> of \<^verbatim>\<open>pkg/handler/interactive.go\<close>): each is stored with the wrapped
  session and given to the line editor, which repaints the line.
\<close>

definition watch_win :: "'w writer \<Rightarrow> Window \<Rightarrow> WrapperSession \<times> 'w Terminal \<Rightarrow> WrapperSession \<times> 'w Terminal" where
  "watch_win wr win = (\<lambda>(sess, term). (SetWin win sess, snd (SetSize wr term (nat (Width win)) (nat (Height win)))))"

text \<open>The window sizes that arrive until the channel or the session ends.\<close>

definition WatchWinSizeChange :: "'w writer \<Rightarrow> Window list \<Rightarrow> WrapperSession \<times> 'w Terminal \<Rightarrow> WrapperSession \<times> 'w Terminal" where
  "WatchWinSizeChange wr winChan = fold (watch_win wr) winChan"

section \<open>Resizing keeps the line and the cursor\<close>

lemma off_screen_cursor:
  "off_screen (t\<lparr>cursorX := x\<rparr>) = off_screen t" "off_screen (t\<lparr>cursorY := y\<rparr>) = off_screen t"
  by (simp_all add: off_screen_def)

lemma off_screen_clear_down:
  "off_screen (((\<lambda>u. clearLineToRight ((move u 0 1 0 0)\<lparr>cursorY := cursorY u + 1\<rparr>)) ^^ n) t) = off_screen t"
  by (rule off_screen_iterate) (simp add: off_screen_ops off_screen_cursor)

lemmas repaint_off_screen = off_screen_ops off_screen_writeLine off_screen_cursor off_screen_clear_down

lemma off_screen_repaint: "off_screen (clearAndRepaintLinePlusNPrevious t n) = off_screen t"
  unfolding clearAndRepaintLinePlusNPrevious_def Let_def
  by (simp only: repaint_off_screen)

lemmas repaint_frame [simp] = off_screen_eqD [OF off_screen_repaint]

lemma synced_repaint:
  assumes "t_echo t" "0 < termWidth t"
  shows "synced (clearAndRepaintLinePlusNPrevious t n)"
proof -
  have moved: "synced (moveCursorToPos u (t_pos u))" if "off_screen u = off_screen t" for u
    using off_screen_eqD [OF that] assms by (intro synced_moveCursor) simp_all
  show ?thesis
    unfolding clearAndRepaintLinePlusNPrevious_def Let_def by (rule moved) (simp only: repaint_off_screen)
qed

lemma SetSize_frame:
  "t_line (snd (SetSize wr t w h)) = t_line t" "t_pos (snd (SetSize wr t w h)) = t_pos t"
  "t_history (snd (SetSize wr t w h)) = t_history t" "t_echo (snd (SetSize wr t w h)) = t_echo t"
  "termWidth (snd (SetSize wr t w h)) = max 1 w" "termHeight (snd (SetSize wr t w h)) = h"
  by (auto simp: SetSize_def Let_def split: prod.split)

lemma SetSize_synced:
  assumes "t_echo t" "synced t"
  shows "synced (snd (SetSize wr t w h))"
proof -
  have conn: "synced (u\<lparr>t_conn := c, outBuf := b\<rparr>) \<longleftrightarrow> synced u" for u :: "'a Terminal" and c b by (simp add: synced_def)
  have same: "synced (t\<lparr>termWidth := termWidth t, termHeight := h\<rparr>)" using assms(2) by (simp add: synced_def)
  have origin: "synced (t\<lparr>termWidth := v, termHeight := h\<rparr>)" if "cursorX t = 0" "cursorY t = 0" "0 < v" for v
    using that assms(2) by (simp add: synced_def)
  show ?thesis
    using assms(1) same origin by (auto simp: SetSize_def conn Let_def intro!: synced_repaint split: prod.split)
qed

text \<open>
  Whatever window sizes arrive while a line is edited, the typed line, the position in it and the history stay, the cursor stays in step with the
  position, and editor and session end up with the last size (a width of zero counting as one).
\<close>

theorem resizing_keeps_line:
  assumes "t_echo t" "synced t" "wins \<noteq> []" "WatchWinSizeChange wr wins (sess, t) = (sess', t')"
  shows "t_line t' = t_line t \<and> t_pos t' = t_pos t \<and> t_history t' = t_history t \<and> synced t'
    \<and> currentWin sess' = last wins \<and> termWidth t' = max 1 (nat (Width (last wins))) \<and> termHeight t' = nat (Height (last wins))"
  using assms
proof (induction wins arbitrary: sess t)
  case (Cons win wins)
  let ?t = "snd (SetSize wr t (nat (Width win)) (nat (Height win)))"
  have t: "t_echo ?t" "synced ?t" "t_line ?t = t_line t" "t_pos ?t = t_pos t" "t_history ?t = t_history t"
    using Cons.prems(1,2) by (simp_all add: SetSize_frame SetSize_synced)
  show ?case
  proof (cases wins)
    case Nil
    then show ?thesis
      using Cons.prems(4) t by (auto simp: WatchWinSizeChange_def watch_win_def SetWin_def SetSize_frame)
  next
    case (Cons win' wins')
    then show ?thesis
      using Cons.IH [OF t(1,2), of "SetWin win sess"] Cons.prems(4) t(3-5)
      by (simp add: WatchWinSizeChange_def watch_win_def)
  qed
qed simp

end
