(* ===== verification/TerminalTyped.thy ===== *)
theory TerminalTyped
  imports TerminalProps
begin

text \<open>
  What is typed is what is returned: decoding of typed text, whatever the cuts between the reads,
  up to the line that \<^verbatim>\<open>ReadLine\<close> returns; and what is written, with its line ends.
\<close>

section \<open>Decoding does not depend on the cuts\<close>

lemma first_size_cases: "first_size b = 1 \<or> first_size b = 2 \<or> first_size b = 3 \<or> first_size b = 4"
  by (simp add: first_size_def)

lemma FullRune_append: "FullRune b \<Longrightarrow> FullRune (b @ c)"
  by (cases b) (auto simp: FullRune_def nth_append)

lemma decode_multi_append:
  assumes "FullRune (x # cs)" "\<not> byte_of x < 0x80" "valid_first (byte_of x)"
  shows "decode_multi (byte_of x) (cs @ d) = decode_multi (byte_of x) cs"
proof -
  have s: "first_size (byte_of x) \<noteq> 1" using assms(2,3) by (auto simp: valid_first_def first_size_def)
  show ?thesis
  proof (cases cs)
    case Nil
    with assms(1) s first_size_cases [of "byte_of x"] show ?thesis by (auto simp: FullRune_def)
  next
    case (Cons c1 cs1)
    show ?thesis
    proof (cases cs1)
      case Nil
      with Cons assms(1) s first_size_cases [of "byte_of x"] show ?thesis by (auto simp: FullRune_def)
    next
      case (Cons c2 cs2)
      with \<open>cs = c1 # cs1\<close> assms(1) s first_size_cases [of "byte_of x"] show ?thesis
        by (cases cs2) (auto simp: FullRune_def)
    qed
  qed
qed

lemma DecodeRune_append:
  assumes "FullRune b"
  shows "DecodeRune (b @ c) = DecodeRune b"
proof (cases b)
  case Nil
  with assms show ?thesis by (simp add: FullRune_def)
next
  case (Cons x cs)
  with assms decode_multi_append [of x cs c] show ?thesis by (auto simp: Let_def)
qed

lemma prefix_no_end:
  assumes "skip_sequence b = Some r" "take n (b @ c) = pat" "length b < n"
    "list_all (\<lambda>x. \<not> ends_sequence x) (butlast pat)" "length pat = n"
  shows False
proof -
  have "take (length b) pat = b" unfolding assms(2) [symmetric] using assms(3) by simp
  then have "b = take (length b) (butlast pat)" using assms(3,5) by (simp add: butlast_conv_take)
  then have none: "list_all (\<lambda>x. \<not> ends_sequence x) b"
    using assms(4) by (metis (no_types, lifting) list_all_iff set_take_subset subset_iff)
  have "skip_sequence b = None" if "list_all (\<lambda>x. \<not> ends_sequence x) b" for b
    using that by (induction b) auto
  with none assms(1) show False by simp
qed

lemma sequences_unended:
  "list_all (\<lambda>x. \<not> ends_sequence x) (butlast pasteStart)"
  "list_all (\<lambda>x. \<not> ends_sequence x) (butlast pasteEnd)"
  "list_all (\<lambda>x. \<not> ends_sequence x) (ESC # ''[1;3'')"
  "\<not> ends_sequence ESC" "\<not> ends_sequence CHR ''[''"
  by code_simp+

text \<open>The escape branch of \<^verbatim>\<open>bytesToKey\<close>, by its tests.\<close>

definition csi_of :: "string \<Rightarrow> rune option" where
  "csi_of b = (if length b \<ge> 3 \<and> b ! 1 = CHR ''['' then csi_key (b ! 2) else None)"

definition alt_of :: "string \<Rightarrow> rune option" where
  "alt_of b = (if length b \<ge> 6 \<and> take 5 b = ESC # ''[1;3'' then alt_key (b ! 5) else None)"

definition starts_with :: "string \<Rightarrow> string \<Rightarrow> bool" where
  "starts_with pat b \<longleftrightarrow> length b \<ge> 6 \<and> take 6 b = pat"

lemma bytesToKey_escape:
  assumes "b \<noteq> []" "b ! 0 = ESC"
  shows "bytesToKey b p =
    (case (if p then None else csi_of b) of
       Some key \<Rightarrow> (key, drop 3 b)
     | None \<Rightarrow> (case (if p then None else alt_of b) of
         Some key \<Rightarrow> (key, drop 6 b)
       | None \<Rightarrow> if \<not> p \<and> starts_with pasteStart b then (keyPasteStart, drop 6 b)
           else if p \<and> starts_with pasteEnd b then (keyPasteEnd, drop 6 b)
           else (case skip_sequence b of Some rest \<Rightarrow> (keyUnknown, rest) | None \<Rightarrow> (RuneError, b))))"
proof -
  have "control_key (byte_of ESC) = None" by (simp add: control_key_def ESC_def)
  note facts = bytesToKey_def csi_of_def alt_of_def starts_with_def assms this if_True if_False option.case simp_thms
  show ?thesis by (cases p) (simp_all only: facts)
qed

lemma tests_long:
  "length b \<ge> 3 \<Longrightarrow> csi_of (b @ c) = csi_of b"
  "length b \<ge> 6 \<Longrightarrow> alt_of (b @ c) = alt_of b"
  "length b \<ge> 6 \<Longrightarrow> starts_with pat (b @ c) = starts_with pat b"
  by (simp_all add: csi_of_def alt_of_def starts_with_def nth_append)

lemma tests_need:
  "csi_of b \<noteq> None \<Longrightarrow> length b \<ge> 3" "alt_of b \<noteq> None \<Longrightarrow> length b \<ge> 6" "starts_with pat b \<Longrightarrow> length b \<ge> 6"
  by (auto simp: csi_of_def alt_of_def starts_with_def split: if_splits)

lemma tests_unknown:
  assumes "b \<noteq> []" "b ! 0 = ESC" "skip_sequence b = Some r"
  shows "csi_of (b @ c) = csi_of b" "alt_of (b @ c) = alt_of b"
    "starts_with pasteStart (b @ c) = starts_with pasteStart b" "starts_with pasteEnd (b @ c) = starts_with pasteEnd b"
proof -
  have short: False if "length b < 3" "(b @ c) ! 1 = CHR ''['' \<or> length b < 2"
  proof -
    from assms(1,2) that consider "b = [ESC]" | "b = [ESC, CHR ''['']"
      by (cases b; cases "tl b"; cases "tl (tl b)") auto
    then show False using assms(3) sequences_unended by cases auto
  qed
  show "csi_of (b @ c) = csi_of b"
  proof (cases "length b < 3")
    case True
    then have "csi_of b = None" "csi_of (b @ c) = None" using short by (auto simp: csi_of_def)
    then show ?thesis by simp
  qed (simp add: tests_long)
  have end6: "length b \<ge> 6" if "length (b @ c) \<ge> 6" "list_all (\<lambda>x. \<not> ends_sequence x) (take 5 (b @ c))"
  proof (rule ccontr)
    assume "\<not> length b \<ge> 6"
    moreover have "butlast (take 6 (b @ c)) = take 5 (b @ c)"
      using butlast_take [of 6 "b @ c"] that(1) by (simp del: take_append)
    ultimately show False
      using prefix_no_end [OF assms(3), of 6 c "take 6 (b @ c)"] that by simp
  qed
  show "alt_of (b @ c) = alt_of b"
  proof (cases "alt_of (b @ c)")
    case None
    then show ?thesis using tests_long(2) [of b c] tests_need(2) [of b] by force
  next
    case (Some k)
    then have "length (b @ c) \<ge> 6" "take 5 (b @ c) = ESC # ''[1;3''"
      by (auto simp: alt_of_def simp del: take_append split: if_splits)
    then have "length b \<ge> 6" using end6 sequences_unended(3) by metis
    then show ?thesis by (rule tests_long)
  qed
  have "starts_with pat (b @ c) = starts_with pat b"
    if "list_all (\<lambda>x. \<not> ends_sequence x) (butlast pat)" for pat
  proof (cases "starts_with pat (b @ c)")
    case True
    then have "take 5 (b @ c) = butlast pat" "length (b @ c) \<ge> 6"
      using butlast_take [of 6 "b @ c"] by (auto simp: starts_with_def simp del: take_append)
    then have "length b \<ge> 6" using end6 that by simp
    then show ?thesis by (rule tests_long)
  next
    case False
    then show ?thesis using tests_long(3) [of b pat c] tests_need(3) [of pat b] by blast
  qed
  then show "starts_with pasteStart (b @ c) = starts_with pasteStart b"
    "starts_with pasteEnd (b @ c) = starts_with pasteEnd b"
    using sequences_unended by blast+
qed

lemma end_letters:
  "ends_sequence CHR ''A''" "ends_sequence CHR ''B''" "ends_sequence CHR ''C''" "ends_sequence CHR ''D''"
  "ends_sequence CHR ''H''" "ends_sequence CHR ''F''" "ends_sequence CHR ''~''"
  by code_simp+

lemma key_letters: "csi_key x \<noteq> None \<Longrightarrow> ends_sequence x" "alt_key x \<noteq> None \<Longrightarrow> ends_sequence x"
  by (auto simp: csi_key_def alt_key_def end_letters split: if_splits)

lemma skip_sequence_ends: "x \<in> set b \<Longrightarrow> ends_sequence x \<Longrightarrow> skip_sequence b \<noteq> None"
  by (induction b) auto

lemma tests_have_end:
  "csi_of b \<noteq> None \<Longrightarrow> skip_sequence b \<noteq> None" "alt_of b \<noteq> None \<Longrightarrow> skip_sequence b \<noteq> None"
  "CHR ''~'' \<in> set pat \<Longrightarrow> starts_with pat b \<Longrightarrow> skip_sequence b \<noteq> None"
proof -
  show "skip_sequence b \<noteq> None" if c: "csi_of b \<noteq> None"
  proof -
    have "csi_key (b ! 2) \<noteq> None" using c by (auto simp: csi_of_def split: if_splits)
    with key_letters(1) have "ends_sequence (b ! 2)" by blast
    with tests_need(1) [OF c] show ?thesis by (intro skip_sequence_ends [of "b ! 2"]) auto
  qed
  show "skip_sequence b \<noteq> None" if c: "alt_of b \<noteq> None"
  proof -
    have "alt_key (b ! 5) \<noteq> None" using c by (auto simp: alt_of_def split: if_splits)
    with key_letters(2) have "ends_sequence (b ! 5)" by blast
    with tests_need(2) [OF c] show ?thesis by (intro skip_sequence_ends [of "b ! 5"]) auto
  qed
  show "skip_sequence b \<noteq> None" if "CHR ''~'' \<in> set pat" "starts_with pat b"
    using that by (intro skip_sequence_ends [of "CHR ''~''"])
      (auto simp: starts_with_def end_letters dest: in_set_takeD)
qed

lemma bytesToKey_escape_append:
  assumes "b \<noteq> []" "b ! 0 = ESC" "bytesToKey b p = (key, rest)" "key \<noteq> RuneError"
  shows "bytesToKey (b @ c) p = (key, rest @ c)"
proof -
  have bc: "b @ c \<noteq> []" "(b @ c) ! 0 = ESC" using assms(1,2) by (auto simp: nth_append)
  note e = bytesToKey_escape [OF assms(1,2)] and ec = bytesToKey_escape [OF bc]
  have "skip_sequence b \<noteq> None"
  proof
    assume none: "skip_sequence b = None"
    have "CHR ''~'' \<in> set pasteStart" "CHR ''~'' \<in> set pasteEnd" by (simp_all add: pasteStart_def pasteEnd_def)
    with none have "csi_of b = None" "alt_of b = None" "\<not> starts_with pasteStart b" "\<not> starts_with pasteEnd b"
      using tests_have_end by blast+
    with none assms(3,4) e show False by (simp split: if_splits)
  qed
  then obtain r where r: "skip_sequence b = Some r" by blast
  note same = tests_unknown [OF assms(1,2) r, of c]
  show ?thesis
  proof (cases "(if p then None else csi_of b) = None \<and> (if p then None else alt_of b) = None")
    case True
    then show ?thesis
      using assms(3) r tests_need(3) [of pasteStart b] tests_need(3) [of pasteEnd b]
      unfolding e ec same skip_sequence_append [OF r] by (auto split: if_splits)
  next
    case False
    then show ?thesis
      using assms(3) tests_need(1,2) [of b] unfolding e ec same
      by (cases p; cases "csi_of b"; cases "alt_of b") auto
  qed
qed

text \<open>
  How the connection cuts the input does not change the keys: when a key is decoded from some
  bytes, the same key is decoded when more bytes follow, and exactly those are left over; and a
  decoded key always consumes input.
\<close>

theorem bytesToKey_cut_independent:
  assumes "bytesToKey b p = (key, rest)" "key \<noteq> RuneError"
  shows "bytesToKey (b @ c) p = (key, rest @ c) \<and> length rest < length b"
proof -
  have ne: "b \<noteq> []" using assms by (auto simp: bytesToKey_def)
  have "bytesToKey (b @ c) p = (key, rest @ c)"
  proof (cases "b ! 0 = ESC")
    case True
    then show ?thesis using bytesToKey_escape_append [OF ne _ assms] by blast
  next
    case False
    have h: "(b @ c) ! 0 = b ! 0" using ne by (simp add: nth_append)
    have "drop (snd (DecodeRune b)) (b @ c) = drop (snd (DecodeRune b)) b @ c"
      using DecodeRune_size [OF ne] by simp
    moreover have "drop 1 (b @ c) = drop 1 b @ c" using ne by (cases b) auto
    ultimately show ?thesis
      using assms ne False
      by (auto simp: bytesToKey_def h FullRune_append DecodeRune_append split: if_splits option.splits)
  qed
  with bytesToKey_progress [OF assms] show ?thesis by blast
qed

lemma example_key: "bytesToKey (ESC # ''[A'') False = (keyUp, [])"
  by (simp add: bytesToKey_escape csi_of_def csi_key_def)

theorem bytesToKey_cut_independent_witness:
  "bytesToKey (ESC # ''[A'') False = (keyUp, []) \<and> bytesToKey ((ESC # ''[A'') @ ''ls'') False = (keyUp, [] @ ''ls'')"
  using bytesToKey_cut_independent [OF example_key, of "''ls''"] example_key
  by (simp add: key_defs RuneError_def)

section \<open>Typed runes\<close>

definition typed :: "rune \<Rightarrow> bool" where
  "typed r \<longleftrightarrow> valid_rune r \<and> 32 \<le> r \<and> r \<noteq> 127 \<and> r \<noteq> RuneError"

lemma EncodeRune_shape:
  assumes "valid_rune r"
  shows "first_size (byte_of (hd (EncodeRune r))) = length (EncodeRune r) \<and> length (EncodeRune r) \<le> 4
    \<and> (r < 0x80 \<longrightarrow> EncodeRune r = [char_of r]) \<and> (0x80 \<le> r \<longrightarrow> 0xC2 \<le> byte_of (hd (EncodeRune r)))"
proof -
  consider "r < 0x80" | "0x80 \<le> r" "r < 0x800" | "0x800 \<le> r" "r < 0x10000" | "0x10000 \<le> r" by linarith
  then show ?thesis
  proof cases
    case 1
    then show ?thesis using assms by (simp add: EncodeRune_def first_size_def)
  next
    case 2
    then have "2 \<le> r div 64" "r div 64 < 32" by auto
    with 2 assms show ?thesis by (simp add: EncodeRune_def Let_def first_size_def)
  next
    case 3
    then have "r div 4096 < 16" by auto
    with 3 assms show ?thesis by (simp add: EncodeRune_def Let_def first_size_def)
  next
    case 4
    then have "r div 262144 < 5" using assms by (auto simp: valid_rune_def)
    with 4 assms show ?thesis by (simp add: EncodeRune_def Let_def first_size_def)
  qed
qed

lemma EncodeRune_bytes_ok:
  assumes "valid_rune r" "EncodeRune r = x # cs"
  shows "cs \<noteq> [] \<Longrightarrow> second_ok (byte_of x) (byte_of (cs ! 0))"
    "1 < length cs \<Longrightarrow> cont_ok (byte_of (cs ! 1))"
proof -
  have d: "DecodeRune (x # cs) = (r, Suc (length cs))"
    using DecodeRune_EncodeRune [OF assms(1), of "[]"] assms(2) by simp
  show "second_ok (byte_of x) (byte_of (cs ! 0))" if "cs \<noteq> []"
    using that d by (cases cs) (auto simp: Let_def split: if_splits)
  show "cont_ok (byte_of (cs ! 1))" if "1 < length cs"
    using that d by (cases cs; cases "tl cs") (auto simp: Let_def split: if_splits)
qed

lemma FullRune_EncodeRune: "valid_rune r \<Longrightarrow> FullRune (EncodeRune r @ c)"
  using EncodeRune_shape [of r] by (cases "EncodeRune r") (auto simp: FullRune_def)

lemma FullRune_part:
  assumes "valid_rune r" "strict_prefix part (EncodeRune r)"
  shows "\<not> FullRune part"
proof (cases part)
  case Nil
  then show ?thesis by (simp add: FullRune_def)
next
  case (Cons x cs)
  with assms(2) obtain ys where ys: "EncodeRune r = x # cs @ ys" "ys \<noteq> []"
    by (auto simp: strict_prefix_def prefix_def)
  have "second_ok (byte_of x) (byte_of (cs ! 0))" if "cs \<noteq> []"
    using EncodeRune_bytes_ok(1) [OF assms(1) ys(1)] that by (auto simp: nth_append)
  moreover have "cont_ok (byte_of (cs ! 1))" if "1 < length cs"
    using EncodeRune_bytes_ok(2) [OF assms(1) ys(1)] that by (simp add: nth_append)
  moreover have "length (x # cs) < first_size (byte_of x)"
    using EncodeRune_shape [OF assms(1)] ys by (simp split: if_splits)
  ultimately show ?thesis using Cons by (auto simp: FullRune_def)
qed

lemma typed_first:
  assumes "typed r"
  shows "EncodeRune r ! 0 \<noteq> ESC \<and> control_key (byte_of (EncodeRune r ! 0)) = None"
proof -
  have v: "valid_rune r" using assms by (simp add: typed_def)
  have b: "32 \<le> byte_of (EncodeRune r ! 0)"
    using EncodeRune_shape [OF v] assms by (cases "r < 0x80") (auto simp: typed_def hd_conv_nth)
  then have "EncodeRune r ! 0 \<noteq> ESC" by (auto simp: ESC_def)
  with b show ?thesis by (auto simp: control_key_def split: if_splits)
qed

lemma bytesToKey_typed:
  assumes "typed r"
  shows "bytesToKey (EncodeRune r @ rest) False = (r, rest)"
proof -
  have v: "valid_rune r" using assms by (simp add: typed_def)
  have h: "(EncodeRune r @ rest) ! 0 = EncodeRune r ! 0" by (simp add: nth_append)
  show ?thesis
    using typed_first [OF assms] FullRune_EncodeRune [OF v] DecodeRune_EncodeRune [OF v, of rest]
    by (simp add: bytesToKey_def h)
qed

lemma bytesToKey_part:
  assumes "typed r" "strict_prefix part (EncodeRune r)"
  shows "bytesToKey part False = (RuneError, part)"
proof (cases "part = []")
  case True
  then show ?thesis by (simp add: bytesToKey_def)
next
  case False
  with assms(2) have "part ! 0 = EncodeRune r ! 0"
    by (auto simp: strict_prefix_def prefix_def nth_append)
  with False typed_first [OF assms(1)] FullRune_part [of r part] assms show ?thesis
    by (simp add: bytesToKey_def typed_def)
qed

definition CR :: char where "CR = char_of (13 :: nat)"

lemma bytesToKey_CR: "bytesToKey (CR # rest) False = (keyEnter, rest)"
  by (simp add: bytesToKey_def CR_def ESC_def control_key_def FullRune_def first_size_def keyEnter_def char_of_eq_iff)

section \<open>Reading typed text\<close>

definition typing :: "rune list \<Rightarrow> 'w Terminal \<Rightarrow> 'w Terminal" where
  "typing rs t = fold (\<lambda>r t. addKeyToLine t r) rs t"

definition ready :: "'w Terminal \<Rightarrow> bool" where
  "ready t \<longleftrightarrow> \<not> t_pasteActive t \<and> t_pos t = length (t_line t)"

lemma off_screen_updates:
  "off_screen (u\<lparr>t_pos := p\<rparr>) = (off_screen u)\<lparr>t_pos := p\<rparr>"
  "off_screen (u\<lparr>t_line := l\<rparr>) = (off_screen u)\<lparr>t_line := l\<rparr>"
  by (simp_all add: off_screen_def)

lemma off_screen_add:
  "off_screen (addKeyToLine t r) = (off_screen t)
     \<lparr>t_line := take (t_pos t) (t_line t) @ r # drop (t_pos t) (t_line t), t_pos := Suc (t_pos t)\<rparr>"
  by (simp add: addKeyToLine_def Let_def off_screen_ops off_screen_writeLine off_screen_updates)

lemma off_screen_typing:
  "t_pos t = length (t_line t) \<Longrightarrow>
   off_screen (typing rs t) = (off_screen t)\<lparr>t_line := t_line t @ rs, t_pos := length (t_line t) + length rs\<rparr>"
proof (induction rs arbitrary: t)
  case Nil
  then show ?case by (simp add: typing_def off_screen_def)
next
  case (Cons r rs)
  have "typing (r # rs) t = typing rs (addKeyToLine t r)" by (simp add: typing_def)
  with Cons.IH [of "addKeyToLine t r"] Cons.prems show ?case by (simp add: off_screen_add)
qed

lemma off_screen_sel:
  "t_conn (off_screen t) = t_conn t" "t_line (off_screen t) = t_line t" "t_pos (off_screen t) = t_pos t"
  "t_pasteActive (off_screen t) = t_pasteActive t" "t_echo (off_screen t) = t_echo t"
  "t_history (off_screen t) = t_history t" "t_remainder (off_screen t) = t_remainder t"
  by (simp_all add: off_screen_def)

lemma typing_sel:
  assumes "t_pos t = length (t_line t)"
  shows "t_line (typing rs t) = t_line t @ rs" "t_pos (typing rs t) = length (t_line t) + length rs"
    "t_conn (typing rs t) = t_conn t" "t_pasteActive (typing rs t) = t_pasteActive t"
    "t_echo (typing rs t) = t_echo t" "t_history (typing rs t) = t_history t"
  using off_screen_typing [OF assms, of rs] off_screen_sel [of "typing rs t"] off_screen_sel [of t] by simp_all

lemma typing_silent:
  "\<not> t_echo t \<Longrightarrow> outBuf (typing rs t) = outBuf t"
proof (induction rs arbitrary: t)
  case (Cons r rs)
  have "outBuf (addKeyToLine t r) = outBuf t" "\<not> t_echo (addKeyToLine t r)"
    using Cons.prems by (simp_all add: addKeyToLine_def moveCursorToPos_def)
  with Cons.IH [of "addKeyToLine t r"] show ?case by (simp add: typing_def)
qed (simp add: typing_def)

lemma typed_not_special:
  assumes "typed r"
  shows "r \<notin> set edit_keys" "r \<notin> set other_keys" "r \<noteq> keyCtrlD" "r \<noteq> keyPasteStart" "isPrintable r"
  using assms by (auto simp: typed_def valid_rune_def edit_keys_def other_keys_def key_defs isPrintable_def)

lemma readLine_keys_typed:
  assumes "typed r" "\<not> t_pasteActive t" "length (t_line t) < maxLineLength"
  shows "readLine_keys None t p (EncodeRune r @ rest) = readLine_keys None (addKeyToLine t r) False rest"
proof -
  have "r \<noteq> RuneError" using assms(1) by (simp add: typed_def)
  moreover have "handleKey None t r = Ret (([], False), addKeyToLine t r)"
    using handleKey_default [OF assms(2) typed_not_special(1,2) [OF assms(1)]] typed_not_special(5) [OF assms(1)] assms(3)
    by (simp add: insertPrintable_def)
  ultimately show ?thesis
    using assms(2) bytesToKey_typed [OF assms(1), of rest] typed_not_special(3,4) [OF assms(1)]
    by (subst readLine_keys.simps) (simp add: Let_def)
qed

lemma readLine_keys_typing:
  assumes "list_all typed rs" "ready t" "length (t_line t) + length rs \<le> maxLineLength"
  shows "\<exists>p'. readLine_keys None t p (string_of_runes rs @ rest) = readLine_keys None (typing rs t) p' rest"
  using assms
proof (induction rs arbitrary: t p)
  case Nil
  then show ?case by (auto simp: typing_def)
next
  case (Cons r rs)
  have "ready (addKeyToLine t r)"
    using Cons.prems(2) off_screen_sel(4) [of "addKeyToLine t r"] by (simp add: ready_def off_screen_add off_screen_sel)
  moreover have "length (t_line (addKeyToLine t r)) + length rs \<le> maxLineLength"
    using Cons.prems by (simp add: ready_def)
  ultimately obtain p' where "readLine_keys None (addKeyToLine t r) False (string_of_runes rs @ rest)
      = readLine_keys None (typing rs (addKeyToLine t r)) p' rest"
    using Cons.IH [of "addKeyToLine t r" False] Cons.prems(1) by auto
  then show ?case
    using readLine_keys_typed [of r t p "string_of_runes rs @ rest"] Cons.prems
    by (auto simp: string_of_runes_def typing_def ready_def)
qed

lemma readLine_keys_enter:
  assumes "\<not> t_pasteActive t"
  shows "readLine_keys None t p (CR # rest) = Ret (KeyLine
     (reset_line (queue (moveCursorToPos t (length (t_line t))) [13, 10])) False rest (string_of_runes (t_line t)))"
  using assms by (subst readLine_keys.simps) (simp add: bytesToKey_CR handleKey_def key_defs RuneError_def)

lemma readLine_keys_part:
  assumes "bytesToKey part False = (RuneError, part)" "\<not> t_pasteActive t"
  shows "readLine_keys None t p part = Ret (KeyBreak t p part)"
  using assms by (subst readLine_keys.simps) simp

text \<open>Where a cut can fall in typed text that ends with enter.\<close>

lemma EncodeRune_prefix_cases:
  assumes "b @ c = e @ d"
  shows "(\<exists>b'. b = e @ b') \<or> strict_prefix b e"
  using assms by (auto simp: append_eq_append_conv2 strict_prefix_def prefix_def)

lemma cut_typed:
  assumes "list_all typed rs" "b @ c = string_of_runes rs @ CR # later"
  shows "(\<exists>m. b = string_of_runes rs @ CR # m)
    \<or> (\<exists>rs1 rs2 part. rs = rs1 @ rs2 \<and> b = string_of_runes rs1 @ part \<and> length part < 4
         \<and> bytesToKey part False = (RuneError, part))"
  using assms
proof (induction rs arbitrary: b)
  case Nil
  then show ?case by (cases b) (auto simp: bytesToKey_def)
next
  case (Cons r rs)
  have e: "b @ c = EncodeRune r @ (string_of_runes rs @ CR # later)"
    using Cons.prems(2) by (simp add: string_of_runes_def)
  from EncodeRune_prefix_cases [OF e] show ?case
  proof
    assume "\<exists>b'. b = EncodeRune r @ b'"
    then obtain b' where b': "b = EncodeRune r @ b'" by blast
    with e have "b' @ c = string_of_runes rs @ CR # later" by simp
    from Cons.IH [OF _ this] Cons.prems(1) consider m where "b' = string_of_runes rs @ CR # m"
      | rs1 rs2 part where "rs = rs1 @ rs2" "b' = string_of_runes rs1 @ part" "length part < 4"
        "bytesToKey part False = (RuneError, part)" by auto
    then show ?thesis
    proof cases
      case 1
      then show ?thesis using b' by (auto simp: string_of_runes_def)
    next
      case 2
      then show ?thesis using b'
        by (intro disjI2 exI [of _ "r # rs1"] exI [of _ rs2] exI [of _ part]) (simp add: string_of_runes_def)
    qed
  next
    assume s: "strict_prefix b (EncodeRune r)"
    have t: "typed r" using Cons.prems(1) by simp
    have "length b < 4"
      using prefix_length_less [OF s] EncodeRune_shape [of r] t by (simp add: typed_def)
    then show ?thesis
      using bytesToKey_part [OF t s] by (intro disjI2 exI [of _ "[]"] exI [of _ "r # rs"] exI [of _ b]) simp
  qed
qed

definition chunk_input :: "read_result list \<Rightarrow> string" where
  "chunk_input reads = concat (map (\<lambda>r. case r of Chunk s \<Rightarrow> s | ReadFailed _ \<Rightarrow> []) reads)"

definition all_chunks :: "read_result list \<Rightarrow> bool" where
  "all_chunks reads = list_all (\<lambda>r. case r of Chunk _ \<Rightarrow> True | ReadFailed _ \<Rightarrow> False) reads"

text \<open>How a terminal that had \<open>t\<close> before ends up after the typed line \<open>line\<close>, with the reads left over.\<close>

definition line_taken :: "'w writer \<Rightarrow> 'w Terminal \<Rightarrow> string \<Rightarrow> string \<Rightarrow> 'w Terminal \<Rightarrow> read_result list \<Rightarrow> bool" where
  "line_taken wr t line later t' reads' \<longleftrightarrow>
     t_remainder t' @ chunk_input reads' = later \<and> all_chunks reads' \<and> t_line t' = [] \<and> ready t'
   \<and> t_history t' = (if t_echo t then Add (t_history t) line else t_history t)
   \<and> (\<not> t_echo t \<and> outBuf t = [] \<and> (\<forall>w. snd (wr w []) = w) \<longrightarrow> t_conn t' = snd (wr (t_conn t) crlf))"

lemma chunk_input_rest: "take room s @ chunk_input (rest_of_chunk room s rs) = s @ chunk_input rs"
  by (simp add: rest_of_chunk_def chunk_input_def)

lemma bytesToKey_line:
  assumes "list_all typed rs"
  shows "fst (bytesToKey (string_of_runes rs @ CR # later) False) \<noteq> RuneError"
proof (cases rs)
  case Nil
  then show ?thesis by (simp add: bytesToKey_CR key_defs RuneError_def)
next
  case (Cons r rs')
  then show ?thesis
    using assms bytesToKey_typed [of r "string_of_runes rs' @ CR # later"]
    by (simp add: string_of_runes_def typed_def)
qed

lemma readLine_loop_typed:
  assumes "list_all typed rs" "ready t" "length (t_line t) + length rs \<le> maxLineLength" "all_chunks reads"
    "t_remainder t @ chunk_input reads = string_of_runes rs @ CR # later"
  shows "\<exists>t' reads'. readLine_loop None wr t p reads = Ret (LineRead (string_of_runes (t_line t @ rs)) False, t', reads')
    \<and> line_taken wr t (string_of_runes (t_line t @ rs)) later t' reads'"
  using assms
proof (induction "pending_reads reads" arbitrary: t p rs reads rule: less_induct)
  case less
  have pos: "t_pos t = length (t_line t)" and np: "\<not> t_pasteActive t"
    using less.prems(2) by (simp_all add: ready_def)
  from cut_typed [OF less.prems(1,5)] consider
    m where "t_remainder t = string_of_runes rs @ CR # m"
    | rs1 rs2 part where "rs = rs1 @ rs2" "t_remainder t = string_of_runes rs1 @ part" "length part < 4"
        "bytesToKey part False = (RuneError, part)" by blast
  then show ?case
  proof cases
    case 1
    obtain p' where k: "readLine_keys None t p (t_remainder t) = readLine_keys None (typing rs t) p' (CR # m)"
      using readLine_keys_typing [OF less.prems(1-3), of p "CR # m"] 1 by auto
    let ?u = "reset_line (queue (moveCursorToPos (typing rs t) (length (t_line (typing rs t)))) [13, 10])"
    have "readLine_keys None t p (t_remainder t) = Ret (KeyLine ?u False m (string_of_runes (t_line t @ rs)))"
      unfolding k using readLine_keys_enter [of "typing rs t" p' m] np by (simp add: typing_sel [OF pos])
    moreover have "m @ chunk_input reads = later" using less.prems(5) 1 by simp
    moreover have "outBuf ?u = crlf" if "\<not> t_echo t" "outBuf t = []"
      using that typing_silent [OF that(1), of rs]
      by (simp add: reset_line_def queue_def moveCursorToPos_def typing_sel [OF pos] string_of_runes_def
          EncodeRune_ascii crlf_def)
    ultimately show ?thesis
      using less.prems(4) np
      by (subst readLine_loop.simps)
         (auto simp: line_taken_def flush_def reset_line_def typing_sel [OF pos] ready_def Let_def)
  next
    case 2
    have l2: "list_all typed rs1" "list_all typed rs2" "length (t_line t) + length rs1 \<le> maxLineLength"
      using less.prems(1,3) 2(1) by auto
    obtain p' where "readLine_keys None t p (t_remainder t) = readLine_keys None (typing rs1 t) p' part"
      using readLine_keys_typing [OF l2(1) less.prems(2) l2(3), of p part] 2(2) by auto
    then have k: "readLine_keys None t p (t_remainder t) = Ret (KeyBreak (typing rs1 t) p' part)"
      using readLine_keys_part [OF 2(4), of "typing rs1 t" p'] np by (simp add: typing_sel [OF pos])
    have eq: "part @ chunk_input reads = string_of_runes rs2 @ CR # later"
      using less.prems(5) 2(1,2) by simp
    have "reads \<noteq> []"
    proof
      assume "reads = []"
      then have "part = string_of_runes rs2 @ CR # later" using eq by (simp add: chunk_input_def)
      with 2(4) show False using bytesToKey_line [OF l2(2), of later] by simp
    qed
    then obtain s reads1 where r: "reads = Chunk s # reads1" "all_chunks reads1"
      using less.prems(4) by (cases reads) (auto simp: all_chunks_def split: read_result.splits)
    let ?room = "inBufSize - length part"
    let ?t1 = "(flush wr ((typing rs1 t)\<lparr>t_remainder := part\<rparr>))\<lparr>t_remainder := part @ take ?room s\<rparr>"
    let ?reads = "rest_of_chunk ?room s reads1"
    have room: "0 < ?room" using 2(3) by (simp add: inBufSize_def)
    have "pending_reads ?reads < pending_reads reads"
      using pending_rest_of_chunk [OF room, of s reads1] r by simp
    moreover have "ready ?t1" using less.prems(2) np by (simp add: ready_def flush_def typing_sel [OF pos])
    moreover have "length (t_line ?t1) + length rs2 \<le> maxLineLength"
      using less.prems(3) 2(1) by (simp add: flush_def typing_sel [OF pos])
    moreover have "all_chunks ?reads" using r by (auto simp: all_chunks_def rest_of_chunk_def)
    moreover have "t_remainder ?t1 @ chunk_input ?reads = string_of_runes rs2 @ CR # later"
      using eq r chunk_input_rest [of ?room s reads1] by (simp add: chunk_input_def)
    ultimately obtain t' reads' where ih:
      "readLine_loop None wr ?t1 p' ?reads = Ret (LineRead (string_of_runes (t_line ?t1 @ rs2)) False, t', reads')"
      "line_taken wr ?t1 (string_of_runes (t_line ?t1 @ rs2)) later t' reads'"
      using less.hyps [OF _ l2(2)] by blast
    have line: "t_line ?t1 @ rs2 = t_line t @ rs" using 2(1) by (simp add: flush_def typing_sel [OF pos])
    have "readLine_loop None wr t p reads = readLine_loop None wr ?t1 p' ?reads"
      using k r room by (subst readLine_loop.simps) (simp add: Let_def)
    moreover have "line_taken wr t (string_of_runes (t_line t @ rs)) later t' reads'"
      using ih(2) typing_silent [of t rs1]
      by (auto simp: 2(1) line_taken_def flush_def typing_sel [OF pos])
    ultimately show ?thesis using ih(1) unfolding line by auto
  qed
qed

text \<open>
  C24: what is typed is what is returned.  Let a line of printable runes (at most 4096, none of them
  the replacement rune) be typed and ended with enter: however the connection cuts its UTF-8
  bytes into reads, \<^verbatim>\<open>ReadLine\<close> ends and returns exactly that line, not marked as pasted; what
  follows the enter is left for the next call, and the line is the newest history entry.
\<close>

theorem ReadLine_returns_typed:
  assumes "list_all typed rs" "length rs \<le> 4096" "all_chunks reads" "t_echo t"
    "t_line t = []" "t_pos t = 0" "\<not> t_pasteActive t"
    "t_remainder t @ chunk_input reads = string_of_runes rs @ CR # later"
  shows "\<exists>t' reads'. ReadLine None wr t reads = Ret (LineRead (string_of_runes rs) False, t', reads')
    \<and> t_remainder t' @ chunk_input reads' = later
    \<and> t_history t' = Add (t_history t) (string_of_runes rs)"
proof -
  let ?t = "if cursorX t = 0 \<and> cursorY t = 0 then flush wr (writeLine t (t_prompt t)) else t"
  have "ready ?t" "t_line ?t = []" "t_remainder ?t = t_remainder t" "t_echo ?t" "t_history ?t = t_history t"
    using assms by (simp_all add: ready_def flush_def)
  with readLine_loop_typed [OF assms(1), of ?t reads later wr "t_pasteActive ?t"] assms show ?thesis
    by (fastforce simp: ReadLine_def readLine_def Let_def line_taken_def maxLineLength_def)
qed

text \<open>
  C26: a password is neither shown nor remembered.  When the password is typed in the same way,
  \<^verbatim>\<open>ReadPassword\<close> returns it, leaves the history as it was, restores prompt and echo, and all that
  the connection receives is the prompt and the final line end, whatever was typed.
\<close>

theorem ReadPassword_silent:
  assumes "list_all typed rs" "length rs \<le> 4096" "all_chunks reads"
    "t_line t = []" "t_pos t = 0" "\<not> t_pasteActive t" "outBuf t = []" "\<forall>w. snd (wr w []) = w"
    "t_remainder t @ chunk_input reads = string_of_runes rs @ CR # later"
  shows "\<exists>t' reads'. ReadPassword None wr t prompt reads = Ret (LineRead (string_of_runes rs) False, t', reads')
    \<and> t_history t' = t_history t \<and> t_prompt t' = t_prompt t \<and> t_echo t'
    \<and> t_conn t' = snd (wr (if cursorX t = 0 \<and> cursorY t = 0
          then snd (wr (t_conn t) (outBuf (writeLine (t\<lparr>t_prompt := runes prompt, t_echo := False\<rparr>) (runes prompt))))
          else t_conn t) crlf)"
proof -
  let ?u = "t\<lparr>t_prompt := runes prompt, t_echo := False\<rparr>"
  let ?t = "if cursorX ?u = 0 \<and> cursorY ?u = 0 then flush wr (writeLine ?u (t_prompt ?u)) else ?u"
  have "ready ?t" "t_line ?t = []" "t_remainder ?t = t_remainder t" "\<not> t_echo ?t" "t_history ?t = t_history t"
    "outBuf ?t = []"
    using assms by (simp_all add: ready_def flush_def)
  with readLine_loop_typed [OF assms(1), of ?t reads later wr "t_pasteActive ?t"] assms
  obtain t' reads' where "readLine None wr ?u reads = Ret (LineRead (string_of_runes rs) False, t', reads')"
    "t_history t' = t_history t" "t_conn t' = snd (wr (t_conn ?t) crlf)"
    by (fastforce simp: readLine_def Let_def line_taken_def maxLineLength_def)
  then show ?thesis by (auto simp: ReadPassword_def flush_def)
qed

text \<open>A connection that collects what is written.\<close>

definition sink :: "string writer" where
  "sink w s = ((length s, None), w @ s)"

definition example_runes :: "rune list" where
  "example_runes = [108, 115, 0xe9]"

definition example_reads :: "read_result list" where
  "example_reads = [Chunk [CHR ''l'', CHR ''s'', char_of (0xc3 :: nat)], Chunk [char_of (0xa9 :: nat), CR, CHR ''q'']]"

lemma example_letters: "char_of (108 :: nat) = CHR ''l''" "char_of (115 :: nat) = CHR ''s''"
  by code_simp+

lemma example_typed_facts:
  "list_all typed example_runes" "length example_runes \<le> 4096" "all_chunks example_reads"
  "t_remainder (NewTerminal [] ''Opt> '') @ chunk_input example_reads = string_of_runes example_runes @ CR # ''q''"
  by (simp_all add: example_runes_def example_reads_def typed_def valid_rune_def RuneError_def all_chunks_def
      chunk_input_def NewTerminal_def string_of_runes_def EncodeRune_def example_letters)

theorem ReadLine_returns_typed_witness:
  "\<exists>t' reads'. ReadLine None sink (NewTerminal [] ''Opt> '') example_reads
      = Ret (LineRead (string_of_runes example_runes) False, t', reads')
    \<and> t_remainder t' @ chunk_input reads' = ''q''"
proof -
  have "t_echo (NewTerminal [] ''Opt> '')" "t_line (NewTerminal [] ''Opt> '') = []"
    "t_pos (NewTerminal [] ''Opt> '') = 0" "\<not> t_pasteActive (NewTerminal [] ''Opt> '')"
    by (simp_all add: NewTerminal_def)
  from ReadLine_returns_typed [OF example_typed_facts(1-3) this example_typed_facts(4), of sink] show ?thesis by blast
qed

theorem ReadPassword_silent_witness:
  "\<exists>t' reads'. ReadPassword None sink ((NewTerminal [] ''Opt> '')\<lparr>cursorX := 1\<rparr>) ''password: '' example_reads
      = Ret (LineRead (string_of_runes example_runes) False, t', reads') \<and> t_conn t' = crlf"
proof -
  let ?t = "(NewTerminal [] ''Opt> '')\<lparr>cursorX := 1\<rparr>"
  have "t_line ?t = []" "t_pos ?t = 0" "\<not> t_pasteActive ?t" "outBuf ?t = []" "\<forall>w. snd (sink w []) = w"
    "t_remainder ?t @ chunk_input example_reads = string_of_runes example_runes @ CR # ''q''"
    using example_typed_facts(4) by (simp_all add: NewTerminal_def sink_def)
  with ReadPassword_silent [of example_runes example_reads ?t sink "''q''" "''password: ''"] example_typed_facts(1-3)
  show ?thesis by (auto simp: sink_def NewTerminal_def)
qed

section \<open>Written text\<close>

definition with_crlf :: "string \<Rightarrow> string" where
  "with_crlf s = concat (map (\<lambda>c. if c = char_of (10 :: nat) then crlf else [c]) s)"

lemma IndexByte_split:
  "IndexByte s c = Some i \<Longrightarrow> s = take i s @ c # drop (Suc i) s \<and> c \<notin> set (take i s)"
proof (induction s arbitrary: i)
  case (Cons x s)
  then show ?case by (auto split: if_splits)
qed simp

lemma IndexByte_None: "IndexByte s c = None \<longleftrightarrow> c \<notin> set s"
  by (induction s) auto

lemma with_crlf_simple: "char_of (10 :: nat) \<notin> set s \<Longrightarrow> with_crlf s = s"
  by (induction s) (auto simp: with_crlf_def)

lemma with_crlf_append: "with_crlf (a @ b) = with_crlf a @ with_crlf b"
  by (simp add: with_crlf_def)

lemma with_crlf_lf: "with_crlf (char_of (10 :: nat) # b) = crlf @ with_crlf b"
  by (simp add: with_crlf_def)

text \<open>
  Text written to the terminal arrives with every line feed turned into carriage return and
  line feed, nothing else changed, and the returned count is the length of the original text.
\<close>

theorem writeWithCRLF_correct:
  "writeWithCRLF sink w buf 0 = ((length buf, None), w @ with_crlf buf)"
proof -
  have "writeWithCRLF sink w buf n = ((n + length buf, None), w @ with_crlf buf)" for n
  proof (induction "length buf" arbitrary: buf w n rule: less_induct)
    case less
    show ?case
    proof (cases "IndexByte buf (char_of (10 :: nat))")
      case None
      then have "with_crlf buf = buf" by (simp add: IndexByte_None with_crlf_simple)
      with None show ?thesis by (subst writeWithCRLF.simps) (simp add: sink_def)
    next
      case (Some i)
      note sp = IndexByte_split [OF Some]
      have lt: "i < length buf" using IndexByte_less [OF Some] .
      have w: "with_crlf buf = take i buf @ crlf @ with_crlf (drop (Suc i) buf)"
        using sp by (metis with_crlf_append with_crlf_lf with_crlf_simple)
      have "writeWithCRLF sink (w @ take i buf @ crlf) (drop (Suc i) buf) (Suc (n + i))
          = ((n + length buf, None), w @ take i buf @ crlf @ with_crlf (drop (Suc i) buf))"
        using less.hyps [of "drop (Suc i) buf" "w @ take i buf @ crlf" "Suc (n + i)"] lt by simp
      with Some lt w show ?thesis
        by (subst writeWithCRLF.simps) (auto simp: sink_def Let_def)
    qed
  qed
  from this [of 0] show ?thesis by simp
qed

section \<open>Reading lines until the end\<close>

lemma readLines_keys_typed:
  assumes "typed r" "\<not> t_pasteActive t" "length (t_line t) < maxLineLength"
  shows "readLines_keys None t ls (EncodeRune r @ rest) = readLines_keys None (addKeyToLine t r) ls rest"
proof -
  have "r \<noteq> RuneError" using assms(1) by (simp add: typed_def)
  moreover have "handleKey None t r = Ret (([], False), addKeyToLine t r)"
    using handleKey_default [OF assms(2) typed_not_special(1,2) [OF assms(1)]] typed_not_special(5) [OF assms(1)] assms(3)
    by (simp add: insertPrintable_def)
  ultimately show ?thesis
    using assms(2) bytesToKey_typed [OF assms(1), of rest] typed_not_special(3,4) [OF assms(1)]
    by (subst readLines_keys.simps) (simp add: Let_def)
qed

lemma ready_add: "ready t \<Longrightarrow> ready (addKeyToLine t r)"
  using off_screen_sel(4) [of "addKeyToLine t r"] by (simp add: ready_def off_screen_add off_screen_sel)

lemma readLines_keys_typing:
  assumes "list_all typed rs" "ready t" "length (t_line t) + length rs \<le> maxLineLength"
  shows "readLines_keys None t ls (string_of_runes rs @ rest) = readLines_keys None (typing rs t) ls rest"
  using assms
proof (induction rs arbitrary: t)
  case (Cons r rs)
  have "length (t_line (addKeyToLine t r)) + length rs \<le> maxLineLength"
    using Cons.prems by (simp add: ready_def)
  with Cons.IH [of "addKeyToLine t r"] Cons.prems ready_add [of t r]
    readLines_keys_typed [of r t ls "string_of_runes rs @ rest"] show ?case
    by (simp add: string_of_runes_def typing_def ready_def)
qed (simp add: typing_def string_of_runes_def)

lemma readLines_keys_enter:
  assumes "\<not> t_pasteActive t"
  shows "readLines_keys None t ls (CR # rest) = readLines_keys None
     (reset_line (queue (moveCursorToPos t (length (t_line t))) [13, 10])) (ls @ [string_of_runes (t_line t)]) rest"
  using assms by (subst readLines_keys.simps) (simp add: bytesToKey_CR handleKey_def key_defs RuneError_def)

definition typed_lines :: "rune list list \<Rightarrow> string" where
  "typed_lines lss = concat (map (\<lambda>rs. string_of_runes rs @ [CR]) lss)"

lemma readLines_keys_lines:
  assumes "list_all (\<lambda>rs. list_all typed rs \<and> length rs \<le> maxLineLength) lss" "ready t" "t_line t = []"
  shows "\<exists>t'. readLines_keys None t ls (typed_lines lss) = Ret (Some [], ls @ map string_of_runes lss, t')
    \<and> t_history t' = t_history t \<and> t_conn t' = t_conn t"
  using assms
proof (induction lss arbitrary: t ls)
  case Nil
  then show ?case by (auto simp: typed_lines_def readLines_keys.simps)
next
  case (Cons rs lss)
  have pos: "t_pos t = length (t_line t)" using Cons.prems(2) by (simp add: ready_def)
  let ?u = "reset_line (queue (moveCursorToPos (typing rs t) (length (t_line (typing rs t)))) [13, 10])"
  have u: "ready ?u" "t_line ?u = []" "t_history ?u = t_history t" "t_conn ?u = t_conn t"
    using Cons.prems(2) by (simp_all add: ready_def reset_line_def typing_sel [OF pos])
  have "readLines_keys None t ls (typed_lines (rs # lss)) = readLines_keys None ?u (ls @ [string_of_runes rs]) (typed_lines lss)"
    using readLines_keys_typing [of rs t ls "CR # typed_lines lss"] readLines_keys_enter [of "typing rs t" ls "typed_lines lss"] Cons.prems
    by (simp add: typed_lines_def ready_def typing_sel [OF pos])
  with Cons.IH [OF _ u(1,2), of "ls @ [string_of_runes rs]"] Cons.prems(1) u(3,4) show ?case by auto
qed

text \<open>
  \<^verbatim>\<open>ReadLines\<close> on lines that were typed already returns all of them, in order, when the connection ends; unlike \<^verbatim>\<open>ReadLine\<close> it keeps no
  history and sends nothing but the prompt.
\<close>

theorem ReadLines_returns_typed:
  assumes "list_all (\<lambda>rs. list_all typed rs \<and> length rs \<le> maxLineLength) lss" "t_remainder t = typed_lines lss"
    "t_line t = []" "t_pos t = 0" "\<not> t_pasteActive t"
  shows "\<exists>t'. ReadLines None wr t [ReadFailed e] = Ret (LinesFailed (map string_of_runes lss) e, t', [])
    \<and> t_history t' = t_history t
    \<and> t_conn t' = (if cursorX t = 0 \<and> cursorY t = 0 then t_conn (flush wr (writeLine t (t_prompt t))) else t_conn t)"
proof -
  let ?t = "if cursorX t = 0 \<and> cursorY t = 0 then flush wr (writeLine t (t_prompt t)) else t"
  have t: "ready ?t" "t_line ?t = []" "t_remainder ?t = typed_lines lss" "t_history ?t = t_history t"
    using assms by (simp_all add: ready_def flush_def)
  from readLines_keys_lines [OF assms(1) t(1,2), of "[]"] obtain t' where
    "readLines_keys None ?t [] (t_remainder ?t) = Ret (Some [], map string_of_runes lss, t')"
    "t_history t' = t_history t" "t_conn t' = t_conn ?t" unfolding t(3,4) by auto
  then show ?thesis
    unfolding ReadLines_def Let_def by (subst readLines_loop.simps) (simp add: Let_def)
qed

end
