(* ===== verification/SshServer.thy ===== *)
theory SshServer
  imports SshSession
begin

text \<open>
  The SSH server library of the repository, second part: the connection context
  (\<^verbatim>\<open>pkg/ssh/context.go\<close>), the deadlines of a connection (\<^verbatim>\<open>pkg/ssh/conn.go\<close>), and the server with
  its host keys, its authentication callbacks, its accept loop, and its registers of listeners and
  connections (\<^verbatim>\<open>pkg/ssh/server.go\<close>, \<^verbatim>\<open>pkg/ssh/options.go\<close>).
\<close>

section \<open>Connection contexts\<close>

datatype contextKey =
  ContextKeyUser | ContextKeySessionID | ContextKeyPermissions | ContextKeyClientVersion
| ContextKeyServerVersion | ContextKeyLocalAddr | ContextKeyRemoteAddr | ContextKeyServer
| ContextKeyConn | ContextKeyPublicKey | OtherKey string

text \<open>Values by their dynamic type; the server and the permissions are the objects of this connection.\<close>

datatype ctxvalue = CString string | CAddr string | CPermissions | CServer | CConn nat | CPublicKey string | CBool bool

text \<open>A context is its chain of \<^verbatim>\<open>context.WithValue\<close> layers, the innermost first.\<close>

type_synonym sshContext = "(contextKey \<times> ctxvalue) list"

definition SetValue :: "contextKey \<Rightarrow> ctxvalue \<Rightarrow> sshContext \<Rightarrow> sshContext" where
  "SetValue k v ctx = (k, v) # ctx"

definition ctx_Value :: "sshContext \<Rightarrow> contextKey \<Rightarrow> ctxvalue option" where
  "ctx_Value ctx k = map_of ctx k"

definition newContext :: sshContext where
  "newContext = SetValue ContextKeyPermissions CPermissions (SetValue ContextKeyServer CServer [])"

record ConnMetadata =
  md_SessionID :: string
  md_ClientVersion :: string
  md_ServerVersion :: string
  md_User :: string
  md_LocalAddr :: string
  md_RemoteAddr :: string

definition hexdigit :: "nat \<Rightarrow> char" where
  "hexdigit n = (if n < 10 then char_of (48 + n) else char_of (87 + n))"

definition hex_EncodeToString :: "string \<Rightarrow> string" where
  "hex_EncodeToString b = concat (map (\<lambda>c. [hexdigit (of_char c div 16), hexdigit (of_char c mod 16)]) b)"

definition applyConnMetadata :: "sshContext \<Rightarrow> ConnMetadata \<Rightarrow> sshContext" where
  "applyConnMetadata ctx conn =
     (if ctx_Value ctx ContextKeySessionID \<noteq> None then ctx
      else SetValue ContextKeyRemoteAddr (CAddr (md_RemoteAddr conn))
          (SetValue ContextKeyLocalAddr (CAddr (md_LocalAddr conn))
          (SetValue ContextKeyUser (CString (md_User conn))
          (SetValue ContextKeyServerVersion (CString (md_ServerVersion conn))
          (SetValue ContextKeyClientVersion (CString (md_ClientVersion conn))
          (SetValue ContextKeySessionID (CString (hex_EncodeToString (md_SessionID conn))) ctx))))))"

text \<open>The type assertions of the accessors panic on a missing or differently typed value.\<close>

definition assert_string :: "ctxvalue option \<Rightarrow> string outcome" where
  "assert_string v = (case v of Some (CString s) \<Rightarrow> Ret s | _ \<Rightarrow> Panic TypeAssertion)"

definition ctx_User :: "sshContext \<Rightarrow> string outcome" where
  "ctx_User ctx = assert_string (ctx_Value ctx ContextKeyUser)"

definition ctx_SessionID :: "sshContext \<Rightarrow> string outcome" where
  "ctx_SessionID ctx = assert_string (ctx_Value ctx ContextKeySessionID)"

definition ctx_ClientVersion :: "sshContext \<Rightarrow> string outcome" where
  "ctx_ClientVersion ctx = assert_string (ctx_Value ctx ContextKeyClientVersion)"

definition ctx_ServerVersion :: "sshContext \<Rightarrow> string outcome" where
  "ctx_ServerVersion ctx = assert_string (ctx_Value ctx ContextKeyServerVersion)"

definition ctx_RemoteAddr :: "sshContext \<Rightarrow> string option" where
  "ctx_RemoteAddr ctx = (case ctx_Value ctx ContextKeyRemoteAddr of Some (CAddr a) \<Rightarrow> Some a | _ \<Rightarrow> None)"

definition ctx_LocalAddr :: "sshContext \<Rightarrow> string outcome" where
  "ctx_LocalAddr ctx = (case ctx_Value ctx ContextKeyLocalAddr of Some (CAddr a) \<Rightarrow> Ret a | _ \<Rightarrow> Panic TypeAssertion)"

definition ctx_Permissions :: "sshContext \<Rightarrow> unit outcome" where
  "ctx_Permissions ctx = (case ctx_Value ctx ContextKeyPermissions of Some CPermissions \<Rightarrow> Ret () | _ \<Rightarrow> Panic TypeAssertion)"

text \<open>The accessors of a session that read the context of its connection.\<close>

definition session_PublicKey :: "sshContext \<Rightarrow> string option outcome" where
  "session_PublicKey ctx =
     (case ctx_Value ctx ContextKeyPublicKey of
        None \<Rightarrow> Ret None
      | Some (CPublicKey k) \<Rightarrow> Ret (Some k)
      | Some _ \<Rightarrow> Panic TypeAssertion)"

definition session_Permissions :: "sshContext \<Rightarrow> unit outcome" where
  "session_Permissions ctx = (case ctx_Value ctx ContextKeyPermissions of Some CPermissions \<Rightarrow> Ret () | _ \<Rightarrow> Panic TypeAssertion)"

section \<open>Deadlines of a connection\<close>

text \<open>Times are nanoseconds; \<open>None\<close> is the zero \<^verbatim>\<open>time.Time\<close>, whose \<^verbatim>\<open>Unix\<close> value is that of year 1.\<close>

record serverConn =
  idleTimeout :: int
  maxDeadline :: "int option"
  set_deadline :: "int option"
  closeCanceler :: bool
  ctx_cancelled :: bool

definition Unix :: "int option \<Rightarrow> int" where
  "Unix t = (case t of None \<Rightarrow> - 62135596800 | Some n \<Rightarrow> n div 1000000000)"

definition updateDeadline :: "int \<Rightarrow> serverConn \<Rightarrow> serverConn" where
  "updateDeadline now c =
     (if idleTimeout c > 0 \<and> (Unix (Some (now + idleTimeout c)) < Unix (maxDeadline c) \<or> maxDeadline c = None)
      then c\<lparr>set_deadline := Some (now + idleTimeout c)\<rparr>
      else c\<lparr>set_deadline := maxDeadline c\<rparr>)"

text \<open>
  The operations of the connection; what the network answers is an input, the flag of an error telling whether it is a \<^verbatim>\<open>net.Error\<close>.
  \<open>closeCanceler\<close> tells whether there is a function to cancel the context.
\<close>

definition cancel_conn :: "serverConn \<Rightarrow> serverConn" where
  "cancel_conn c = (if closeCanceler c then c\<lparr>ctx_cancelled := True\<rparr> else c)"

definition conn_Write :: "int \<Rightarrow> nat \<times> (goerror \<times> bool) option \<Rightarrow> serverConn \<Rightarrow> (nat \<times> (goerror \<times> bool) option) \<times> serverConn" where
  "conn_Write now answer c =
     (let c = updateDeadline now c
      in (answer, case snd answer of Some (_, True) \<Rightarrow> cancel_conn c | _ \<Rightarrow> c))"

definition conn_Read :: "int \<Rightarrow> string \<times> (goerror \<times> bool) option \<Rightarrow> serverConn \<Rightarrow> (string \<times> (goerror \<times> bool) option) \<times> serverConn" where
  "conn_Read now answer c =
     (let c = updateDeadline now c
      in (answer, case snd answer of Some (_, True) \<Rightarrow> cancel_conn c | _ \<Rightarrow> c))"

definition conn_Close :: "goerror option \<Rightarrow> serverConn \<Rightarrow> goerror option \<times> serverConn" where
  "conn_Close err c = (err, cancel_conn c)"

section \<open>The server\<close>

text \<open>
  Signers, listeners and network connections are opaque, SSH connections are numbered; a handler that the server only selects and starts
  is opaque too.  The authentication handlers may write to the context.  \<open>doneChan\<close> is \<open>None\<close>
  when nil, and otherwise tells whether the channel is closed.
\<close>

record ('k, 'h, 'l, 'c) Server =
  srv_Addr :: string
  srv_Handler :: "'h option"
  HostSigners :: "'k list"
  Version :: string
  KeyboardInteractiveHandler :: "(sshContext \<Rightarrow> (string \<Rightarrow> string) \<Rightarrow> bool \<times> sshContext) option"
  PasswordHandler :: "(sshContext \<Rightarrow> string \<Rightarrow> bool \<times> sshContext) option"
  PublicKeyHandler :: "(sshContext \<Rightarrow> string \<Rightarrow> bool \<times> sshContext) option"
  srv_PtyCallback :: "(sshContext \<Rightarrow> Pty \<Rightarrow> bool) option"
  srv_ConnCallback :: "(sshContext \<Rightarrow> 'c \<Rightarrow> 'c option) option"
  IdleTimeout :: int
  MaxTimeout :: int
  ChannelHandlers :: "(string \<rightharpoonup> 'h) option"
  RequestHandlers :: "(string \<rightharpoonup> 'h) option"
  SubsystemHandlers :: "(string \<rightharpoonup> 'h) option"
  listenerWg :: int
  listeners :: "'l set"
  conns :: "nat set"
  connWg :: int
  doneChan :: "bool option"

definition ErrServerClosed :: goerror where "ErrServerClosed = ''ssh: Server closed''"

definition ensureHostSigner :: "'k result \<Rightarrow> ('k, 'h, 'l, 'c) Server \<Rightarrow> goerror option \<times> ('k, 'h, 'l, 'c) Server" where
  "ensureHostSigner generateSigner srv =
     (if length (HostSigners srv) = 0 then
        (case generateSigner of
           Inl err \<Rightarrow> (Some err, srv)
         | Inr signer \<Rightarrow> (None, srv\<lparr>HostSigners := HostSigners srv @ [signer]\<rparr>))
      else (None, srv))"

text \<open>\<open>session\<close> is \<^verbatim>\<open>DefaultSessionHandler\<close>, the only handler of the default maps.\<close>

definition ensureHandlers :: "'h \<Rightarrow> ('k, 'h, 'l, 'c) Server \<Rightarrow> ('k, 'h, 'l, 'c) Server" where
  "ensureHandlers session srv =
     (let srv = (if RequestHandlers srv = None then srv\<lparr>RequestHandlers := Some Map.empty\<rparr> else srv);
          srv = (if ChannelHandlers srv = None then srv\<lparr>ChannelHandlers := Some [''session'' \<mapsto> session]\<rparr> else srv)
      in if SubsystemHandlers srv = None then srv\<lparr>SubsystemHandlers := Some Map.empty\<rparr> else srv)"

text \<open>
  The configuration of the SSH library.  \<open>added_keys\<close> are the keys given to its \<^verbatim>\<open>AddHostKey\<close>, in order;
  a callback returns the error and the context it leaves.
\<close>

record 'k ServerConfig =
  added_keys :: "'k list"
  NoClientAuth :: bool
  ServerVersion :: string
  PasswordCallback :: "(sshContext \<Rightarrow> ConnMetadata \<Rightarrow> string \<Rightarrow> goerror option \<times> sshContext) option"
  PublicKeyCallback :: "(sshContext \<Rightarrow> ConnMetadata \<Rightarrow> string \<Rightarrow> goerror option \<times> sshContext) option"
  KeyboardInteractiveCallback :: "(sshContext \<Rightarrow> ConnMetadata \<Rightarrow> (string \<Rightarrow> string) \<Rightarrow> goerror option \<times> sshContext) option"

definition verdict_of :: "bool \<times> sshContext \<Rightarrow> goerror option \<times> sshContext" where
  "verdict_of r = (if fst r then (None, snd r) else (Some ''permission denied'', snd r))"

definition config :: "'k ServerConfig \<Rightarrow> ('k, 'h, 'l, 'c) Server \<Rightarrow> 'k ServerConfig" where
  "config base srv =
     base\<lparr>added_keys := added_keys base @ HostSigners srv,
       NoClientAuth := (if PasswordHandler srv = None \<and> PublicKeyHandler srv = None
           \<and> KeyboardInteractiveHandler srv = None then True else NoClientAuth base),
       ServerVersion := (if Version srv \<noteq> [] then ''SSH-2.0-'' @ Version srv else ServerVersion base),
       PasswordCallback := (case PasswordHandler srv of None \<Rightarrow> PasswordCallback base
         | Some h \<Rightarrow> Some (\<lambda>ctx conn password. verdict_of (h (applyConnMetadata ctx conn) password))),
       PublicKeyCallback := (case PublicKeyHandler srv of None \<Rightarrow> PublicKeyCallback base
         | Some h \<Rightarrow> Some (\<lambda>ctx conn key.
             (case h (applyConnMetadata ctx conn) key of
                (False, ctx) \<Rightarrow> (Some ''permission denied'', ctx)
              | (True, ctx) \<Rightarrow> (None, SetValue ContextKeyPublicKey (CPublicKey key) ctx)))),
       KeyboardInteractiveCallback := (case KeyboardInteractiveHandler srv of None \<Rightarrow> KeyboardInteractiveCallback base
         | Some h \<Rightarrow> Some (\<lambda>ctx conn challenger. verdict_of (h (applyConnMetadata ctx conn) challenger)))\<rparr>"

definition Handle :: "'h \<Rightarrow> ('k, 'h, 'l, 'c) Server \<Rightarrow> ('k, 'h, 'l, 'c) Server" where
  "Handle fn srv = srv\<lparr>srv_Handler := Some fn\<rparr>"

text \<open>\<^verbatim>\<open>AddHostKey\<close>: \<open>ktype\<close> is the type of the public key of a signer.\<close>

fun replace_key :: "('k \<Rightarrow> string) \<Rightarrow> 'k \<Rightarrow> 'k list \<Rightarrow> 'k list option" where
  "replace_key ktype key [] = None"
| "replace_key ktype key (k # ks) =
     (if ktype k = ktype key then Some (key # ks) else map_option ((#) k) (replace_key ktype key ks))"

definition AddHostKey :: "('k \<Rightarrow> string) \<Rightarrow> 'k \<Rightarrow> ('k, 'h, 'l, 'c) Server \<Rightarrow> ('k, 'h, 'l, 'c) Server" where
  "AddHostKey ktype key srv =
     (case replace_key ktype key (HostSigners srv) of
        Some ks \<Rightarrow> srv\<lparr>HostSigners := ks\<rparr>
      | None \<Rightarrow> srv\<lparr>HostSigners := HostSigners srv @ [key]\<rparr>)"

definition getDoneChan :: "('k, 'h, 'l, 'c) Server \<Rightarrow> bool \<times> ('k, 'h, 'l, 'c) Server" where
  "getDoneChan srv = (case doneChan srv of Some b \<Rightarrow> (b, srv) | None \<Rightarrow> (False, srv\<lparr>doneChan := Some False\<rparr>))"

definition closeDoneChan :: "('k, 'h, 'l, 'c) Server \<Rightarrow> ('k, 'h, 'l, 'c) Server" where
  "closeDoneChan srv = (case getDoneChan srv of (True, srv) \<Rightarrow> srv | (False, srv) \<Rightarrow> srv\<lparr>doneChan := Some True\<rparr>)"

text \<open>\<^verbatim>\<open>closeListenersLocked\<close>, the listeners closed in the order \<open>order\<close> of the map iteration.\<close>

fun closeListeners :: "('l \<Rightarrow> goerror option) \<Rightarrow> 'l list \<Rightarrow> goerror option \<Rightarrow> ('k, 'h, 'l, 'c) Server
    \<Rightarrow> goerror option \<times> ('k, 'h, 'l, 'c) Server" where
  "closeListeners cl [] err srv = (err, srv)"
| "closeListeners cl (ln # order) err srv =
     closeListeners cl order (if cl ln \<noteq> None \<and> err = None then cl ln else err)
       (srv\<lparr>listeners := listeners srv - {ln}\<rparr>)"

definition server_Close :: "('l \<Rightarrow> goerror option) \<Rightarrow> 'l list \<Rightarrow> ('k, 'h, 'l, 'c) Server
    \<Rightarrow> goerror option \<times> ('k, 'h, 'l, 'c) Server" where
  "server_Close cl order srv =
     (let (err, srv) = closeListeners cl order None (closeDoneChan srv) in (err, srv\<lparr>conns := {}\<rparr>))"

text \<open>\<^verbatim>\<open>Shutdown\<close>: \<open>expired\<close> is the error of the context when that comes before the last connection ends.\<close>

definition Shutdown :: "('l \<Rightarrow> goerror option) \<Rightarrow> 'l list \<Rightarrow> goerror option \<Rightarrow> ('k, 'h, 'l, 'c) Server
    \<Rightarrow> goerror option \<times> ('k, 'h, 'l, 'c) Server" where
  "Shutdown cl order expired srv =
     (let (lnerr, srv) = closeListeners cl order None srv; srv = closeDoneChan srv
      in (case expired of Some err \<Rightarrow> (Some err, srv) | None \<Rightarrow> (lnerr, srv)))"

definition trackListener :: "'l \<Rightarrow> bool \<Rightarrow> ('k, 'h, 'l, 'c) Server \<Rightarrow> ('k, 'h, 'l, 'c) Server" where
  "trackListener ln add srv =
     (if add then
        (let srv = (if listeners srv = {} \<and> conns srv = {} then srv\<lparr>doneChan := None\<rparr> else srv)
         in srv\<lparr>listeners := insert ln (listeners srv), listenerWg := listenerWg srv + 1\<rparr>)
      else srv\<lparr>listeners := listeners srv - {ln}, listenerWg := listenerWg srv - 1\<rparr>)"

definition trackConn :: "nat \<Rightarrow> bool \<Rightarrow> ('k, 'h, 'l, 'c) Server \<Rightarrow> ('k, 'h, 'l, 'c) Server" where
  "trackConn c add srv =
     (if add then srv\<lparr>conns := insert c (conns srv), connWg := connWg srv + 1\<rparr>
      else srv\<lparr>conns := conns srv - {c}, connWg := connWg srv - 1\<rparr>)"

section \<open>The accept loop\<close>

text \<open>
  What \<^verbatim>\<open>l.Accept\<close> returns: a connection, or an error that is temporary or not; \<open>closed\<close> tells
  whether the done channel is closed when the error is looked at.
\<close>

datatype 'c accepted = Accepted 'c | AcceptError goerror bool bool

definition next_delay :: "int \<Rightarrow> int" where
  "next_delay tempDelay =
     (let d = (if tempDelay = 0 then 5000000 else tempDelay * 2) in if d > 1000000000 then 1000000000 else d)"

text \<open>The loop of \<^verbatim>\<open>Serve\<close>: the error it returns (\<open>None\<close>: still serving), the delays slept, the connections started.\<close>

fun Serve_loop :: "int \<Rightarrow> 'c accepted list \<Rightarrow> goerror option \<times> int list \<times> 'c list" where
  "Serve_loop tempDelay [] = (None, [], [])"
| "Serve_loop tempDelay (Accepted c # es) =
     (let (r, ds, cs) = Serve_loop tempDelay es in (r, ds, c # cs))"
| "Serve_loop tempDelay (AcceptError e temporary closed # es) =
     (if closed then (Some ErrServerClosed, [], [])
      else if temporary then
        (let d = next_delay tempDelay; (r, ds, cs) = Serve_loop d es in (r, d # ds, cs))
      else (Some e, [], []))"

definition Serve :: "'h \<Rightarrow> 'k result \<Rightarrow> 'h option \<Rightarrow> 'l \<Rightarrow> 'c accepted list \<Rightarrow> ('k, 'h, 'l, 'c) Server
    \<Rightarrow> (goerror option \<times> int list \<times> 'c list) \<times> ('k, 'h, 'l, 'c) Server" where
  "Serve session generateSigner DefaultHandler l events srv =
     (let srv = ensureHandlers session srv in
      case ensureHostSigner generateSigner srv of
        (Some err, srv) \<Rightarrow> ((Some err, [], []), srv)
      | (None, srv) \<Rightarrow>
          (let srv = (if srv_Handler srv = None then srv\<lparr>srv_Handler := DefaultHandler\<rparr> else srv);
               srv = trackListener l True srv;
               res = Serve_loop 0 events
           in (res, if fst res = None then srv else trackListener l False srv)))"

section \<open>Serving one connection\<close>

definition find_handler :: "(string \<rightharpoonup> 'h) option \<Rightarrow> string \<Rightarrow> 'h option" where
  "find_handler hs tp =
     (case (case hs of None \<Rightarrow> None | Some m \<Rightarrow> m tp) of
        Some h \<Rightarrow> Some h
      | None \<Rightarrow> (case hs of None \<Rightarrow> None | Some m \<Rightarrow> m ''default''))"

datatype 'h channel_action = Started 'h | RejectedUnknownType

definition dispatch_channel :: "('k, 'h, 'l, 'c) Server \<Rightarrow> string \<Rightarrow> 'h channel_action" where
  "dispatch_channel srv tp = (case find_handler (ChannelHandlers srv) tp of Some h \<Rightarrow> Started h | None \<Rightarrow> RejectedUnknownType)"

text \<open>
  The end of \<^verbatim>\<open>HandleConn\<close>: refused by the callback, failed in the handshake, or served, with
  what was done for each channel the peer opened.  \<open>handshake\<close> is the library's \<^verbatim>\<open>NewServerConn\<close>, run with the
  configuration, which returns the metadata, the context the callbacks left, and the channel types.
\<close>

datatype 'h conn_end = RefusedByCallback | HandshakeFailed goerror | Served sshContext "'h channel_action list"

definition HandleConn ::
  "'k ServerConfig \<Rightarrow> int
   \<Rightarrow> ('k ServerConfig \<Rightarrow> sshContext \<Rightarrow> (ConnMetadata \<times> nat \<times> sshContext \<times> string list) result)
   \<Rightarrow> 'c \<Rightarrow> ('k, 'h, 'l, 'c) Server \<Rightarrow> 'h conn_end \<times> serverConn option \<times> ('k, 'h, 'l, 'c) Server" where
  "HandleConn base now handshake newConn srv =
     (let ctx = newContext in
      case (case srv_ConnCallback srv of None \<Rightarrow> Some newConn | Some cb \<Rightarrow> cb ctx newConn) of
        None \<Rightarrow> (RefusedByCallback, None, srv)
      | Some c \<Rightarrow>
          (let conn = \<lparr>idleTimeout = IdleTimeout srv,
                 maxDeadline = (if MaxTimeout srv > 0 then Some (now + MaxTimeout srv) else None), set_deadline = None,
                 closeCanceler = True, ctx_cancelled = False\<rparr>;
               closed = snd (conn_Close None conn)
           in case handshake (config base srv) ctx of
                Inl err \<Rightarrow> (HandshakeFailed err, Some closed, srv)
              | Inr (md, sshConn, ctx, chans) \<Rightarrow>
                  (let srv = trackConn sshConn True srv;
                       ctx = applyConnMetadata (SetValue ContextKeyConn (CConn sshConn) ctx) md;
                       acts = map (dispatch_channel srv) chans
                   in (Served ctx acts, Some closed, trackConn sshConn False srv))))"

text \<open>\<^verbatim>\<open>handleRequests\<close>: the reply to each global request, \<open>run\<close> being the selected handler's result.\<close>

definition server_handleRequests :: "('h \<Rightarrow> string \<Rightarrow> bool \<times> string) \<Rightarrow> ('k, 'h, 'l, 'c) Server \<Rightarrow> string list \<Rightarrow> (bool \<times> string) list" where
  "server_handleRequests run srv reqs =
     map (\<lambda>tp. case find_handler (RequestHandlers srv) tp of None \<Rightarrow> (False, []) | Some h \<Rightarrow> run h tp) reqs"

definition ListenAndServe_addr :: "('k, 'h, 'l, 'c) Server \<Rightarrow> string" where
  "ListenAndServe_addr srv = (if srv_Addr srv = [] then '':22'' else srv_Addr srv)"

section \<open>Options\<close>

type_synonym ('k, 'h, 'l, 'c) Option = "('k, 'h, 'l, 'c) Server \<Rightarrow> goerror option \<times> ('k, 'h, 'l, 'c) Server"

definition PasswordAuth :: "(sshContext \<Rightarrow> string \<Rightarrow> bool \<times> sshContext) \<Rightarrow> ('k, 'h, 'l, 'c) Option" where
  "PasswordAuth fn srv = (None, srv\<lparr>PasswordHandler := Some fn\<rparr>)"

definition PublicKeyAuth :: "(sshContext \<Rightarrow> string \<Rightarrow> bool \<times> sshContext) \<Rightarrow> ('k, 'h, 'l, 'c) Option" where
  "PublicKeyAuth fn srv = (None, srv\<lparr>PublicKeyHandler := Some fn\<rparr>)"

definition KeyboardInteractiveAuth :: "(sshContext \<Rightarrow> (string \<Rightarrow> string) \<Rightarrow> bool \<times> sshContext) \<Rightarrow> ('k, 'h, 'l, 'c) Option" where
  "KeyboardInteractiveAuth fn srv = (None, srv\<lparr>KeyboardInteractiveHandler := Some fn\<rparr>)"

definition HostKeyPEM :: "('k \<Rightarrow> string) \<Rightarrow> (string \<Rightarrow> 'k result) \<Rightarrow> string \<Rightarrow> ('k, 'h, 'l, 'c) Option" where
  "HostKeyPEM ktype ParsePrivateKey bytes srv =
     (case ParsePrivateKey bytes of Inl err \<Rightarrow> (Some err, srv) | Inr signer \<Rightarrow> (None, AddHostKey ktype signer srv))"

definition HostKeyFile :: "('k \<Rightarrow> string) \<Rightarrow> (string \<Rightarrow> 'k result) \<Rightarrow> (string \<Rightarrow> string result) \<Rightarrow> string \<Rightarrow> ('k, 'h, 'l, 'c) Option" where
  "HostKeyFile ktype ParsePrivateKey ReadFile filepath srv =
     (case ReadFile filepath of Inl err \<Rightarrow> (Some err, srv)
      | Inr pemBytes \<Rightarrow>
          (case ParsePrivateKey pemBytes of Inl err \<Rightarrow> (Some err, srv) | Inr signer \<Rightarrow> (None, AddHostKey ktype signer srv)))"

definition NoPty :: "('k, 'h, 'l, 'c) Option" where
  "NoPty srv = (None, srv\<lparr>srv_PtyCallback := Some (\<lambda>ctx pty. False)\<rparr>)"

definition WrapConn :: "(sshContext \<Rightarrow> 'c \<Rightarrow> 'c option) \<Rightarrow> ('k, 'h, 'l, 'c) Option" where
  "WrapConn fn srv = (None, srv\<lparr>srv_ConnCallback := Some fn\<rparr>)"

text \<open>The options of \<^verbatim>\<open>ssh.Serve\<close> and \<^verbatim>\<open>ssh.ListenAndServe\<close>, applied in order up to the first error.\<close>

fun apply_options :: "('k, 'h, 'l, 'c) Option list \<Rightarrow> ('k, 'h, 'l, 'c) Option" where
  "apply_options [] srv = (None, srv)"
| "apply_options (opt # opts) srv = (case opt srv of (Some err, srv) \<Rightarrow> (Some err, srv) | (None, srv) \<Rightarrow> apply_options opts srv)"

definition KeysEqual :: "string option \<Rightarrow> string option \<Rightarrow> bool" where
  "KeysEqual ak bk = (case (ak, bk) of (Some a, Some b) \<Rightarrow> length a = length b \<and> a = b | _ \<Rightarrow> False)"

section \<open>Host keys\<close>

lemma replace_key_None: "replace_key ktype key ks = None \<longleftrightarrow> ktype key \<notin> ktype ` set ks"
  by (induction ks) auto

lemma replace_key_types: "replace_key ktype key ks = Some ks' \<Longrightarrow> map ktype ks' = map ktype ks"
  by (induction ks arbitrary: ks') (auto split: if_splits)

lemma replace_key_find:
  "replace_key ktype key ks = Some ks' \<Longrightarrow>
    find (\<lambda>k. ktype k = t) ks' = (if ktype key = t then Some key else find (\<lambda>k. ktype k = t) ks)"
  by (induction ks arbitrary: ks') (auto split: if_splits)

lemma find_append: "find P (xs @ ys) = (case find P xs of None \<Rightarrow> find P ys | Some x \<Rightarrow> Some x)"
  by (induction xs) auto

lemma AddHostKey_distinct:
  "distinct (map ktype (HostSigners srv)) \<Longrightarrow> distinct (map ktype (HostSigners (AddHostKey ktype key srv)))"
  by (auto simp: AddHostKey_def replace_key_None replace_key_types split: option.split)

lemma AddHostKey_find:
  "find (\<lambda>k. ktype k = t) (HostSigners (AddHostKey ktype key srv)) =
    (if ktype key = t then Some key else find (\<lambda>k. ktype k = t) (HostSigners srv))"
proof (cases "replace_key ktype key (HostSigners srv)")
  case None
  then have "find (\<lambda>k. ktype k = ktype key) (HostSigners srv) = None"
    by (metis (mono_tags, lifting) find_None_iff image_eqI replace_key_None)
  with None show ?thesis by (auto simp: AddHostKey_def find_append split: option.split)
qed (simp add: AddHostKey_def replace_key_find)

text \<open>
  Whatever sequence of host keys is added at run time, the server holds at most one key of each
  type, and the one it holds for a type is the last that was added for it.
\<close>

theorem host_keys_latest:
  assumes "HostSigners srv = []"
  shows "distinct (map ktype (HostSigners (fold (AddHostKey ktype) keys srv))) \<and>
    find (\<lambda>k. ktype k = t) (HostSigners (fold (AddHostKey ktype) keys srv)) = find (\<lambda>k. ktype k = t) (rev keys)"
proof (induction keys rule: rev_induct)
  case (snoc key keys)
  then show ?case by (simp add: AddHostKey_distinct AddHostKey_find)
qed (simp add: assms)

definition empty_server :: "(string, unit, unit, unit) Server" where
  "empty_server = \<lparr>srv_Addr = [], srv_Handler = None, HostSigners = [], Version = [],
     KeyboardInteractiveHandler = None, PasswordHandler = None, PublicKeyHandler = None, srv_PtyCallback = None,
     srv_ConnCallback = None, IdleTimeout = 0, MaxTimeout = 0, ChannelHandlers = None, RequestHandlers = None,
     SubsystemHandlers = None, listenerWg = 0, listeners = {}, conns = {}, connWg = 0, doneChan = None\<rparr>"

theorem host_keys_latest_witness:
  "find (\<lambda>k. take 3 k = ''rsa'') (HostSigners (fold (AddHostKey (take 3)) [''rsa-1'', ''ecd-1'', ''rsa-2''] empty_server))
    = Some ''rsa-2''"
  using host_keys_latest [of empty_server "take 3" "[''rsa-1'', ''ecd-1'', ''rsa-2'']" "''rsa''"]
  by (simp add: empty_server_def)

section \<open>The name a connection authenticates with\<close>

definition identity_keys :: "contextKey set" where
  "identity_keys = {ContextKeyUser, ContextKeySessionID, ContextKeyClientVersion, ContextKeyServerVersion,
     ContextKeyLocalAddr, ContextKeyRemoteAddr}"

text \<open>What happens to a context: the metadata of an attempt is applied, or a handler stores a value.\<close>

datatype ctx_op = Attempt ConnMetadata | Store contextKey ctxvalue

fun ctx_exec :: "ctx_op \<Rightarrow> sshContext \<Rightarrow> sshContext" where
  "ctx_exec (Attempt md) ctx = applyConnMetadata ctx md"
| "ctx_exec (Store k v) ctx = SetValue k v ctx"

fun stores_only :: "contextKey set \<Rightarrow> ctx_op \<Rightarrow> bool" where
  "stores_only K (Attempt md) = True"
| "stores_only K (Store k v) = (k \<in> K)"

lemma applied_values:
  assumes "ctx_Value ctx ContextKeySessionID = None"
  shows "ctx_Value (applyConnMetadata ctx md) ContextKeyUser = Some (CString (md_User md))"
    "ctx_Value (applyConnMetadata ctx md) ContextKeySessionID = Some (CString (hex_EncodeToString (md_SessionID md)))"
    "ctx_Value (applyConnMetadata ctx md) ContextKeyRemoteAddr = Some (CAddr (md_RemoteAddr md))"
  using assms by (simp_all add: applyConnMetadata_def ctx_Value_def SetValue_def)

lemma identity_kept:
  "ctx_Value ctx ContextKeySessionID \<noteq> None \<Longrightarrow> \<forall>op\<in>set ops. stores_only (- identity_keys) op \<Longrightarrow>
    k \<in> identity_keys \<Longrightarrow> ctx_Value (fold ctx_exec ops ctx) k = ctx_Value ctx k"
proof (induction ops arbitrary: ctx)
  case (Cons op ops)
  have "ctx_Value (ctx_exec op ctx) k' = ctx_Value ctx k'" if "k' \<in> identity_keys" for k'
  proof (cases op)
    case (Store k'' v)
    with Cons.prems(2) that have "k'' \<noteq> k'" by auto
    with Store show ?thesis by (simp add: SetValue_def ctx_Value_def)
  qed (use Cons.prems(1) in \<open>simp add: applyConnMetadata_def\<close>)
  moreover have "ContextKeySessionID \<in> identity_keys" by (simp add: identity_keys_def)
  ultimately show ?case using Cons by simp
qed simp

text \<open>
  C31: the user name, the session id and the address of a connection's context are fixed by its
  first authentication attempt.  Later attempts, which a client may make under another name, and anything
  handlers store under other keys do not change them; so every attempt is judged for the first
  name, and reading it cannot panic.
\<close>

theorem identity_fixed_by_first_attempt:
  assumes "\<forall>op\<in>set ops. stores_only (- identity_keys) op" "ctx = fold ctx_exec (Attempt md # ops) newContext"
  shows "ctx_User ctx = Ret (md_User md) \<and> ctx_SessionID ctx = Ret (hex_EncodeToString (md_SessionID md)) \<and>
    ctx_RemoteAddr ctx = Some (md_RemoteAddr md)"
proof -
  let ?c = "applyConnMetadata newContext md"
  have new: "ctx_Value newContext ContextKeySessionID = None"
    by (simp add: newContext_def ctx_Value_def SetValue_def)
  have "ctx_Value ctx k = ctx_Value ?c k" if "k \<in> identity_keys" for k
    using identity_kept [OF _ assms(1) that, of ?c] applied_values(2) [OF new, of md] assms(2) by simp
  then show ?thesis
    using applied_values [OF new]
    by (simp add: identity_keys_def ctx_User_def ctx_SessionID_def ctx_RemoteAddr_def assert_string_def)
qed

definition example_md :: "string \<Rightarrow> ConnMetadata" where
  "example_md name = \<lparr>md_SessionID = ''id'', md_ClientVersion = ''c'', md_ServerVersion = ''s'', md_User = name,
     md_LocalAddr = ''10.0.0.1:22'', md_RemoteAddr = ''10.0.0.2:4711''\<rparr>"

theorem identity_fixed_by_first_attempt_witness:
  "ctx_User (fold ctx_exec [Attempt (example_md ''alice''), Attempt (example_md ''admin''), Store ContextKeyConn (CConn 1)]
     newContext) = Ret ''alice''"
  using identity_fixed_by_first_attempt [of "[Attempt (example_md ''admin''), Store ContextKeyConn (CConn 1)]" _ "example_md ''alice''", OF _ refl]
  by (simp add: example_md_def identity_keys_def)

section \<open>Delays, deadlines and shutdown\<close>

lemma Serve_loop_delays:
  "Serve_loop (min (5000000 * 2 ^ n) 1000000000) es = (r, ds, cs) \<Longrightarrow>
    i < length ds \<Longrightarrow> ds ! i = min (5000000 * 2 ^ (n + Suc i)) 1000000000"
proof (induction es arbitrary: n ds r cs i)
  case (Cons e es)
  have next_d: "next_delay (min (5000000 * 2 ^ n) 1000000000) = min (5000000 * 2 ^ Suc n) 1000000000"
    by (auto simp: next_delay_def Let_def min_def)
  show ?case
  proof (cases e)
    case (Accepted c)
    with Cons.prems obtain cs' where "Serve_loop (min (5000000 * 2 ^ n) 1000000000) es = (r, ds, cs')"
      by (auto split: prod.splits)
    from Cons.IH [OF this Cons.prems(2)] show ?thesis .
  next
    case (AcceptError err temporary closed)
    with Cons.prems obtain ds' where ds: "ds = min (5000000 * 2 ^ Suc n) 1000000000 # ds'"
        "Serve_loop (min (5000000 * 2 ^ Suc n) 1000000000) es = (r, ds', cs)"
      unfolding AcceptError by (auto simp: Let_def next_d split: prod.splits if_splits)
    show ?thesis
    proof (cases i)
      case (Suc j)
      with Cons.IH [OF ds(2), of j] Cons.prems(2) ds(1) show ?thesis by simp
    qed (simp add: ds(1))
  qed
qed simp

lemma updateDeadline_bounded:
  assumes "maxDeadline c = Some m" "set_deadline (updateDeadline now c) = Some d"
  shows "d div 1000000000 \<le> m div 1000000000"
  using assms by (auto simp: updateDeadline_def Unix_def split: if_splits)

lemma HandleConn_cancels: "HandleConn base now handshake c srv = (e, Some conn, srv') \<Longrightarrow> ctx_cancelled conn"
  by (auto simp: HandleConn_def conn_Close_def cancel_conn_def Let_def split: option.splits sum.splits prod.splits)

lemma closeListeners_listeners:
  "listeners (snd (closeListeners cl order err srv)) = listeners srv - set order"
  by (induction order arbitrary: err srv) auto

lemma Shutdown_closes:
  assumes "set order = listeners srv"
  shows "listeners (snd (Shutdown cl order expired srv)) = {} \<and> doneChan (snd (Shutdown cl order expired srv)) = Some True"
proof -
  obtain e srv' where eq: "closeListeners cl order None srv = (e, srv')" by fastforce
  with closeListeners_listeners [of cl order None srv] assms have "listeners srv' = {}" by simp
  then show ?thesis
    by (simp add: Shutdown_def eq closeDoneChan_def getDoneChan_def split: option.split bool.split)
qed

end
