(* ===== verification/SrvConn.thy ===== *)
theory SrvConn
  imports Model Core "HOL-Library.Word"
begin

text \<open>
  Connections to the target machines (\<^verbatim>\<open>pkg/srvconn\<close>): the client options and authentication methods,
  the SSH client with its reference count, and the manager goroutine that caches clients for reuse
  and closes the idle ones.  Clients live in a heap, since the cache and the sessions share them.
  The iteration order of a Go map is unspecified: it is an argument wherever the code depends on it.
\<close>

section \<open>Protocols, addresses, keys\<close>

definition ErrUnSupportedProtocol :: goerror where "ErrUnSupportedProtocol = ''unsupported protocol''"

definition IsSupportedProtocol :: "string \<Rightarrow> goerror option" where
  "IsSupportedProtocol p = (if p \<noteq> ProtocolSSH then Some ErrUnSupportedProtocol else None)"

definition MakeReuseSSHClientKey :: "string \<Rightarrow> string \<Rightarrow> string \<Rightarrow> string \<Rightarrow> string \<Rightarrow> string" where
  "MakeReuseSSHClientKey userId assetId systemUserId ip username =
     userId @ ''_'' @ assetId @ ''_'' @ systemUserId @ ''_'' @ ip @ ''_'' @ username"

text \<open>\<^verbatim>\<open>net.JoinHostPort\<close>.\<close>

definition JoinHostPort :: "string \<Rightarrow> string \<Rightarrow> string" where
  "JoinHostPort host port =
     (if CHR '':'' \<in> set host then ''['' @ host @ '']:'' @ port else host @ '':'' @ port)"

section \<open>Client options\<close>

type_synonym challenge = "string list \<Rightarrow> string list"

record 's SSHClientOptions =
  opt_Host :: string
  opt_Port :: string
  opt_Username :: string
  opt_Password :: string
  opt_PrivateKey :: string
  opt_Passphrase :: string
  opt_Timeout :: int
  keyboardAuth :: "challenge option"
  PrivateAuth :: "'s option"

type_synonym 's SSHClientOption = "'s SSHClientOptions \<Rightarrow> 's SSHClientOptions"

definition SSHClientUsername :: "string \<Rightarrow> 's SSHClientOption" where
  "SSHClientUsername username = opt_Username_update (\<lambda>_. username)"

definition SSHClientPassword :: "string \<Rightarrow> 's SSHClientOption" where
  "SSHClientPassword password = opt_Password_update (\<lambda>_. password)"

definition SSHClientPrivateKey :: "string \<Rightarrow> 's SSHClientOption" where
  "SSHClientPrivateKey privateKey = opt_PrivateKey_update (\<lambda>_. privateKey)"

definition SSHClientPassphrase :: "string \<Rightarrow> 's SSHClientOption" where
  "SSHClientPassphrase passphrase = opt_Passphrase_update (\<lambda>_. passphrase)"

definition SSHClientHost :: "string \<Rightarrow> 's SSHClientOption" where
  "SSHClientHost host = opt_Host_update (\<lambda>_. host)"

definition SSHClientPort :: "int \<Rightarrow> 's SSHClientOption" where
  "SSHClientPort port = opt_Port_update (\<lambda>_. Itoa port)"

definition SSHClientTimeout :: "int \<Rightarrow> 's SSHClientOption" where
  "SSHClientTimeout timeout = opt_Timeout_update (\<lambda>_. timeout)"

definition SSHClientPrivateAuth :: "'s \<Rightarrow> 's SSHClientOption" where
  "SSHClientPrivateAuth privateAuth = PrivateAuth_update (\<lambda>_. Some privateAuth)"

definition SSHClientKeyboardAuth :: "challenge \<Rightarrow> 's SSHClientOption" where
  "SSHClientKeyboardAuth kb = keyboardAuth_update (\<lambda>_. Some kb)"

datatype 's auth_method = PublicKeys 's | Password string | KeyboardInteractive challenge

text \<open>
  The key parsers of the SSH library: \<open>parse_pass\<close> with a passphrase, \<open>parse_plain\<close> without; \<open>None\<close> is an error.
\<close>

definition password_challenge :: "string \<Rightarrow> challenge" where
  "password_challenge password questions = (if questions = [] then [] else [password])"

definition key_methods ::
  "(string \<Rightarrow> string \<Rightarrow> 's option) \<Rightarrow> (string \<Rightarrow> 's option) \<Rightarrow> 's SSHClientOptions \<Rightarrow> 's auth_method list" where
  "key_methods parse_pass parse_plain cfg =
     (let with_pass = (if opt_Passphrase cfg \<noteq> [] then parse_pass (opt_PrivateKey cfg) (opt_Passphrase cfg) else None);
          plain = (case with_pass of None \<Rightarrow> parse_plain (opt_PrivateKey cfg) | Some _ \<Rightarrow> None)
      in if opt_PrivateKey cfg = [] then []
         else (case with_pass of Some s \<Rightarrow> [PublicKeys s] | None \<Rightarrow> [])
            @ (case plain of Some s \<Rightarrow> [PublicKeys s] | None \<Rightarrow> []))"

definition AuthMethods ::
  "(string \<Rightarrow> string \<Rightarrow> 's option) \<Rightarrow> (string \<Rightarrow> 's option) \<Rightarrow> 's SSHClientOptions
   \<Rightarrow> 's auth_method list \<times> 's SSHClientOptions" where
  "AuthMethods parse_pass parse_plain cfg =
     (let methods = key_methods parse_pass parse_plain cfg;
          methods = methods @ (case PrivateAuth cfg of Some s \<Rightarrow> [PublicKeys s] | None \<Rightarrow> []);
          methods = methods @ (if opt_Password cfg \<noteq> [] then [Password (opt_Password cfg)] else [])
      in case keyboardAuth cfg of
           Some kb \<Rightarrow> (methods @ [KeyboardInteractive kb], cfg)
         | None \<Rightarrow>
             if opt_Password cfg \<noteq> [] then
               (let kb = password_challenge (opt_Password cfg)
                in (methods @ [KeyboardInteractive kb], cfg\<lparr>keyboardAuth := Some kb\<rparr>))
             else (methods, cfg))"

definition BuildSSHClientOptions ::
  "(string \<Rightarrow> string \<Rightarrow> 's option) \<Rightarrow> (string \<Rightarrow> 's option) \<Rightarrow> Config \<Rightarrow> Asset \<Rightarrow> SystemUser
   \<Rightarrow> 's SSHClientOption list" where
  "BuildSSHClientOptions parse_pass parse_plain GlobalConfig asset systemUser =
     [SSHClientUsername (sys_Username systemUser), SSHClientHost (IP asset),
      SSHClientPort (ProtocolPort asset (sys_Protocol systemUser)), SSHClientPassword (sys_Password systemUser),
      SSHClientTimeout (SSHTimeout GlobalConfig)]
     @ (if sys_PrivateKey systemUser \<noteq> [] then
          (case parse_pass (sys_PrivateKey systemUser) (sys_Password systemUser) of
             Some signer \<Rightarrow> [SSHClientPrivateAuth signer]
           | None \<Rightarrow>
               (case parse_plain (sys_PrivateKey systemUser) of
                  Some signer \<Rightarrow> [SSHClientPrivateAuth signer] | None \<Rightarrow> []))
        else [])"

definition default_options :: "'s SSHClientOptions" where
  "default_options = \<lparr>opt_Host = ''127.0.0.1'', opt_Port = ''22'', opt_Username = [], opt_Password = [],
     opt_PrivateKey = [], opt_Passphrase = [], opt_Timeout = 0, keyboardAuth = None, PrivateAuth = None\<rparr>"

text \<open>The algorithms of the library's configuration, and what the code adds to the defaults.\<close>

record ssh_config =
  Ciphers :: "string list"
  KeyExchanges :: "string list"

definition notRecommendCiphers :: "string list" where
  "notRecommendCiphers = [''arcfour256'', ''arcfour128'', ''arcfour'', ''aes128-cbc'', ''3des-cbc'']"

definition notRecommendKeyExchanges :: "string list" where
  "notRecommendKeyExchanges = [''diffie-hellman-group1-sha1'', ''diffie-hellman-group-exchange-sha1'', ''diffie-hellman-group-exchange-sha256'']"

definition createSSHConfig :: "ssh_config \<Rightarrow> ssh_config" where
  "createSSHConfig defaults = defaults\<lparr>Ciphers := Ciphers defaults @ notRecommendCiphers,
     KeyExchanges := KeyExchanges defaults @ notRecommendKeyExchanges\<rparr>"

text \<open>
  The client configuration handed to the library's \<^verbatim>\<open>Dial\<close>; the timeout is in nanoseconds, the algorithms are a function of the library's
  defaults.
\<close>

record 's ClientConfig =
  cc_User :: string
  cc_Auth :: "'s auth_method list"
  cc_Timeout :: int
  cc_Config :: "ssh_config \<Rightarrow> ssh_config"

record 's SSHClient =
  cli_Cfg :: "'s SSHClientOptions"
  traceSessionMap :: "nat \<rightharpoonup> int"
  refCount :: "32 word"
  cli_closed :: bool

definition NewSSHClientWithCfg ::
  "(string \<Rightarrow> string \<Rightarrow> 's option) \<Rightarrow> (string \<Rightarrow> 's option)
   \<Rightarrow> (string \<Rightarrow> 's ClientConfig \<Rightarrow> goerror option) \<Rightarrow> 's SSHClientOptions \<Rightarrow> 's SSHClient result" where
  "NewSSHClientWithCfg parse_pass parse_plain Dial cfg =
     (let (methods, cfg) = AuthMethods parse_pass parse_plain cfg;
          gosshCfg = \<lparr>cc_User = opt_Username cfg, cc_Auth = methods, cc_Timeout = opt_Timeout cfg * 1000000000,
            cc_Config = createSSHConfig\<rparr>
      in case Dial (JoinHostPort (opt_Host cfg) (opt_Port cfg)) gosshCfg of
           Some err \<Rightarrow> Inl err
         | None \<Rightarrow> Inr \<lparr>cli_Cfg = cfg, traceSessionMap = Map.empty, refCount = 0, cli_closed = False\<rparr>)"

definition NewSSHClient ::
  "(string \<Rightarrow> string \<Rightarrow> 's option) \<Rightarrow> (string \<Rightarrow> 's option)
   \<Rightarrow> (string \<Rightarrow> 's ClientConfig \<Rightarrow> goerror option) \<Rightarrow> 's SSHClientOption list \<Rightarrow> 's SSHClient result" where
  "NewSSHClient parse_pass parse_plain Dial opts =
     NewSSHClientWithCfg parse_pass parse_plain Dial (fold (\<lambda>setter cfg. setter cfg) opts default_options)"

definition SSHClient_String :: "'s SSHClient \<Rightarrow> string" where
  "SSHClient_String s = opt_Username (cli_Cfg s) @ ''@'' @ opt_Host (cli_Cfg s) @ '':'' @ opt_Port (cli_Cfg s)"

section \<open>Sessions on a client\<close>

record SSHOptions =
  win_Width :: int
  win_Height :: int
  opt_term :: string

definition SSHPtyWin :: "int \<Rightarrow> int \<Rightarrow> SSHOptions \<Rightarrow> SSHOptions" where
  "SSHPtyWin w h opt = opt\<lparr>win_Width := w, win_Height := h\<rparr>"

definition SSHTerm :: "string \<Rightarrow> SSHOptions \<Rightarrow> SSHOptions" where
  "SSHTerm termType opt = opt\<lparr>opt_term := termType\<rparr>"

text \<open>What the calls on the library's session return: \<^verbatim>\<open>RequestPty(term, height, width)\<close>, the pipes, \<^verbatim>\<open>Shell\<close>.\<close>

record session_calls =
  RequestPty :: "string \<Rightarrow> int \<Rightarrow> int \<Rightarrow> goerror option"
  StdinPipe :: "goerror option"
  StdoutPipe :: "goerror option"
  Shell :: "goerror option"

text \<open>\<^verbatim>\<open>NewSSHConnection\<close>: the error, and whether it closed the session, or the options of the connection.\<close>

definition NewSSHConnection :: "session_calls option \<Rightarrow> (SSHOptions \<Rightarrow> SSHOptions) list \<Rightarrow> (goerror \<times> bool) + SSHOptions" where
  "NewSSHConnection sess opts =
     (case sess of
        None \<Rightarrow> Inl (''ssh session is nil'', False)
      | Some calls \<Rightarrow>
          (let options = fold (\<lambda>setter o'. setter o') opts \<lparr>win_Width = 80, win_Height = 120, opt_term = ''xterm''\<rparr>
           in case RequestPty calls (opt_term options) (win_Height options) (win_Width options) of
                Some err \<Rightarrow> Inl (err, False)
              | None \<Rightarrow>
                  (case StdinPipe calls of
                     Some err \<Rightarrow> Inl (err, False)
                   | None \<Rightarrow>
                       (case StdoutPipe calls of
                          Some err \<Rightarrow> Inl (err, False)
                        | None \<Rightarrow>
                            (case Shell calls of Some err \<Rightarrow> Inl (err, True) | None \<Rightarrow> Inr options)))))"

section \<open>Clients in the heap\<close>

type_synonym 's clients = "nat \<Rightarrow> 's SSHClient"

text \<open>\<^verbatim>\<open>Close\<close> of a client; the proxy client of the struct is never set by this package.\<close>

definition Close :: "nat \<Rightarrow> 's clients \<Rightarrow> 's clients" where
  "Close c h = h(c := (h c)\<lparr>cli_closed := True\<rparr>)"

definition RefCount :: "'s clients \<Rightarrow> nat \<Rightarrow> int" where
  "RefCount h c = sint (refCount (h c))"

definition add_ref :: "32 word \<Rightarrow> nat \<Rightarrow> 's clients \<Rightarrow> 's clients" where
  "add_ref d c h = h(c := (h c)\<lparr>refCount := refCount (h c) + d\<rparr>)"

text \<open>\<^verbatim>\<open>AcquireSession\<close>: \<open>newSession\<close> is what the library's \<^verbatim>\<open>NewSession\<close> gives.\<close>

definition AcquireSession :: "int \<Rightarrow> nat result \<Rightarrow> nat \<Rightarrow> 's clients \<Rightarrow> nat result \<times> 's clients" where
  "AcquireSession now newSession c h =
     (let h = add_ref 1 c h in
      case newSession of
        Inl err \<Rightarrow> (Inl err, add_ref (- 1) c h)
      | Inr sess \<Rightarrow> (Inr sess, h(c := (h c)\<lparr>traceSessionMap := (traceSessionMap (h c))(sess \<mapsto> now)\<rparr>)))"

definition ReleaseSession :: "nat \<Rightarrow> nat \<Rightarrow> 's clients \<Rightarrow> 's clients" where
  "ReleaseSession c sess h =
     (let h = add_ref (- 1) c h in h(c := (h c)\<lparr>traceSessionMap := (traceSessionMap (h c))(sess := None)\<rparr>))"

section \<open>The clients of one key\<close>

record UserSSHClient =
  us_ID :: string
  us_data :: "nat \<rightharpoonup> int"
  us_name :: string

definition AddClient :: "int \<Rightarrow> nat \<Rightarrow> UserSSHClient \<Rightarrow> UserSSHClient" where
  "AddClient now c u = u\<lparr>us_data := (us_data u)(c \<mapsto> now)\<rparr>"

text \<open>\<^verbatim>\<open>GetClient\<close>: \<open>order\<close> is the order in which the map is ranged over.\<close>

fun GetClient_loop :: "'s clients \<Rightarrow> nat list \<Rightarrow> int \<Rightarrow> nat option \<Rightarrow> nat option" where
  "GetClient_loop h [] rc sel = sel"
| "GetClient_loop h (c # order) rc sel =
     (if rc \<le> RefCount h c then GetClient_loop h order (RefCount h c) (Some c)
      else GetClient_loop h order rc sel)"

definition GetClient :: "'s clients \<Rightarrow> nat list \<Rightarrow> nat option" where
  "GetClient h order = GetClient_loop h order 0 None"

fun recycle_loop :: "nat list \<Rightarrow> UserSSHClient \<Rightarrow> 's clients \<Rightarrow> UserSSHClient \<times> 's clients" where
  "recycle_loop [] u h = (u, h)"
| "recycle_loop (c # order) u h =
     (if RefCount h c \<le> 0 then recycle_loop order (u\<lparr>us_data := (us_data u)(c := None)\<rparr>) (Close c h)
      else recycle_loop order u h)"

definition recycleClients :: "nat list \<Rightarrow> UserSSHClient \<Rightarrow> 's clients \<Rightarrow> UserSSHClient \<times> 's clients" where
  "recycleClients order u h = recycle_loop order u h"

text \<open>\<^verbatim>\<open>Count\<close>, the number of clients, counted along the keys of the map.\<close>

definition Count :: "nat list \<Rightarrow> UserSSHClient \<Rightarrow> nat" where
  "Count order u = length (filter (\<lambda>c. us_data u c \<noteq> None) order)"

section \<open>The manager\<close>

text \<open>
  The state of \<^verbatim>\<open>SSHManager.run\<close> and what its \<^verbatim>\<open>select\<close> receives.  Times are nanoseconds.  A step of another
  goroutine on a client, \<open>Acquire\<close> or \<open>Release\<close>, may come between any two of its rounds.
\<close>

record 's manager =
  mgr_heap :: "'s clients"
  mgr_data :: "string \<rightharpoonup> UserSSHClient"
  latestVisited :: int

datatype mgr_event =
  Tick int "(string \<times> nat list) list"
| Request int string "nat list"
| Search int string string "nat list"
| StoreClient int string nat
| Acquire int "nat result" nat
| Release nat nat

definition minute :: int where "minute = 60000000000"

text \<open>One recycling pass over the keys in the order of \<open>keys\<close>, each with the order of its clients.\<close>

fun recycle_all :: "(string \<times> nat list) list \<Rightarrow> 's manager \<Rightarrow> 's manager" where
  "recycle_all [] m = m"
| "recycle_all ((key, order) # keys) m =
     (case mgr_data m key of
        None \<Rightarrow> recycle_all keys m
      | Some u \<Rightarrow>
          (let (u', h') = recycleClients order u (mgr_heap m)
           in recycle_all keys (m\<lparr>mgr_heap := h',
                mgr_data := (mgr_data m)(key := if Count order u' = 0 then None else Some u')\<rparr>)))"

definition new_user_client :: "string \<Rightarrow> string \<Rightarrow> UserSSHClient" where
  "new_user_client reqId name = \<lparr>us_ID = reqId, us_data = Map.empty, us_name = name\<rparr>"

definition HasPrefix :: "string \<Rightarrow> string \<Rightarrow> bool" where
  "HasPrefix s p = prefix p s"

text \<open>
  One round of the loop: the client sent back (where the request has an answer) and the new state.
  \<open>Search\<close> carries the key that ranging over the map meets first among those with the prefix.
\<close>

fun run_step :: "mgr_event \<Rightarrow> 's manager \<Rightarrow> nat option \<times> 's manager" where
  "run_step (Tick now keys) m =
     (None, if now > latestVisited m + minute then recycle_all keys m else m)"
| "run_step (Request now reqKey order) m =
     (case mgr_data m reqKey of
        Some u \<Rightarrow> (GetClient (mgr_heap m) order, m\<lparr>latestVisited := now\<rparr>)
      | None \<Rightarrow> (None, m\<lparr>latestVisited := now\<rparr>))"
| "run_step (Search now prefixKey key order) m =
     (if HasPrefix key prefixKey \<and> mgr_data m key \<noteq> None
      then (GetClient (mgr_heap m) order, m\<lparr>latestVisited := now\<rparr>)
      else (None, m\<lparr>latestVisited := now\<rparr>))"
| "run_step (StoreClient now reqId c) m =
     (let u = (case mgr_data m reqId of Some u \<Rightarrow> u
               | None \<Rightarrow> new_user_client reqId (SSHClient_String (mgr_heap m c)))
      in (None, m\<lparr>mgr_data := (mgr_data m)(reqId \<mapsto> AddClient now c u), latestVisited := now\<rparr>))"
| "run_step (Acquire now newSession c) m =
     (None, m\<lparr>mgr_heap := snd (AcquireSession now newSession c (mgr_heap m))\<rparr>)"
| "run_step (Release c sess) m = (None, m\<lparr>mgr_heap := ReleaseSession c sess (mgr_heap m)\<rparr>)"

text \<open>The manager at its start, and its two callers: each sends on a channel of the manager, and a request waits for the answer.\<close>

definition newSSHManager :: "int \<Rightarrow> 's clients \<Rightarrow> 's manager" where
  "newSSHManager now heap = \<lparr>mgr_heap = heap, mgr_data = Map.empty, latestVisited = now\<rparr>"

definition getClientFromCache :: "int \<Rightarrow> string \<Rightarrow> nat list \<Rightarrow> 's manager \<Rightarrow> (nat option \<times> bool) \<times> 's manager" where
  "getClientFromCache now key order m =
     (let (client, m) = run_step (Request now key order) m in ((client, client \<noteq> None), m))"

definition AddClientCache :: "int \<Rightarrow> string \<Rightarrow> nat \<Rightarrow> 's manager \<Rightarrow> 's manager" where
  "AddClientCache now key c m = snd (run_step (StoreClient now key c) m)"

section \<open>The cache hands out live clients\<close>

text \<open>The iteration orders of an event list exactly what there is to iterate over.\<close>

definition orders :: "'s manager \<Rightarrow> string \<Rightarrow> nat list \<Rightarrow> bool" where
  "orders m key order \<longleftrightarrow> (\<forall>u. mgr_data m key = Some u \<longrightarrow> set order = dom (us_data u))"

definition cached :: "'s manager \<Rightarrow> nat set" where
  "cached m = {c. \<exists>key u. mgr_data m key = Some u \<and> c \<in> dom (us_data u)}"

text \<open>What the environment keeps to: a client is stored once, when new, and sessions are released once.\<close>

fun event_ok :: "'s manager \<Rightarrow> mgr_event \<Rightarrow> bool" where
  "event_ok m (Tick now keys) =
     (distinct (map fst keys) \<and> set (map fst keys) = dom (mgr_data m) \<and> (\<forall>(key, order)\<in>set keys. orders m key order))"
| "event_ok m (Request now key order) = orders m key order"
| "event_ok m (Search now p key order) = orders m key order"
| "event_ok m (StoreClient now key c) = (c \<notin> cached m \<and> \<not> cli_closed (mgr_heap m c))"
| "event_ok m (Acquire now ns c) = (\<forall>sess. ns = Inr sess \<longrightarrow> sess \<notin> dom (traceSessionMap (mgr_heap m c)))"
| "event_ok m (Release c sess) = (sess \<in> dom (traceSessionMap (mgr_heap m c)))"

definition mgr_start :: "'s manager \<Rightarrow> bool" where
  "mgr_start m \<longleftrightarrow> mgr_data m = Map.empty \<and> (\<forall>c. refCount (mgr_heap m c) = 0 \<and> traceSessionMap (mgr_heap m c) = Map.empty)"

inductive mgr_step :: "'s manager \<Rightarrow> 's manager \<Rightarrow> bool" where
  event: "event_ok m e \<Longrightarrow> mgr_step m (snd (run_step e m))"

abbreviation mgr_reach :: "'s manager \<Rightarrow> bool" where
  "mgr_reach \<equiv> reachable mgr_start mgr_step"

lemma mgr_reach_step: "mgr_reach m \<Longrightarrow> event_ok m e \<Longrightarrow> mgr_reach (snd (run_step e m))"
  by (rule reachable.step) (auto intro: mgr_step.event)

text \<open>The invariant: cached clients are open, each under one key, and no key is empty.\<close>

definition cache_inv :: "'s manager \<Rightarrow> bool" where
  "cache_inv m \<longleftrightarrow>
     (\<forall>key u. mgr_data m key = Some u \<longrightarrow> us_data u \<noteq> Map.empty \<and> (\<forall>c\<in>dom (us_data u). \<not> cli_closed (mgr_heap m c))) \<and>
     (\<forall>k1 u1 k2 u2 c. mgr_data m k1 = Some u1 \<and> mgr_data m k2 = Some u2 \<and> c \<in> dom (us_data u1) \<and> c \<in> dom (us_data u2)
        \<longrightarrow> k1 = k2)"

lemma RefCount_Close [simp]: "RefCount (Close c h) d = RefCount h d"
  by (simp add: RefCount_def Close_def)

lemma Close_simps [simp]:
  "cli_closed (Close c h d) = (d = c \<or> cli_closed (h d))"
  "refCount (Close c h d) = refCount (h d)" "traceSessionMap (Close c h d) = traceSessionMap (h d)"
  by (simp_all add: Close_def)

lemma recycle_loop_result:
  "recycle_loop order u h = (u', h') \<Longrightarrow>
    dom (us_data u') = dom (us_data u) - {c \<in> set order. RefCount h c \<le> 0} \<and>
    (\<forall>c. cli_closed (h' c) \<longleftrightarrow> cli_closed (h c) \<or> c \<in> set order \<and> RefCount h c \<le> 0) \<and>
    (\<forall>c. RefCount h' c = RefCount h c \<and> refCount (h' c) = refCount (h c) \<and> traceSessionMap (h' c) = traceSessionMap (h c))"
proof (induction order arbitrary: u h)
  case (Cons c order)
  show ?case
  proof (cases "RefCount h c \<le> 0")
    case True
    then have "recycle_loop order (u\<lparr>us_data := (us_data u)(c := None)\<rparr>) (Close c h) = (u', h')"
      using Cons.prems by simp
    moreover have "dom ((us_data u)(c := None)) = dom (us_data u) - {c}" by simp
    ultimately show ?thesis using Cons.IH [of "u\<lparr>us_data := (us_data u)(c := None)\<rparr>" "Close c h"] True
      by (simp del: fun_upd_apply) blast
  next
    case False
    with Cons.IH [of u h] Cons.prems show ?thesis by auto
  qed
qed simp

lemma Count_zero: "Count order u = 0 \<longleftrightarrow> set order \<inter> dom (us_data u) = {}"
  by (auto simp: Count_def filter_empty_conv)

lemma recycle_all_frame:
  "latestVisited (recycle_all keys m) = latestVisited m \<and>
    (\<forall>c. refCount (mgr_heap (recycle_all keys m) c) = refCount (mgr_heap m c)
      \<and> traceSessionMap (mgr_heap (recycle_all keys m) c) = traceSessionMap (mgr_heap m c)
      \<and> (cli_closed (mgr_heap (recycle_all keys m) c) \<longrightarrow> cli_closed (mgr_heap m c) \<or> RefCount (mgr_heap m) c \<le> 0))"
proof (induction keys m rule: recycle_all.induct)
  case (2 key order keys m)
  show ?case
  proof (cases "mgr_data m key")
    case (Some u)
    obtain u' h' where r: "recycleClients order u (mgr_heap m) = (u', h')" by fastforce
    note res = recycle_loop_result [OF r [unfolded recycleClients_def]]
    from 2(2) [OF Some r [symmetric] refl] res Some r show ?thesis by (auto simp: RefCount_def)
  qed (use 2(1) in simp)
qed simp

lemma cache_inv_recycle_key:
  assumes "cache_inv m" "mgr_data m key = Some u" "set order = dom (us_data u)"
    "recycleClients order u (mgr_heap m) = (u', h')"
  shows "cache_inv (m\<lparr>mgr_heap := h', mgr_data := (mgr_data m)(key := if Count order u' = 0 then None else Some u')\<rparr>)"
proof -
  note res = recycle_loop_result [OF assms(4) [unfolded recycleClients_def]]
  have other: "c \<notin> dom (us_data u)" if "mgr_data m k = Some w" "c \<in> dom (us_data w)" "k \<noteq> key" for k w c
    using assms(1,2) that unfolding cache_inv_def by blast
  show ?thesis
    unfolding cache_inv_def
  proof (intro conjI allI impI, goal_cases)
    case (1 k w)
    then show ?case
      using assms(1,3) res by (cases "k = key") (auto simp: Count_zero cache_inv_def split: if_splits)
  next
    case (2 k w)
    then show ?case
      using assms(1,2,3) res other by (cases "k = key") (auto simp: cache_inv_def split: if_splits)
  next
    case (3 k1 u1 k2 u2 c)
    have "\<exists>v. mgr_data m k = Some v \<and> c \<in> dom (us_data v)"
      if "((mgr_data m)(key := if Count order u' = 0 then None else Some u')) k = Some w" "c \<in> dom (us_data w)" for k w
      using that assms(2) res by (cases "k = key") (auto split: if_splits)
    from this [of k1 u1] this [of k2 u2] 3 obtain v1 v2 where
      "mgr_data m k1 = Some v1" "c \<in> dom (us_data v1)" "mgr_data m k2 = Some v2" "c \<in> dom (us_data v2)" by auto
    with assms(1) show ?case unfolding cache_inv_def by blast
  qed
qed

lemma cache_inv_recycle_all:
  "cache_inv m \<Longrightarrow> distinct (map fst keys) \<Longrightarrow> \<forall>(key, order)\<in>set keys. orders m key order \<Longrightarrow>
    cache_inv (recycle_all keys m)"
proof (induction keys m rule: recycle_all.induct)
  case (2 key order keys m)
  show ?case
  proof (cases "mgr_data m key")
    case (Some u)
    obtain u' h' where r: "recycleClients order u (mgr_heap m) = (u', h')" by fastforce
    let ?m = "m\<lparr>mgr_heap := h', mgr_data := (mgr_data m)(key := if Count order u' = 0 then None else Some u')\<rparr>"
    have "cache_inv ?m"
      using cache_inv_recycle_key [OF 2(3) Some _ r] 2(5) Some by (simp add: orders_def)
    moreover have "orders ?m k ord" if "(k, ord) \<in> set keys" for k ord
    proof -
      have "k \<noteq> key" using 2(4) that by force
      moreover have "orders m k ord" using 2(5) that by fastforce
      ultimately show ?thesis by (simp add: orders_def)
    qed
    then have "\<forall>(k, ord)\<in>set keys. orders ?m k ord" by blast
    ultimately show ?thesis
      using 2(2) [OF Some r [symmetric] refl] 2(4) Some r by simp
  qed (use 2 in \<open>simp add: orders_def\<close>)
qed simp

lemma cache_inv_store:
  assumes "cache_inv m" "c \<notin> cached m" "\<not> cli_closed (mgr_heap m c)"
  shows "cache_inv (snd (run_step (StoreClient now key c) m))"
proof -
  define u where "u = (case mgr_data m key of Some u \<Rightarrow> u | None \<Rightarrow> new_user_client key (SSHClient_String (mgr_heap m c)))"
  have m': "mgr_heap (snd (run_step (StoreClient now key c) m)) = mgr_heap m"
    "mgr_data (snd (run_step (StoreClient now key c) m)) = (mgr_data m)(key \<mapsto> AddClient now c u)"
    by (simp_all add: u_def Let_def)
  have dom: "dom (us_data (AddClient now c u)) = insert c (dom (us_data u))" by (simp add: AddClient_def)
  have u: "(\<exists>w. mgr_data m key = Some w \<and> us_data u = us_data w) \<or> us_data u = Map.empty"
    by (auto simp: u_def new_user_client_def split: option.split)
  have open_u: "\<forall>d\<in>dom (us_data u). \<not> cli_closed (mgr_heap m d)"
    using u assms(1) unfolding cache_inv_def by fastforce
  have once_u: "k = key" if "mgr_data m k = Some w" "d \<in> dom (us_data w)" "d \<in> dom (us_data u)" for k w d
    using u that assms(1) unfolding cache_inv_def by fastforce
  have not_c: "c \<notin> dom (us_data w)" if "mgr_data m k = Some w" for k w
    using assms(2) that by (auto simp: cached_def)
  show ?thesis
    unfolding cache_inv_def m'
  proof (intro conjI allI impI, goal_cases)
    case (1 k w)
    then show ?case using assms(1) by (cases "k = key") (auto simp: AddClient_def cache_inv_def)
  next
    case (2 k w)
    then show ?case using assms(1,3) open_u dom by (cases "k = key") (auto simp: cache_inv_def)
  next
    case (3 k1 u1 k2 u2 d)
    then have e1: "((mgr_data m)(key \<mapsto> AddClient now c u)) k1 = Some u1" "d \<in> dom (us_data u1)"
      and e2: "((mgr_data m)(key \<mapsto> AddClient now c u)) k2 = Some u2" "d \<in> dom (us_data u2)" by simp_all
    consider "k1 = key" "k2 = key" | "k1 = key" "k2 \<noteq> key" | "k1 \<noteq> key" "k2 = key" | "k1 \<noteq> key" "k2 \<noteq> key" by blast
    then show ?case
    proof cases
      case 2
      then show ?thesis using e1 e2 dom not_c [of k2 u2] once_u [of k2 u2 d] by auto
    next
      case 3
      then show ?thesis using e1 e2 dom not_c [of k1 u1] once_u [of k1 u1 d] by auto
    next
      case 4
      then have "mgr_data m k1 = Some u1" "mgr_data m k2 = Some u2" using e1 e2 by simp_all
      with e1(2) e2(2) assms(1) show ?thesis unfolding cache_inv_def by blast
    qed simp
  qed
qed

lemma cache_inv_heap:
  "cache_inv m \<Longrightarrow> (\<And>c. cli_closed (h c) = cli_closed (mgr_heap m c)) \<Longrightarrow> cache_inv (m\<lparr>mgr_heap := h\<rparr>)"
  unfolding cache_inv_def by (simp del: not_ex) blast

lemma cli_closed_sessions [simp]:
  "cli_closed (snd (AcquireSession now ns c h) d) = cli_closed (h d)"
  "cli_closed (ReleaseSession c sess h d) = cli_closed (h d)"
  by (simp_all add: AcquireSession_def ReleaseSession_def add_ref_def Let_def split: sum.split)

lemma cache_inv_step: "cache_inv m \<Longrightarrow> event_ok m e \<Longrightarrow> cache_inv (snd (run_step e m))"
proof (cases e)
  case (Tick now keys)
  assume "cache_inv m" "event_ok m e"
  then show ?thesis using Tick cache_inv_recycle_all by auto
next
  case (StoreClient now key c)
  assume "cache_inv m" "event_ok m e"
  then show ?thesis using StoreClient cache_inv_store by auto
next
  case (Request now key order)
  assume "cache_inv m"
  then show ?thesis using Request by (auto simp: cache_inv_def split: option.split)
next
  case (Search now p key order)
  assume "cache_inv m"
  then show ?thesis using Search by (auto simp: cache_inv_def)
qed (auto intro!: cache_inv_heap)

lemma cache_inv_start: "mgr_start m \<Longrightarrow> cache_inv m"
  by (simp add: mgr_start_def cache_inv_def)

interpretation cache: invariant_system mgr_start mgr_step cache_inv
  by unfold_locales (blast intro: cache_inv_start cache_inv_step elim: mgr_step.cases)+

lemma GetClient_loop_max:
  "GetClient_loop h order rc sel = Some c \<Longrightarrow> sel = None \<or> (\<exists>d. sel = Some d \<and> RefCount h d = rc) \<Longrightarrow>
    (c \<in> set order \<or> sel = Some c) \<and> rc \<le> RefCount h c \<and> (\<forall>d\<in>set order. RefCount h d \<le> RefCount h c)"
proof (induction order arbitrary: rc sel)
  case (Cons d order)
  show ?case
  proof (cases "rc \<le> RefCount h d")
    case True
    with Cons.IH [of "RefCount h d" "Some d"] Cons.prems show ?thesis by auto
  next
    case False
    with Cons.IH [of rc sel] Cons.prems show ?thesis by auto
  qed
qed auto


section \<open>Clients in use are not closed\<close>

lemma run_step_closes:
  assumes "\<not> cli_closed (mgr_heap m c)" "cli_closed (mgr_heap (snd (run_step e m)) c)"
  shows "\<exists>now keys. e = Tick now keys \<and> latestVisited m + minute < now \<and> RefCount (mgr_heap m) c \<le> 0"
proof (cases e)
  case (Tick now keys)
  with assms recycle_all_frame [of keys m] show ?thesis by (auto split: if_splits)
qed (use assms in \<open>auto simp: Let_def split: option.splits if_splits\<close>)

text \<open>The reference count of a client is the number of its open sessions.\<close>

definition sessions_on :: "'s manager \<Rightarrow> nat \<Rightarrow> nat" where
  "sessions_on m c = card (dom (traceSessionMap (mgr_heap m c)))"

definition refs_inv :: "'s manager \<Rightarrow> bool" where
  "refs_inv m \<longleftrightarrow>
     (\<forall>c. finite (dom (traceSessionMap (mgr_heap m c))) \<and> refCount (mgr_heap m c) = of_nat (sessions_on m c))"

lemma refs_inv_step: "refs_inv m \<Longrightarrow> event_ok m e \<Longrightarrow> refs_inv (snd (run_step e m))"
proof (cases e)
  case (Tick now keys)
  assume "refs_inv m"
  then show ?thesis using Tick recycle_all_frame [of keys m] by (simp add: refs_inv_def sessions_on_def)
next
  case (Acquire now ns c)
  assume "refs_inv m" "event_ok m e"
  then show ?thesis
    using Acquire by (auto simp: refs_inv_def sessions_on_def AcquireSession_def add_ref_def Let_def card_insert_if split: sum.split)
next
  case (Release c sess)
  assume a: "refs_inv m" "event_ok m e"
  then have "0 < sessions_on m c"
    using Release by (auto simp: refs_inv_def sessions_on_def card_gt_0_iff)
  with a show ?thesis
    using Release by (auto simp: refs_inv_def sessions_on_def ReleaseSession_def add_ref_def Let_def card_Diff_singleton of_nat_diff)
qed (auto simp: refs_inv_def sessions_on_def Let_def split: option.split)

lemma refs_inv_start: "mgr_start m \<Longrightarrow> refs_inv m"
  by (simp add: mgr_start_def refs_inv_def sessions_on_def)

interpretation refs: invariant_system mgr_start mgr_step refs_inv
  by unfold_locales (blast intro: refs_inv_start refs_inv_step elim: mgr_step.cases)+

lemma RefCount_sessions:
  assumes "mgr_reach m" "sessions_on m c < 2 ^ 31"
  shows "RefCount (mgr_heap m) c = int (sessions_on m c)"
proof -
  have "signed_take_bit 31 (int (sessions_on m c)) = int (sessions_on m c)"
    using assms(2) by (intro signed_take_bit_int_eq_self) simp_all
  then show ?thesis
    using refs.reachable_inv [OF assms(1)] by (simp add: RefCount_def refs_inv_def signed_of_nat)
qed

text \<open>
  What keeps a client open: until \<open>t\<close> plus a minute, its being handed out at \<open>t\<close>; later, a session on it.
  The clock does not run backwards, and there are fewer sessions than the 32-bit counter can hold.
\<close>

fun in_use :: "int \<Rightarrow> nat \<Rightarrow> mgr_event list \<Rightarrow> 's manager \<Rightarrow> bool" where
  "in_use t c [] m = True"
| "in_use t c (e # es) m =
     (event_ok m e \<and>
      (case e of
         Tick now _ \<Rightarrow> now \<le> t + minute \<or> 0 < sessions_on m c \<and> sessions_on m c < 2 ^ 31
       | Request now _ _ \<Rightarrow> t \<le> now | Search now _ _ _ \<Rightarrow> t \<le> now | StoreClient now _ _ \<Rightarrow> t \<le> now
       | _ \<Rightarrow> True)
      \<and> in_use t c es (snd (run_step e m)))"

fun mgr_run :: "mgr_event list \<Rightarrow> 's manager \<Rightarrow> 's manager" where
  "mgr_run [] m = m"
| "mgr_run (e # es) m = mgr_run es (snd (run_step e m))"

lemma run_step_visited:
  "t \<le> latestVisited m \<Longrightarrow> in_use t c (e # es) m \<Longrightarrow> t \<le> latestVisited (snd (run_step e m))"
  by (cases e) (auto simp: recycle_all_frame Let_def split: option.split)

lemma in_use_open:
  "mgr_reach m \<Longrightarrow> \<not> cli_closed (mgr_heap m c) \<Longrightarrow> t \<le> latestVisited m \<Longrightarrow> in_use t c es m \<Longrightarrow>
    \<not> cli_closed (mgr_heap (mgr_run es m) c)"
proof (induction es arbitrary: m)
  case (Cons e es)
  have "\<not> cli_closed (mgr_heap (snd (run_step e m)) c)"
  proof
    assume "cli_closed (mgr_heap (snd (run_step e m)) c)"
    then obtain now keys where "e = Tick now keys" "latestVisited m + minute < now" "RefCount (mgr_heap m) c \<le> 0"
      using run_step_closes [OF Cons.prems(2)] by blast
    with Cons.prems(3,4) RefCount_sessions [OF Cons.prems(1), of c] show False by auto
  qed
  moreover have "mgr_reach (snd (run_step e m))"
    using Cons.prems(1,4) by (intro mgr_reach_step) simp_all
  ultimately show ?case
    using Cons.IH run_step_visited [OF Cons.prems(3,4)] Cons.prems(4) by simp
qed simp

text \<open>
  C33: a client handed out for reuse is not closed under the hands of the session that asked for it: the
  manager leaves it open for a minute from the request, whatever else happens in between, and after that for
  as long as a session holds it.
\<close>

theorem reused_client_stays_open:
  assumes "mgr_reach m" "event_ok m (Request t key order)" "run_step (Request t key order) m = (Some c, m')"
    "in_use t c es m'"
  shows "\<not> cli_closed (mgr_heap (mgr_run es m') c)"
proof -
  from assms(3) obtain u where u: "mgr_data m key = Some u" "GetClient (mgr_heap m) order = Some c"
      "m' = m\<lparr>latestVisited := t\<rparr>"
    by (auto split: option.splits)
  then have "c \<in> dom (us_data u)"
    using GetClient_loop_max [OF u(2) [unfolded GetClient_def]] assms(2) by (simp add: orders_def)
  with u(1) cache.reachable_inv [OF assms(1)] have "\<not> cli_closed (mgr_heap m c)"
    unfolding cache_inv_def by blast
  moreover have "mgr_reach m'"
    using mgr_reach_step [OF assms(1,2)] assms(3) by simp
  ultimately show ?thesis using u(3) in_use_open [OF _ _ _ assms(4)] by simp
qed

definition example_client :: "unit SSHClient" where
  "example_client = \<lparr>cli_Cfg = default_options, traceSessionMap = Map.empty, refCount = 0, cli_closed = False\<rparr>"

definition empty_manager :: "unit manager" where
  "empty_manager = \<lparr>mgr_heap = (\<lambda>_. example_client), mgr_data = Map.empty, latestVisited = 0\<rparr>"

definition example_manager :: "unit manager" where
  "example_manager = snd (run_step (StoreClient 5 ''k'' 7) empty_manager)"

lemma example_manager_reach: "mgr_reach example_manager"
  unfolding example_manager_def
proof (rule mgr_reach_step)
  show "mgr_reach empty_manager"
    by (rule reachable.start) (simp add: mgr_start_def empty_manager_def example_client_def)
qed (simp add: cached_def empty_manager_def example_client_def)

lemma example_request:
  "event_ok example_manager (Request 6 ''k'' [7])"
  "run_step (Request 6 ''k'' [7]) example_manager = (Some 7, example_manager\<lparr>latestVisited := 6\<rparr>)"
  by (simp_all add: example_manager_def empty_manager_def example_client_def orders_def AddClient_def
      new_user_client_def GetClient_def RefCount_def)


theorem reused_client_stays_open_witness:
  "\<not> cli_closed (mgr_heap (mgr_run [Tick (6 + minute) [(''k'', [7])], Acquire 8 (Inr 1) 7, Tick (7 + minute) [(''k'', [7])]]
     (example_manager\<lparr>latestVisited := 6\<rparr>)) 7)"
proof (rule reused_client_stays_open [OF example_manager_reach example_request])
  show "in_use 6 7 [Tick (6 + minute) [(''k'', [7])], Acquire 8 (Inr 1) 7, Tick (7 + minute) [(''k'', [7])]]
     (example_manager\<lparr>latestVisited := 6\<rparr>)"
    by (simp add: example_manager_def empty_manager_def example_client_def orders_def AddClient_def
        new_user_client_def sessions_on_def AcquireSession_def add_ref_def)
qed

section \<open>What is dialled\<close>

definition login_key :: "(string \<Rightarrow> string \<Rightarrow> 's option) \<Rightarrow> (string \<Rightarrow> 's option) \<Rightarrow> SystemUser \<Rightarrow> 's option" where
  "login_key parse_pass parse_plain su =
     (if sys_PrivateKey su = [] then None
      else case parse_pass (sys_PrivateKey su) (sys_Password su) of Some k \<Rightarrow> Some k
           | None \<Rightarrow> parse_plain (sys_PrivateKey su))"

lemma built_options:
  "fold (\<lambda>setter cfg. setter cfg) (BuildSSHClientOptions parse_pass parse_plain conf asset su) default_options =
     \<lparr>opt_Host = IP asset, opt_Port = Itoa (ProtocolPort asset (sys_Protocol su)), opt_Username = sys_Username su,
       opt_Password = sys_Password su, opt_PrivateKey = [], opt_Passphrase = [], opt_Timeout = SSHTimeout conf,
       keyboardAuth = None, PrivateAuth = login_key parse_pass parse_plain su\<rparr>"
  by (simp add: BuildSSHClientOptions_def default_options_def login_key_def SSHClientUsername_def SSHClientHost_def
      SSHClientPort_def SSHClientPassword_def SSHClientTimeout_def SSHClientPrivateAuth_def split: option.split)

text \<open>
  For an asset and a system user, the client dials the address and the SSH port of the asset under the
  system user's name.  It offers the private key, where one is stored and parses, before the password; with
  a password it also answers interactive questions with it.  Nothing else is offered.
\<close>

theorem client_dials_asset:
  fixes parse_pass :: "string \<Rightarrow> string \<Rightarrow> 's option"
  shows "let r = NewSSHClient parse_pass parse_plain Dial (BuildSSHClientOptions parse_pass parse_plain conf asset su);
           key = login_key parse_pass parse_plain su;
           dialled = Dial (JoinHostPort (IP asset) (Itoa (ProtocolPort asset (sys_Protocol su))))
             \<lparr>cc_User = sys_Username su,
               cc_Auth = (case key of Some k \<Rightarrow> [PublicKeys k] | None \<Rightarrow> [])
                 @ (if sys_Password su = [] then []
                    else [Password (sys_Password su), KeyboardInteractive (password_challenge (sys_Password su))]),
               cc_Timeout = SSHTimeout conf * 1000000000, cc_Config = createSSHConfig\<rparr>
         in (case dialled of Some err \<Rightarrow> r = Inl err | None \<Rightarrow> \<exists>c. r = Inr c \<and> refCount c = 0 \<and> \<not> cli_closed c)"
  by (cases "login_key parse_pass parse_plain su")
    (simp_all add: NewSSHClient_def built_options NewSSHClientWithCfg_def AuthMethods_def key_methods_def Let_def
      split: option.split)

lemma GetClient_loop_found:
  "sel \<noteq> None \<or> c \<in> set order \<and> rc \<le> RefCount h c \<Longrightarrow> GetClient_loop h order rc sel \<noteq> None"
  by (induction order arbitrary: rc sel) auto

text \<open>After a client was stored a request for its key finds a client, itself or one with at least as many sessions.\<close>

theorem stored_client_found:
  assumes "orders (AddClientCache now key c m) key order" "0 \<le> RefCount (mgr_heap m) c"
  shows "\<exists>d. fst (getClientFromCache now' key order (AddClientCache now key c m)) = (Some d, True)
    \<and> RefCount (mgr_heap m) c \<le> RefCount (mgr_heap m) d"
proof -
  let ?m = "AddClientCache now key c m"
  obtain u where u: "mgr_data ?m key = Some u" "c \<in> dom (us_data u)"
    by (auto simp: AddClientCache_def AddClient_def Let_def)
  with assms(1) have c: "c \<in> set order" by (auto simp: orders_def)
  have heap: "mgr_heap ?m = mgr_heap m" by (simp add: AddClientCache_def Let_def)
  obtain d where d: "GetClient (mgr_heap m) order = Some d"
    using GetClient_loop_found [of None c order 0 "mgr_heap m"] c assms(2) by (auto simp: GetClient_def)
  with GetClient_loop_max [OF d [unfolded GetClient_def]] c have "RefCount (mgr_heap m) c \<le> RefCount (mgr_heap m) d" by simp
  with d u(1) heap show ?thesis by (simp add: getClientFromCache_def)
qed

end
