(* ===== verification/PortForward.thy ===== *)
theory PortForward
  imports SrvConn
begin

text \<open>
  Port forwarding of the SSH library (\<^verbatim>\<open>pkg/ssh/tcpip.go\<close>).  The handler for reverse forwarding keeps the listeners of all connections in
  one map, by the address that was asked for; for each there is a goroutine that accepts connections and one that waits for the end of the
  SSH connection.  They are steps of a transition system here.  Decoding the requests, dialling and listening belong to libraries.
\<close>

section \<open>Forwarding to an address\<close>

datatype direct_action = DirectRejected string | DirectAcceptFailed | DirectCopying string

definition DirectTCPIPHandler ::
  "(string \<Rightarrow> nat \<Rightarrow> bool) option \<Rightarrow> (string \<times> nat) result \<Rightarrow> (string \<Rightarrow> goerror option) \<Rightarrow> goerror option \<Rightarrow> direct_action" where
  "DirectTCPIPHandler LocalPortForwardingCallback d dialContext acc =
     (case d of
        Inl err \<Rightarrow> DirectRejected (''error parsing forward data: '' @ err)
      | Inr (dest_addr, dest_port) \<Rightarrow>
          if (case LocalPortForwardingCallback of None \<Rightarrow> True | Some cb \<Rightarrow> \<not> cb dest_addr dest_port)
          then DirectRejected ''port forwarding is disabled''
          else
            (let dest = JoinHostPort dest_addr (Itoa (int dest_port))
             in case dialContext dest of
                  Some err \<Rightarrow> DirectRejected err
                | None \<Rightarrow> (case acc of Some err \<Rightarrow> DirectAcceptFailed | None \<Rightarrow> DirectCopying dest)))"

section \<open>Reverse forwarding\<close>

text \<open>Listeners and connections are numbers; \<open>accepting\<close> and \<open>watching\<close> are the goroutines that run.\<close>

record ForwardedTCPHandler =
  forwards :: "string \<Rightarrow> nat option"
  accepting :: "(nat \<times> string) set"
  watching :: "(nat \<times> string) set"
  closed_ls :: "nat set"

definition zero_forwarder :: ForwardedTCPHandler where
  "zero_forwarder = \<lparr>forwards = (\<lambda>_. None), accepting = {}, watching = {}, closed_ls = {}\<rparr>"

datatype forward_request = TcpipForward "(string \<times> nat) result" | CancelTcpipForward "(string \<times> nat) result" | OtherRequest

datatype forward_reply = NoPayload | TextPayload string | PortPayload "32 word"

definition close_found :: "string \<Rightarrow> ForwardedTCPHandler \<Rightarrow> ForwardedTCPHandler" where
  "close_found addr f = (case forwards f addr of None \<Rightarrow> f | Some ln \<Rightarrow> f\<lparr>closed_ls := insert ln (closed_ls f)\<rparr>)"

text \<open>\<open>listen\<close> is what listening on the address gives: the listener and the port it is bound to.\<close>

definition HandleSSHRequest ::
  "(string \<Rightarrow> nat \<Rightarrow> bool) option \<Rightarrow> nat \<Rightarrow> (string \<Rightarrow> (nat \<times> int) result) \<Rightarrow> forward_request \<Rightarrow> ForwardedTCPHandler
   \<Rightarrow> (bool \<times> forward_reply) \<times> ForwardedTCPHandler" where
  "HandleSSHRequest ReversePortForwardingCallback conn listen req f =
     (case req of
        TcpipForward (Inl err) \<Rightarrow> ((False, NoPayload), f)
      | TcpipForward (Inr (BindAddr, BindPort)) \<Rightarrow>
          if (case ReversePortForwardingCallback of None \<Rightarrow> True | Some cb \<Rightarrow> \<not> cb BindAddr BindPort)
          then ((False, TextPayload ''port forwarding is disabled''), f)
          else
            (let addr = JoinHostPort BindAddr (Itoa (int BindPort))
             in case listen addr of
                  Inl err \<Rightarrow> ((False, NoPayload), f)
                | Inr (ln, destPort) \<Rightarrow>
                    ((True, PortPayload (of_int destPort)),
                     f\<lparr>forwards := (forwards f)(addr \<mapsto> ln), watching := insert (conn, addr) (watching f),
                       accepting := insert (ln, addr) (accepting f)\<rparr>))
      | CancelTcpipForward (Inl err) \<Rightarrow> ((False, NoPayload), f)
      | CancelTcpipForward (Inr (BindAddr, BindPort)) \<Rightarrow> ((True, NoPayload), close_found (JoinHostPort BindAddr (Itoa (int BindPort))) f)
      | OtherRequest \<Rightarrow> ((False, NoPayload), f))"

text \<open>What the accept loop opens for a connection from \<open>origin\<close>.\<close>

record remoteForwardChannelData =
  DestAddr :: string
  DestPort :: "32 word"
  OriginAddr :: string
  OriginPort :: "32 word"

definition forwarded_channel :: "string \<Rightarrow> int \<Rightarrow> string \<times> int \<Rightarrow> remoteForwardChannelData" where
  "forwarded_channel BindAddr destPort origin =
     \<lparr>DestAddr = BindAddr, DestPort = of_int destPort, OriginAddr = fst origin, OriginPort = of_int (snd origin)\<rparr>"

text \<open>The goroutine that waits for the connection, and the accept loop after an accept has failed, because its
  listener was closed or for another reason.\<close>

definition connection_done :: "nat \<Rightarrow> string \<Rightarrow> ForwardedTCPHandler \<Rightarrow> ForwardedTCPHandler" where
  "connection_done conn addr f = close_found addr (f\<lparr>watching := watching f - {(conn, addr)}\<rparr>)"

definition accept_loop_end :: "nat \<Rightarrow> string \<Rightarrow> ForwardedTCPHandler \<Rightarrow> ForwardedTCPHandler" where
  "accept_loop_end ln addr f = f\<lparr>accepting := accepting f - {(ln, addr)}, forwards := (forwards f)(addr := None)\<rparr>"

inductive forward_step :: "(string \<Rightarrow> nat \<Rightarrow> bool) option \<Rightarrow> ForwardedTCPHandler \<Rightarrow> ForwardedTCPHandler \<Rightarrow> bool" for cb where
  Request: "forward_step cb f (snd (HandleSSHRequest cb conn listen req f))"
| ConnDone: "(conn, addr) \<in> watching f \<Longrightarrow> forward_step cb f (connection_done conn addr f)"
| LoopEnd: "(ln, addr) \<in> accepting f \<Longrightarrow> forward_step cb f (accept_loop_end ln addr f)"

abbreviation forwarder_reachable :: "(string \<Rightarrow> nat \<Rightarrow> bool) option \<Rightarrow> ForwardedTCPHandler \<Rightarrow> bool" where
  "forwarder_reachable cb \<equiv> reachable ((=) zero_forwarder) (forward_step cb)"

inductive_cases forward_stepE: "forward_step cb f f'"

section \<open>Only allowed addresses are listened on\<close>

definition allowed_addr :: "(string \<Rightarrow> nat \<Rightarrow> bool) option \<Rightarrow> string \<Rightarrow> bool" where
  "allowed_addr cb addr \<longleftrightarrow> (\<exists>h p f. cb = Some f \<and> f h p \<and> addr = JoinHostPort h (Itoa (int p)))"

definition forward_inv :: "(string \<Rightarrow> nat \<Rightarrow> bool) option \<Rightarrow> ForwardedTCPHandler \<Rightarrow> bool" where
  "forward_inv cb f \<longleftrightarrow> (\<forall>(ln, addr) \<in> accepting f. allowed_addr cb addr)
     \<and> (\<forall>addr ln. forwards f addr = Some ln \<longrightarrow> (ln, addr) \<in> accepting f)"

lemma close_found_frame [frame_simps]:
  "accepting (close_found addr f) = accepting f" "forwards (close_found addr f) = forwards f" "watching (close_found addr f) = watching f"
  by (simp_all add: close_found_def split: option.split)

lemma Request_inv: "forward_inv cb f \<Longrightarrow> forward_inv cb (snd (HandleSSHRequest cb conn listen req f))"
  by (auto simp: HandleSSHRequest_def forward_inv_def allowed_addr_def frame_simps Let_def
      split: forward_request.split sum.split prod.split option.splits if_split)

lemma zero_forwarder_inv: "forward_inv cb zero_forwarder"
  by (simp add: forward_inv_def zero_forwarder_def)

lemma connection_done_inv: "forward_inv cb f \<Longrightarrow> forward_inv cb (connection_done conn addr f)"
  by (simp add: forward_inv_def connection_done_def frame_simps)

lemma accept_loop_end_inv: "forward_inv cb f \<Longrightarrow> forward_inv cb (accept_loop_end ln addr f)"
  by (auto simp: forward_inv_def accept_loop_end_def)

lemmas forward_invs = Request_inv connection_done_inv accept_loop_end_inv

interpretation forwarder: invariant_system "(=) zero_forwarder" "forward_step cb" "forward_inv cb" for cb
proof unfold_locales
  show "forward_inv cb f" if "zero_forwarder = f" for f using that zero_forwarder_inv by blast
  show "forward_inv cb f'" if "forward_step cb f f'" "forward_inv cb f" for f f'
    using that by (elim forward_stepE) (simp_all only: forward_invs)
qed

text \<open>
  In every state the handler can reach, each accept loop listens on an address that the callback allows, and the map only knows listeners
  whose accept loop runs.
\<close>

theorem forwarder_allowed:
  assumes "forwarder_reachable cb f"
  shows "(\<forall>(ln, addr) \<in> accepting f. allowed_addr cb addr)
     \<and> (\<forall>addr ln. forwards f addr = Some ln \<longrightarrow> (ln, addr) \<in> accepting f)"
  using forwarder.reachable_inv [OF assms] by (simp add: forward_inv_def)

section \<open>A listener that is forgotten\<close>

text \<open>
  The end of an accept loop deletes the entry of its address whatever listener it holds by then.  When an address is cancelled and asked
  for again before the first loop has noticed, the second listener loses its entry, and neither a cancel request nor the end of the
  connection closes it.
\<close>

definition forgotten_listener :: "string \<Rightarrow> nat \<Rightarrow> ForwardedTCPHandler" where
  "forgotten_listener host port =
     (let cb = Some (\<lambda>_ _. True);
          forward = (\<lambda>ln f. snd (HandleSSHRequest cb 0 (\<lambda>_. Inr (ln, int port)) (TcpipForward (Inr (host, port))) f));
          cancel = (\<lambda>f. snd (HandleSSHRequest cb 0 (\<lambda>_. Inl []) (CancelTcpipForward (Inr (host, port))) f))
      in accept_loop_end 0 (JoinHostPort host (Itoa (int port))) (forward 1 (cancel (forward 0 zero_forwarder))))"

lemma forgotten_listener_reachable: "forwarder_reachable (Some (\<lambda>_ _. True)) (forgotten_listener host port)"
  unfolding forgotten_listener_def Let_def
  by (rule reachable.step [where step = "forward_step _", OF _ LoopEnd])
    (intro reachable.start refl reachable.step [where step = "forward_step _", OF _ Request],
     simp add: HandleSSHRequest_def close_found_def zero_forwarder_def Let_def)

theorem forgotten_listener_survives:
  assumes "addr = JoinHostPort host (Itoa (int port))" "f = forgotten_listener host port"
  shows "(1, addr) \<in> accepting f \<and> 1 \<notin> closed_ls (connection_done 0 addr f)
     \<and> 1 \<notin> closed_ls (snd (HandleSSHRequest cb c listen (CancelTcpipForward (Inr (host, port))) f))"
  using assms
  by (simp add: forgotten_listener_def HandleSSHRequest_def accept_loop_end_def connection_done_def close_found_def zero_forwarder_def Let_def)

end
