(* ===== verification/Util.thy ===== *)
theory Util
  imports Utf8
begin

text \<open>
  The helpers of \<^verbatim>\<open>pkg/common/util.go\<close> that work on values: colours, completion by the longest common
  prefix (a binary search), the columns of the suggestions, and base64.
\<close>

section \<open>Colours and control strings\<close>

definition ColorEscape :: string where "ColorEscape = [CHR 0x1B, CHR ''['']"
definition Green :: string where "Green = ''32m''"
definition Red :: string where "Red = ''31m''"
definition ColorEnd :: string where "ColorEnd = ColorEscape @ ''0m''"
definition Bold :: string where "Bold = ''1''"

definition CharClear :: string where "CharClear = [CHR 0x1B] @ ''[H'' @ [CHR 0x1B] @ ''[2J''"
definition CharTab :: string where "CharTab = [CHR 0x09]"
definition CharNewLine :: string where "CharNewLine = [CHR 0x0D, CHR 0x0A]"

definition WrapperString :: "string \<Rightarrow> string \<Rightarrow> bool list \<Rightarrow> string" where
  "WrapperString text color meta =
     (let wrapWith = (if length meta = 1 then [Bold] else []) @ [color]
      in ColorEscape @ Join wrapWith '';'' @ text @ ColorEnd)"

definition WrapperTitle :: "string \<Rightarrow> string" where
  "WrapperTitle text = WrapperString text Green [True]"

definition WrapperWarn :: "string \<Rightarrow> string" where
  "WrapperWarn text = WrapperString (text @ [CHR 0x0A, CHR 0x0D]) Red []"

definition WindowTitle :: "string \<Rightarrow> string" where
  "WindowTitle title = [CHR 0x1B] @ '']2;'' @ title @ [CHR 0x07]"

section \<open>Completion\<close>

definition isCommonPrefix :: "string list \<Rightarrow> nat \<Rightarrow> bool" where
  "isCommonPrefix strs len = (let str0 = take len (strs ! 0) in \<forall>i \<in> {1..<length strs}. take len (strs ! i) = str0)"

fun min_length :: "string list \<Rightarrow> nat \<Rightarrow> nat" where
  "min_length [] m = m"
| "min_length (s # ss) m = min_length ss (if length s < m then length s else m)"

text \<open>The binary search: \<open>low\<close> is always a common length, nothing above \<open>high\<close> is.\<close>

function lcp_search :: "string list \<Rightarrow> nat \<Rightarrow> nat \<Rightarrow> nat" where
  "lcp_search strs low high =
     (if low < high then
        (let mid = (high - low + 1) div 2 + low
         in if isCommonPrefix strs mid then lcp_search strs mid high else lcp_search strs low (mid - 1))
      else low)"
  by pat_completeness auto
termination
  by (relation "measure (\<lambda>(strs, low, high). high - low)") auto

declare lcp_search.simps [simp del]

definition LongestCommonPrefix :: "string list \<Rightarrow> string" where
  "LongestCommonPrefix strs =
     (if length strs = 0 then []
      else take (lcp_search strs 0 (min_length strs (length (strs ! 0)))) (strs ! 0))"

definition FilterPrefix :: "string list \<Rightarrow> string \<Rightarrow> string list" where
  "FilterPrefix strs s = filter (\<lambda>v. length v \<ge> length s \<and> take (length s) v = s) strs"

definition LongestStr :: "string list \<Rightarrow> string" where
  "LongestStr strs = fold (\<lambda>str longest. if length str \<ge> length longest then str else longest) strs []"

text \<open>The loop of \<^verbatim>\<open>Pretty\<close>; \<open>%\<close> by zero panics.\<close>

fun Pretty_loop :: "nat \<Rightarrow> nat \<Rightarrow> nat \<Rightarrow> string list \<Rightarrow> string \<Rightarrow> string outcome" where
  "Pretty_loop len lineCount idx [] s = Ret s"
| "Pretty_loop len lineCount idx (str # strs) s =
     (if idx = 0 then Pretty_loop len lineCount (idx + 1) strs (s @ pad_right len str)
      else if lineCount = 0 then Panic DivideByZero
      else if idx mod lineCount = 0 then Pretty_loop len lineCount (idx + 1) strs (s @ [CHR 0x0A] @ pad_right len str)
      else Pretty_loop len lineCount (idx + 1) strs (s @ pad_right len str))"

definition Pretty :: "string list \<Rightarrow> nat \<Rightarrow> string outcome" where
  "Pretty strs width =
     (let len = length (LongestStr strs) + 4 in Pretty_loop len (width div len) 0 strs [])"

definition Sum :: "int list \<Rightarrow> int" where
  "Sum i = fold (\<lambda>v sum. sum + v) i 0"

definition Abs :: "int \<Rightarrow> int" where
  "Abs x = (if x < 0 then - x else x)"

section \<open>Base64\<close>

definition base64_char :: "nat \<Rightarrow> char" where
  "base64_char n =
     (if n < 26 then char_of (65 + n) else if n < 52 then char_of (71 + n) else if n < 62 then char_of (n - 4)
      else if n = 62 then CHR ''+'' else CHR ''/'')"

abbreviation code_of :: "char \<Rightarrow> nat" where "code_of \<equiv> of_char"

fun Base64Encode :: "string \<Rightarrow> string" where
  "Base64Encode [] = []"
| "Base64Encode [a] =
     [base64_char (code_of a div 4), base64_char (code_of a mod 4 * 16), CHR ''='', CHR ''='']"
| "Base64Encode [a, b] =
     [base64_char (code_of a div 4), base64_char (code_of a mod 4 * 16 + code_of b div 16),
      base64_char (code_of b mod 16 * 4), CHR ''='']"
| "Base64Encode (a # b # c # s) =
     [base64_char (code_of a div 4), base64_char (code_of a mod 4 * 16 + code_of b div 16),
      base64_char (code_of b mod 16 * 4 + code_of c div 64), base64_char (code_of c mod 64)] @ Base64Encode s"

lemma min_length_attained: "min_length ss m = m \<or> (\<exists>s \<in> set ss. min_length ss m = length s)"
proof (induction ss arbitrary: m)
  case (Cons s ss)
  from Cons.IH [of "if length s < m then length s else m"] show ?case by (auto split: if_splits)
qed simp

section \<open>The binary search finds the longest common prefix\<close>

definition common_prefix :: "string \<Rightarrow> string list \<Rightarrow> bool" where
  "common_prefix p strs \<longleftrightarrow> (\<forall>s \<in> set strs. prefix p s)"

lemma isCommonPrefix_iff:
  assumes "strs \<noteq> []" "\<forall>s \<in> set strs. n \<le> length s"
  shows "isCommonPrefix strs n \<longleftrightarrow> common_prefix (take n (strs ! 0)) strs"
proof -
  have "isCommonPrefix strs n \<longleftrightarrow> (\<forall>i < length strs. take n (strs ! i) = take n (strs ! 0))"
    unfolding isCommonPrefix_def Let_def by (metis atLeastLessThan_iff less_one linorder_not_less)
  also have "\<dots> \<longleftrightarrow> (\<forall>s \<in> set strs. take n s = take n (strs ! 0))"
    by (metis in_set_conv_nth)
  also have "\<dots> \<longleftrightarrow> (\<forall>s \<in> set strs. prefix (take n (strs ! 0)) s)"
  proof (intro ball_cong refl)
    fix s assume "s \<in> set strs"
    moreover have "strs ! 0 \<in> set strs" using assms(1) by simp
    ultimately have "n \<le> length s" "n \<le> length (strs ! 0)" using assms(2) by blast+
    then show "take n s = take n (strs ! 0) \<longleftrightarrow> prefix (take n (strs ! 0)) s"
      by (metis append_eq_conv_conj length_take min.absorb2 prefix_def take_is_prefix)
  qed
  finally show ?thesis by (simp add: common_prefix_def)
qed

lemma common_prefix_mono: "common_prefix p strs \<Longrightarrow> prefix q p \<Longrightarrow> common_prefix q strs"
  unfolding common_prefix_def by (meson prefix_order.order_trans)

lemma min_length_le: "min_length ss m \<le> m \<and> (\<forall>s \<in> set ss. min_length ss m \<le> length s)"
proof (induction ss arbitrary: m)
  case (Cons s ss)
  show ?case
  proof (cases "length s < m")
    case True
    with Cons.IH [of "length s"] show ?thesis by (auto intro: order_trans less_imp_le)
  next
    case False
    with Cons.IH [of m] show ?thesis by (auto intro: order_trans simp: not_less)
  qed
qed simp

lemma isCommonPrefix_anti:
  assumes "strs \<noteq> []" "\<forall>s \<in> set strs. n \<le> length s" "isCommonPrefix strs n" "m \<le> n"
  shows "isCommonPrefix strs m"
proof -
  have "\<forall>s \<in> set strs. m \<le> length s" using assms(2,4) by (meson order_trans)
  moreover have "prefix (take m (strs ! 0)) (take n (strs ! 0))"
    using assms(4) by (metis min.absorb1 take_is_prefix take_take)
  ultimately show ?thesis
    using assms(1-3) isCommonPrefix_iff common_prefix_mono by blast
qed

lemma lcp_search_spec:
  "strs \<noteq> [] \<Longrightarrow> \<forall>s \<in> set strs. bound \<le> length s \<Longrightarrow> low \<le> high \<Longrightarrow> high \<le> bound \<Longrightarrow> isCommonPrefix strs low \<Longrightarrow>
    \<forall>n \<le> bound. isCommonPrefix strs n \<longrightarrow> n \<le> high \<Longrightarrow>
    isCommonPrefix strs (lcp_search strs low high) \<and> lcp_search strs low high \<le> bound \<and>
    (\<forall>n \<le> bound. isCommonPrefix strs n \<longrightarrow> n \<le> lcp_search strs low high)"
proof (induction strs low high rule: lcp_search.induct)
  case (1 strs low high)
  show ?case
  proof (cases "low < high")
    case True
    define mid where "mid = (high - low + 1) div 2 + low"
    have mid: "low < mid" "mid \<le> high" using True by (auto simp: mid_def)
    show ?thesis
    proof (cases "isCommonPrefix strs mid")
      case good: True
      then show ?thesis
        using 1(1) [OF True mid_def good 1(3,4) mid(2) 1(6) good 1(8)] True
        by (simp add: lcp_search.simps [of strs low high] mid_def Let_def)
    next
      case bad: False
      have "\<forall>n \<le> bound. isCommonPrefix strs n \<longrightarrow> n \<le> mid - 1"
      proof (intro allI impI)
        fix n assume n: "n \<le> bound" "isCommonPrefix strs n"
        then have "\<forall>s \<in> set strs. n \<le> length s" using 1(4) by (meson order_trans)
        with isCommonPrefix_anti [OF 1(3) this n(2), of mid] bad show "n \<le> mid - 1" by linarith
      qed
      then show ?thesis
        using 1(2) [OF True mid_def bad 1(3,4) _ _ 1(7)] mid True bad 1(6)
        by (simp add: lcp_search.simps [of strs low high] mid_def Let_def)
    qed
  next
    case False
    then have "low = high" using 1(5) by simp
    moreover from this have "lcp_search strs low high = low" using lcp_search.simps [of strs low high] by simp
    ultimately show ?thesis using 1 by simp
  qed
qed

text \<open>
  C39: the binary search of the completion finds the longest common prefix: what it returns is a prefix of every
  candidate, and every common prefix of the candidates is a prefix of it.
\<close>

theorem LongestCommonPrefix_longest:
  assumes "strs \<noteq> []"
  shows "common_prefix (LongestCommonPrefix strs) strs \<and>
    (\<forall>p. common_prefix p strs \<longrightarrow> prefix p (LongestCommonPrefix strs))"
proof -
  define bound where "bound = min_length strs (length (strs ! 0))"
  define r where "r = lcp_search strs 0 bound"
  have len: "\<forall>s \<in> set strs. bound \<le> length s" using min_length_le by (simp add: bound_def)
  have "isCommonPrefix strs 0" by (simp add: isCommonPrefix_def)
  from lcp_search_spec [OF assms len _ _ this, of bound] have r: "isCommonPrefix strs r" "r \<le> bound"
    "\<forall>n \<le> bound. isCommonPrefix strs n \<longrightarrow> n \<le> r" by (auto simp: r_def)
  have res: "LongestCommonPrefix strs = take r (strs ! 0)"
    using assms by (simp add: LongestCommonPrefix_def r_def bound_def)
  have first: "strs ! 0 \<in> set strs" using assms by simp
  have "prefix p (take r (strs ! 0))" if p: "common_prefix p strs" for p
  proof -
    have all: "\<forall>s \<in> set strs. length p \<le> length s"
      using p by (auto simp: common_prefix_def dest: prefix_length_le)
    have tk: "take (length p) (strs ! 0) = p"
      using p first by (auto simp: common_prefix_def prefix_def)
    have "isCommonPrefix strs (length p)" using isCommonPrefix_iff [OF assms all] tk p by simp
    moreover have "length p \<le> bound"
      using min_length_attained [of strs "length (strs ! 0)"] all first by (auto simp: bound_def)
    ultimately have "length p \<le> r" using r(3) by blast
    then show ?thesis by (metis min.absorb1 take_is_prefix take_take tk)
  qed
  moreover have "common_prefix (take r (strs ! 0)) strs"
    using isCommonPrefix_iff [OF assms, of r] r(1,2) len by (meson order_trans)
  ultimately show ?thesis by (simp add: res)
qed

theorem LongestCommonPrefix_longest_witness:
  "common_prefix (LongestCommonPrefix [''web-1'', ''web-22'', ''web-2'']) [''web-1'', ''web-22'', ''web-2'']"
  using LongestCommonPrefix_longest [of "[''web-1'', ''web-22'', ''web-2'']"] by simp

lemma Pretty_loop_panics:
  "(\<exists>p. Pretty_loop len lineCount idx strs s = Panic p) \<longleftrightarrow> lineCount = 0 \<and> (if idx = 0 then 2 \<le> length strs else strs \<noteq> [])"
proof (induction len lineCount idx strs s rule: Pretty_loop.induct)
  case (2 len lineCount idx str strs s)
  then show ?case by (cases strs) auto
qed simp

text \<open>
  The table of suggestions panics exactly when there are two or more of them and the terminal is narrower than the
  longest one and its four columns of padding: the number of suggestions per line is then zero.
\<close>

theorem Pretty_panics_iff:
  "(\<exists>p. Pretty strs width = Panic p) \<longleftrightarrow> 2 \<le> length strs \<and> width < length (LongestStr strs) + 4"
  unfolding Pretty_def Let_def Pretty_loop_panics by (auto simp: div_eq_0_iff)

section \<open>Base64 can be read back\<close>

definition base64_val :: "char \<Rightarrow> nat" where
  "base64_val ch = (let n = code_of ch in
     if 65 \<le> n \<and> n < 91 then n - 65 else if 97 \<le> n \<and> n < 123 then n - 71 else if 48 \<le> n \<and> n < 58 then n + 4
     else if n = 43 then 62 else 63)"

fun base64_decode :: "string \<Rightarrow> string" where
  "base64_decode (p # q # r # t # s) =
     (let a = base64_val p; b = base64_val q; c = base64_val r; d = base64_val t
      in if r = CHR ''='' then [char_of (a * 4 + b div 16)]
         else if t = CHR ''='' then [char_of (a * 4 + b div 16), char_of (b mod 16 * 16 + c div 4)]
         else [char_of (a * 4 + b div 16), char_of (b mod 16 * 16 + c div 4), char_of (c mod 4 * 64 + d)] @ base64_decode s)"
| "base64_decode _ = []"

lemma base64_val_char: "n < 64 \<Longrightarrow> base64_val (base64_char n) = n"
  by (auto simp: base64_val_def base64_char_def Let_def)

lemma base64_char_pad: "n < 64 \<Longrightarrow> base64_char n \<noteq> CHR ''=''"
proof
  assume "n < 64" "base64_char n = CHR ''=''"
  then have "base64_val (base64_char n) = 63" "code_of (base64_char n) = 61" by (simp_all add: base64_val_def)
  with base64_val_char [OF \<open>n < 64\<close>] have "n = 63" "code_of (base64_char n) = 61" by simp_all
  then show False by (simp add: base64_char_def)
qed

lemma code_of_less: "code_of ch < 256" "code_of ch div 4 < 64" "code_of ch mod 4 * 16 < 64" "code_of ch mod 16 * 4 < 64"
  "code_of ch mod 64 < 64"
proof -
  show "code_of ch < 256"
    by (metis char_of_char of_char_of mod_less_divisor zero_less_numeral)
  then show "code_of ch div 4 < 64" by linarith
qed linarith+

text \<open>
  Base64 is read back to what was encoded, whatever the bytes; so two keys with the same encoding, which is
  what public key authentication compares, are the same key.
\<close>

theorem Base64Encode_roundtrip: "base64_decode (Base64Encode s) = s"
proof (induction s rule: Base64Encode.induct)
  case (2 a)
  show ?case using code_of_less [of a] by (simp add: base64_val_char)
next
  case (3 a b)
  have "code_of a mod 4 * 16 + code_of b div 16 < 64" using code_of_less [of b] by linarith
  then show ?case using code_of_less [of a] code_of_less [of b] by (simp add: base64_val_char base64_char_pad)
next
  case (4 a b c s)
  have "code_of a mod 4 * 16 + code_of b div 16 < 64" "code_of b mod 16 * 4 + code_of c div 64 < 64"
    using code_of_less [of b] code_of_less [of c] by linarith+
  then show ?case
    using 4 code_of_less [of a] code_of_less [of b] code_of_less [of c] by (simp add: base64_val_char base64_char_pad)
qed simp

section \<open>Signatures\<close>

text \<open>\<^verbatim>\<open>fmt.Sprintf("%x", ...)\<close> of bytes; MD5 is a parameter.\<close>

definition hex_char :: "nat \<Rightarrow> char" where
  "hex_char n = (if n < 10 then char_of (48 + n) else char_of (87 + n))"

definition hex_bytes :: "string \<Rightarrow> string" where
  "hex_bytes b = concat (map (\<lambda>c. [hex_char (of_char c div 16), hex_char (of_char c mod 16)]) b)"

definition MD5Encode :: "(string \<Rightarrow> string) \<Rightarrow> string \<Rightarrow> string" where
  "MD5Encode md5_Sum b = hex_bytes (md5_Sum b)"

definition MakeSignature :: "(string \<Rightarrow> string) \<Rightarrow> string \<Rightarrow> string \<Rightarrow> string" where
  "MakeSignature md5_Sum key date = Base64Encode (MD5Encode md5_Sum (Join [key, date] [char_of (10 :: nat)]))"

definition hex_val :: "char \<Rightarrow> nat" where
  "hex_val c = (let n = of_char c in if n < 58 then n - 48 else n - 87)"

fun unhex :: "string \<Rightarrow> string" where
  "unhex (a # b # s) = char_of (hex_val a * 16 + hex_val b) # unhex s"
| "unhex _ = []"

lemma hex_val_char: "n < 16 \<Longrightarrow> hex_val (hex_char n) = n"
  by (auto simp: hex_val_def hex_char_def Let_def)

lemma unhex_hex_bytes: "unhex (hex_bytes b) = b"
proof (induction b)
  case (Cons c b)
  have "of_char c div 16 < (16 :: nat)" using code_of_less(1) [of c] by linarith
  moreover have "of_char c div 16 * 16 + of_char c mod 16 = (of_char c :: nat)" by (rule div_mult_mod_eq)
  ultimately show ?case using Cons by (simp add: hex_bytes_def hex_val_char)
qed (simp add: hex_bytes_def)

text \<open>A signature stands for the digest it was made from: signatures of different digests differ.\<close>

theorem MakeSignature_digest:
  "unhex (base64_decode (MakeSignature md5_Sum key date)) = md5_Sum (key @ char_of (10 :: nat) # date)"
  by (simp add: MakeSignature_def MD5Encode_def Base64Encode_roundtrip unhex_hex_bytes)

end
