(* ===== verification/Selection.thy ===== *)
theory Selection
  imports Directory Util
begin

text \<open>
  The asset menu (\<^verbatim>\<open>pkg/handler/selectHandler.go\<close>, \<^verbatim>\<open>pkg/handler/pageInfo.go\<close>, \<^verbatim>\<open>pkg/handler/asset.go\<close>): searching, paging, sorting a
  page for display, completing host names, and turning what the user types into the asset to connect to.
  The items are the maps that the core builds for the assets of a user.
\<close>

section \<open>Pages\<close>

definition PAGESIZEALL :: nat where "PAGESIZEALL = 0"

record pageInfo =
  pageSize :: nat
  currentTotal :: nat
  currentOffset :: nat
  totalPage :: nat
  currentPage :: nat
  totalCount :: nat

definition refresh_pages :: "pageInfo \<Rightarrow> pageInfo" where
  "refresh_pages p =
     (if pageSize p \<le> 0 then p\<lparr>totalPage := 1, currentPage := 1\<rparr>
      else
        p\<lparr>totalPage := (if totalCount p mod pageSize p = 0 then totalCount p div pageSize p
                        else totalCount p div pageSize p + 1),
          currentPage := (if currentOffset p mod pageSize p = 0 then currentOffset p div pageSize p
                          else currentOffset p div pageSize p + 1)\<rparr>)"

definition updatePageInfo :: "nat \<Rightarrow> nat \<Rightarrow> nat \<Rightarrow> nat \<Rightarrow> pageInfo \<Rightarrow> pageInfo" where
  "updatePageInfo ps currTotal off tot p =
     refresh_pages (p\<lparr>pageSize := ps, currentTotal := currTotal, currentOffset := off, totalCount := tot\<rparr>)"

section \<open>State of the menu\<close>

datatype selectType = TypeUnset | TypeAsset | TypeNodeAsset

record UserSelectHandler =
  currentType :: selectType
  searchKeys :: "string list"
  hasPre :: bool
  hasNext :: bool
  allLocalData :: "asset_map list"
  selectedNode :: Node
  currentResult :: "asset_map list"
  page :: pageInfo
  sel_prompt :: string
  suggests :: "string list"

definition SetAllLocalData :: "asset_map list \<Rightarrow> UserSelectHandler \<Rightarrow> UserSelectHandler" where
  "SetAllLocalData data u = u\<lparr>allLocalData := data\<rparr>"

definition HasJustOneAsset :: "UserSelectHandler \<Rightarrow> bool" where
  "HasJustOneAsset u \<longleftrightarrow> length (allLocalData u) = 1"

text \<open>A type assertion on a missing field panics.\<close>

definition string_field :: "asset_map \<Rightarrow> string \<Rightarrow> string outcome" where
  "string_field item k = (case item k of Some s \<Rightarrow> Ret s | None \<Rightarrow> Panic TypeAssertion)"

fun string_fields :: "asset_map list \<Rightarrow> string \<Rightarrow> string list outcome" where
  "string_fields [] k = Ret []"
| "string_fields (item # items) k =
     outcome_bind (string_field item k) (\<lambda>s. outcome_bind (string_fields items k) (\<lambda>ss. Ret (s # ss)))"

section \<open>Searching\<close>

definition containKeysInMapItemFields :: "asset_map \<Rightarrow> string list \<Rightarrow> string list \<Rightarrow> bool" where
  "containKeysInMapItemFields item searchFields matchedKeys =
     (if length matchedKeys = 0 then True
      else if length matchedKeys = 1 \<and> matchedKeys ! 0 = [] then True
      else list_ex (\<lambda>k. case item k of None \<Rightarrow> False | Some result \<Rightarrow> list_ex (\<lambda>v. Contains result v) matchedKeys) searchFields)"

definition asset_fields :: "string list" where
  "asset_fields = [''name'', ''hostname'', ''ip'', ''platform'', ''comment'']"

definition searchLocalFromFields :: "string list \<Rightarrow> string list \<Rightarrow> UserSelectHandler \<Rightarrow> asset_map list" where
  "searchLocalFromFields sf searches u = filter (\<lambda>v. containKeysInMapItemFields v sf searches) (allLocalData u)"

definition searchLocalAsset :: "string list \<Rightarrow> UserSelectHandler \<Rightarrow> asset_map list" where
  "searchLocalAsset searches u = searchLocalFromFields asset_fields searches u"

definition containAssetIDinMap :: "asset_map \<Rightarrow> string list \<Rightarrow> bool" where
  "containAssetIDinMap item iDs = (case item ''id'' of None \<Rightarrow> False | Some i \<Rightarrow> list_ex (\<lambda>v. i = v) iDs)"

definition retrieveLocalNodeAsset :: "UserSelectHandler \<Rightarrow> asset_map list" where
  "retrieveLocalNodeAsset u = filter (\<lambda>v. containAssetIDinMap v (AssetIDs (selectedNode u))) (allLocalData u)"

text \<open>\<^verbatim>\<open>retrieveLocal\<close> on a menu whose type is set.\<close>

definition retrieveLocal :: "string list \<Rightarrow> UserSelectHandler \<Rightarrow> asset_map list" where
  "retrieveLocal searches u = (if currentType u = TypeNodeAsset then retrieveLocalNodeAsset u else searchLocalAsset searches u)"

text \<open>The part of \<^verbatim>\<open>Retrieve\<close> after the search: the page, and the new page information.\<close>

definition paginate :: "nat \<Rightarrow> nat \<Rightarrow> asset_map list \<Rightarrow> UserSelectHandler \<Rightarrow> asset_map list \<times> UserSelectHandler" where
  "paginate ps off searchResult u =
     (let tot = length searchResult;
          totalData = (if off < tot then drop off searchResult else []);
          cps = (if ps = PAGESIZEALL then length totalData else ps);
          currentData = (if length totalData > cps then take cps totalData else totalData);
          p = updatePageInfo cps (length totalData) (off + length currentData) tot (page u)
      in (currentData, u\<lparr>page := p, hasPre := (currentPage p > 1), hasNext := (currentPage p < totalPage p)\<rparr>))"

definition retrieve_set :: "int \<Rightarrow> int \<Rightarrow> string list \<Rightarrow> UserSelectHandler \<Rightarrow> asset_map list \<times> UserSelectHandler" where
  "retrieve_set ps off searches u =
     paginate (if ps \<le> 0 then PAGESIZEALL else nat ps) (if off < 0 then 0 else nat off)
       (retrieveLocal searches u) u"

text \<open>
  \<^verbatim>\<open>AutoCompletion\<close> collects the host names of all items, \<open>srt\<close> being \<^verbatim>\<open>sort.Strings\<close>; it runs on a menu whose type is set.
\<close>

definition AutoCompletion :: "string sorter \<Rightarrow> UserSelectHandler \<Rightarrow> UserSelectHandler outcome" where
  "AutoCompletion srt u =
     (let (assets, u) = retrieve_set 0 0 [[]] u
      in outcome_bind (string_fields assets ''hostname'') (\<lambda>names. Ret (u\<lparr>suggests := srt (<) names\<rparr>)))"

definition SetSelectType :: "string sorter \<Rightarrow> selectType \<Rightarrow> UserSelectHandler \<Rightarrow> UserSelectHandler outcome" where
  "SetSelectType srt s u =
     (let u = u\<lparr>currentType := s\<rparr>
      in case s of
           TypeAsset \<Rightarrow> outcome_bind (AutoCompletion srt u) (\<lambda>u. Ret (u\<lparr>sel_prompt := ''[Host]> ''\<rparr>))
         | TypeNodeAsset \<Rightarrow> Ret (u\<lparr>sel_prompt := ''[Host]> ''\<rparr>)
         | TypeUnset \<Rightarrow> Ret u)"

definition SetNode :: "string sorter \<Rightarrow> Node \<Rightarrow> UserSelectHandler \<Rightarrow> UserSelectHandler outcome" where
  "SetNode srt node u = outcome_bind (SetSelectType srt TypeNodeAsset u) (\<lambda>u. Ret (u\<lparr>selectedNode := node\<rparr>))"

definition Retrieve :: "string sorter \<Rightarrow> int \<Rightarrow> int \<Rightarrow> string list \<Rightarrow> UserSelectHandler \<Rightarrow> (asset_map list \<times> UserSelectHandler) outcome" where
  "Retrieve srt ps off searches u =
     (if currentType u = TypeUnset
      then outcome_bind (SetSelectType srt TypeAsset u) (\<lambda>u. Ret (retrieve_set ps off searches u))
      else Ret (retrieve_set ps off searches u))"

text \<open>The completion callback: the completed line, where there is one, for the tabulator key (9).\<close>

definition complete :: "UserSelectHandler \<Rightarrow> nat \<Rightarrow> string \<Rightarrow> nat \<Rightarrow> (string \<times> nat) option outcome" where
  "complete u width line key =
     (if key = 9 \<and> length line \<ge> 1 then
        (let sugs = FilterPrefix (suggests u) line
         in if length sugs \<ge> 1 then
              (let p = LongestCommonPrefix sugs
               in outcome_bind (Pretty sugs width) (\<lambda>_. Ret (Some (p, length p))))
            else Ret None)
      else Ret None)"

section \<open>Displaying\<close>

definition CompareIP :: "string \<Rightarrow> string \<Rightarrow> bool" where
  "CompareIP ipA ipB = segments_less (Split ipA CHR ''.'') (Split ipB CHR ''.'')"

definition less_by :: "string \<Rightarrow> (string \<Rightarrow> string \<Rightarrow> bool) \<Rightarrow> asset_map \<Rightarrow> asset_map \<Rightarrow> bool" where
  "less_by k cmp l r = (case l k of None \<Rightarrow> False | Some a \<Rightarrow> (case r k of None \<Rightarrow> False | Some b \<Rightarrow> cmp a b))"

definition HostnameAssetList_Less :: "asset_map \<Rightarrow> asset_map \<Rightarrow> bool" where
  "HostnameAssetList_Less = less_by ''hostname'' (<)"

definition IPAssetList_Less :: "asset_map \<Rightarrow> asset_map \<Rightarrow> bool" where
  "IPAssetList_Less = less_by ''ip'' CompareIP"

text \<open>\<^verbatim>\<open>joinMultiLineString\<close>; \<open>ReplaceAll2\<close> is \<^verbatim>\<open>strings.ReplaceAll\<close> of a doubled byte by one.\<close>

fun ReplaceAll2 :: "char \<Rightarrow> string \<Rightarrow> string" where
  "ReplaceAll2 ch (a # b # s) = (if a = ch \<and> b = ch then ch # ReplaceAll2 ch s else a # ReplaceAll2 ch (b # s))"
| "ReplaceAll2 ch s = s"

definition replace_char :: "char \<Rightarrow> char \<Rightarrow> string \<Rightarrow> string" where
  "replace_char a b = map (\<lambda>x. if x = a then b else x)"

definition joinMultiLineString :: "string \<Rightarrow> string" where
  "joinMultiLineString lines =
     (let lines = ReplaceAll2 (CHR 0x0A) (replace_char (CHR 0x0D) (CHR 0x0A) lines);
          cleaned = filter (\<lambda>l. l \<noteq> []) (map TrimSpace (Split (TrimSpace lines) (CHR 0x0A)))
      in Join (map (replace_char (CHR '' '') (CHR '','')) cleaned) ''|'')"

text \<open>The rows of the table: number, host name, address, platform, comment.\<close>

definition convertMapItemToRow :: "nat \<Rightarrow> asset_map \<Rightarrow> string list" where
  "convertMapItemToRow i item =
     [Itoa (int i + 1), lookup_str item ''hostname'', lookup_str item ''ip'', lookup_str item ''platform'',
      joinMultiLineString (lookup_str item ''comment'')]"

datatype displayed = NoAssets string | AssetTable "string list list" nat nat nat | UnknownType

definition displaySortedAssets :: "asset_map sorter \<Rightarrow> bool \<Rightarrow> UserSelectHandler \<Rightarrow> displayed \<times> UserSelectHandler" where
  "displaySortedAssets srt byIp u =
     (let u = u\<lparr>currentResult := srt (if byIp then IPAssetList_Less else HostnameAssetList_Less) (currentResult u)\<rparr>
      in (AssetTable (map (\<lambda>(i, j). convertMapItemToRow i j) (zip [0..<length (currentResult u)] (currentResult u)))
            (currentPage (page u)) (totalPage (page u)) (totalCount (page u)), u))"

definition DisplayCurrentResult :: "asset_map sorter \<Rightarrow> bool \<Rightarrow> UserSelectHandler \<Rightarrow> displayed \<times> UserSelectHandler" where
  "DisplayCurrentResult srt byIp u =
     (case currentType u of
        TypeNodeAsset \<Rightarrow>
          if length (currentResult u) = 0 then (NoAssets (node_Name (selectedNode u) @ '' node has no assets''), u)
          else displaySortedAssets srt byIp u
      | TypeAsset \<Rightarrow> if length (currentResult u) = 0 then (NoAssets ''No Assets'', u) else displaySortedAssets srt byIp u
      | TypeUnset \<Rightarrow> (UnknownType, u))"

section \<open>Operations of the menu\<close>

text \<open>
  What the menu uses of its handler: the two sorts, the order chosen in the configuration and the page size.  Each
  operation returns what it displayed (\<open>None\<close>: it proxied instead).
\<close>

record menu_env =
  sort_Strings :: "string sorter"
  sort_Items :: "asset_map sorter"
  by_ip :: bool
  newPageSize :: int

definition show_result :: "menu_env \<Rightarrow> UserSelectHandler \<Rightarrow> displayed \<times> UserSelectHandler" where
  "show_result V u = DisplayCurrentResult (sort_Items V) (by_ip V) u"

definition retrieve_into :: "menu_env \<Rightarrow> int \<Rightarrow> string list \<Rightarrow> UserSelectHandler \<Rightarrow> UserSelectHandler outcome" where
  "retrieve_into V off searches u =
     outcome_bind (Retrieve (sort_Strings V) (newPageSize V) off searches u) (\<lambda>(res, u). Ret (u\<lparr>currentResult := res\<rparr>))"

definition MoveNextPage :: "menu_env \<Rightarrow> UserSelectHandler \<Rightarrow> (displayed \<times> UserSelectHandler) outcome" where
  "MoveNextPage V u =
     outcome_bind (if hasNext u then retrieve_into V (int (currentOffset (page u))) (searchKeys u) u else Ret u)
       (\<lambda>u. Ret (show_result V u))"

definition MovePrePage :: "menu_env \<Rightarrow> UserSelectHandler \<Rightarrow> (displayed \<times> UserSelectHandler) outcome" where
  "MovePrePage V u =
     outcome_bind
       (if hasPre u then
          (let start = int (currentOffset (page u)) - newPageSize V * 2
           in retrieve_into V (if start \<le> 0 then 0 else start) (searchKeys u) u)
        else Ret u)
       (\<lambda>u. Ret (show_result V u))"

definition Search :: "menu_env \<Rightarrow> string \<Rightarrow> UserSelectHandler \<Rightarrow> (displayed \<times> UserSelectHandler) outcome" where
  "Search V key u =
     outcome_bind (retrieve_into V 0 [key] u) (\<lambda>u. Ret (show_result V (u\<lparr>searchKeys := [key]\<rparr>)))"

definition SearchAgain :: "menu_env \<Rightarrow> string \<Rightarrow> UserSelectHandler \<Rightarrow> (displayed \<times> UserSelectHandler) outcome" where
  "SearchAgain V key u =
     (let u = u\<lparr>searchKeys := searchKeys u @ [key]\<rparr>
      in outcome_bind (retrieve_into V 0 (searchKeys u) u) (\<lambda>u. Ret (show_result V u)))"

fun matching :: "string \<Rightarrow> asset_map list \<Rightarrow> asset_map list outcome" where
  "matching key [] = Ret []"
| "matching key (item # items) =
     outcome_bind (string_field item ''ip'') (\<lambda>ip. outcome_bind (string_field item ''hostname'') (\<lambda>hostname.
       outcome_bind (matching key items) (\<lambda>ms. Ret (if key = ip \<or> key = hostname then item # ms else ms))))"

definition getUniqueAssetFromKey :: "string \<Rightarrow> asset_map list \<Rightarrow> asset_map option outcome" where
  "getUniqueAssetFromKey key res = outcome_bind (matching key res) (\<lambda>ms. Ret (if length ms = 1 then Some (ms ! 0) else None))"

text \<open>\<^verbatim>\<open>SearchOrProxy\<close>: the item to connect to, or what was displayed.\<close>

definition SearchOrProxy :: "menu_env \<Rightarrow> string \<Rightarrow> UserSelectHandler \<Rightarrow> ((asset_map + displayed) \<times> UserSelectHandler) outcome" where
  "SearchOrProxy V key u =
     (case (case Atoi key of
              Some indexNum \<Rightarrow>
                if length (currentResult u) > 0 \<and> indexNum > 0 \<and> indexNum \<le> int (length (currentResult u))
                then Some (currentResult u ! (nat indexNum - 1)) else None
            | None \<Rightarrow> None) of
        Some target \<Rightarrow> Ret (Inl target, u)
      | None \<Rightarrow>
          outcome_bind (retrieve_into V 0 [key] u) (\<lambda>u.
            let u = u\<lparr>searchKeys := [key]\<rparr>; res = currentResult u
            in if length res = 1 then Ret (Inl (res ! 0), u)
               else outcome_bind (if currentType u = TypeAsset \<and> TrimSpace key \<noteq> [] then getUniqueAssetFromKey key res else Ret None) (\<lambda>r.
                 case r of
                   Some target \<Rightarrow> Ret (Inl target, u)
                 | None \<Rightarrow> (let (d, u) = show_result V u in Ret (Inr d, u)))))"

text \<open>The checks of \<^verbatim>\<open>Proxy\<close> before it hands the asset to the proxy.\<close>

datatype select_action = AssetNotFound | AssetInactive | LoginTo Asset

definition select_Proxy :: "'db engine \<Rightarrow> 'db Core \<Rightarrow> selectType \<Rightarrow> asset_map \<Rightarrow> select_action option outcome" where
  "select_Proxy E c tp target =
     outcome_bind (string_field target ''id'') (\<lambda>targetId.
       if tp = TypeAsset \<or> tp = TypeNodeAsset then
         (let (asset, err) = GetAssetById E c targetId
          in Ret (Some (if err \<noteq> None \<or> asset_ID asset = [] then AssetNotFound
                        else if \<not> asset_IsActive asset then AssetInactive else LoginTo asset)))
       else Ret None)"

section \<open>Paging\<close>

text \<open>The number of pages of size \<open>p\<close> that \<open>a\<close> items fill, and what it means for a page number to be reached.\<close>

definition pages_for :: "nat \<Rightarrow> nat \<Rightarrow> nat" where
  "pages_for a p = (if a mod p = 0 then a div p else a div p + 1)"

lemma pages_for_le: "0 < p \<Longrightarrow> pages_for a p \<le> m \<longleftrightarrow> a \<le> m * p"
proof -
  assume p: "0 < p"
  have "a \<le> m * p \<longleftrightarrow> (if a mod p = 0 then a div p \<le> m else a div p < m)"
    using p by (metis (no_types, lifting) div_mult_mod_eq add_0_right div_less_iff_less_mult dvd_eq_mod_eq_0
        dvd_mult_div_cancel le_less_linear le_neq_implies_less mult.commute mult_le_cancel1 mod_mult_self1_is_0 nat_less_le not_less)
  then show ?thesis by (auto simp: pages_for_def)
qed

lemma pages_for_eq: "0 < p \<Longrightarrow> k * p < a \<Longrightarrow> a \<le> Suc k * p \<Longrightarrow> pages_for a p = Suc k"
  using pages_for_le [of p a k] pages_for_le [of p a "Suc k"] by linarith

lemma refresh_pages_fields:
  assumes "0 < pageSize p"
  shows "refresh_pages p = p\<lparr>totalPage := pages_for (totalCount p) (pageSize p),
    currentPage := pages_for (currentOffset p) (pageSize p)\<rparr>"
  using assms by (simp add: refresh_pages_def pages_for_def)

lemma paginate_page:
  assumes "0 < p" "k * p < length R" "paginate p (k * p) R u = (res, u')"
  shows "res = take p (drop (k * p) R) \<and> currentOffset (page u') = min (Suc k * p) (length R)
    \<and> currentPage (page u') = Suc k \<and> totalPage (page u') = pages_for (length R) p
    \<and> totalCount (page u') = length R \<and> (hasNext u' \<longleftrightarrow> Suc k * p < length R) \<and> (hasPre u' \<longleftrightarrow> 0 < k)
    \<and> currentType u' = currentType u \<and> allLocalData u' = allLocalData u \<and> searchKeys u' = searchKeys u
    \<and> selectedNode u' = selectedNode u"
proof -
  let ?P = "(page u)\<lparr>pageSize := p, currentTotal := length R - k * p, currentOffset := min (Suc k * p) (length R),
      totalCount := length R, totalPage := pages_for (length R) p, currentPage := Suc k\<rparr>"
  have page: "pages_for (min (Suc k * p) (length R)) p = Suc k"
    using assms by (intro pages_for_eq) auto
  have total: "Suc k < pages_for (length R) p \<longleftrightarrow> Suc k * p < length R"
    using pages_for_le [OF assms(1), of "length R" "Suc k"] by linarith
  have off: "k * p + min (length R - k * p) p = min (p + k * p) (length R)" using assms(2) by linarith
  have "refresh_pages ((page u)\<lparr>pageSize := p, currentTotal := length R - k * p,
      currentOffset := k * p + length (take p (drop (k * p) R)), totalCount := length R\<rparr>) = ?P"
    using assms(1) page by (simp add: refresh_pages_fields off)
  then have "paginate p (k * p) R u =
      (take p (drop (k * p) R), u\<lparr>page := ?P, hasPre := 0 < k, hasNext := Suc k < pages_for (length R) p\<rparr>)"
    using assms(1,2) by (auto simp: paginate_def updatePageInfo_def Let_def PAGESIZEALL_def)
  with assms(3) total show ?thesis by auto
qed

lemma retrieveLocal_frame [frame_simps]:
  "retrieveLocal ks (u\<lparr>currentResult := rs\<rparr>) = retrieveLocal ks u" "retrieveLocal ks (u\<lparr>searchKeys := keys\<rparr>) = retrieveLocal ks u"
  by (simp_all add: retrieveLocal_def retrieveLocalNodeAsset_def searchLocalAsset_def searchLocalFromFields_def)

lemma retrieve_into_page:
  assumes "newPageSize V = int p" "0 < p" "currentType u \<noteq> TypeUnset" "k * p < length (retrieveLocal keys u)"
  shows "\<exists>u'. retrieve_into V (int (k * p)) keys u = Ret u' \<and> currentResult u' = take p (drop (k * p) (retrieveLocal keys u))
    \<and> currentOffset (page u') = min (Suc k * p) (length (retrieveLocal keys u)) \<and> currentPage (page u') = Suc k
    \<and> totalPage (page u') = pages_for (length (retrieveLocal keys u)) p
    \<and> (hasNext u' \<longleftrightarrow> Suc k * p < length (retrieveLocal keys u)) \<and> (hasPre u' \<longleftrightarrow> 0 < k)
    \<and> currentType u' = currentType u \<and> searchKeys u' = searchKeys u \<and> (\<forall>ks. retrieveLocal ks u' = retrieveLocal ks u)"
proof -
  obtain res u' where r: "paginate p (k * p) (retrieveLocal keys u) u = (res, u')" by fastforce
  have "retrieve_into V (int (k * p)) keys u = Ret (u'\<lparr>currentResult := res\<rparr>)"
    using assms r by (simp add: retrieve_into_def Retrieve_def retrieve_set_def del: of_nat_mult)
  with paginate_page [OF assms(2,4) r] show ?thesis
    by (simp add: retrieveLocal_def retrieveLocalNodeAsset_def searchLocalAsset_def searchLocalFromFields_def)
qed

lemma show_result_sorts:
  assumes "sort_contract (sort_Items V)" "show_result V u = (d, u')"
  shows "\<exists>rs. u' = u\<lparr>currentResult := rs\<rparr> \<and> mset rs = mset (currentResult u)"
proof -
  have "u' = u\<lparr>currentResult := currentResult u\<rparr>
      \<or> (\<exists>lt. u' = u\<lparr>currentResult := sort_Items V lt (currentResult u)\<rparr>)"
    using assms(2) by (auto simp: show_result_def DisplayCurrentResult_def displaySortedAssets_def Let_def
        split: selectType.splits if_splits)
  with assms(1) show ?thesis unfolding sort_contract_def by blast
qed

primrec next_pages :: "menu_env \<Rightarrow> nat \<Rightarrow> (displayed \<times> UserSelectHandler) outcome \<Rightarrow> (displayed \<times> UserSelectHandler) outcome" where
  "next_pages V 0 r = r"
| "next_pages V (Suc k) r = outcome_bind (next_pages V k r) (\<lambda>(_, u). MoveNextPage V u)"

text \<open>The state the menu is in on page \<open>k\<close> (from 0) of the results \<open>R\<close> of a search.\<close>

definition on_page :: "nat \<Rightarrow> asset_map list \<Rightarrow> nat \<Rightarrow> UserSelectHandler \<Rightarrow> bool" where
  "on_page p R k u \<longleftrightarrow> mset (currentResult u) = mset (take p (drop (k * p) R))
     \<and> currentOffset (page u) = min (Suc k * p) (length R) \<and> currentPage (page u) = Suc k
     \<and> totalPage (page u) = pages_for (length R) p \<and> (hasNext u \<longleftrightarrow> Suc k * p < length R) \<and> (hasPre u \<longleftrightarrow> 0 < k)
     \<and> currentType u \<noteq> TypeUnset \<and> retrieveLocal (searchKeys u) u = R"

lemma show_result_on_page:
  assumes "sort_contract (sort_Items V)" "show_result V u = (d, u')" "on_page p R k u"
  shows "on_page p R k u'"
proof -
  from show_result_sorts [OF assms(1,2)] obtain rs where "u' = u\<lparr>currentResult := rs\<rparr>" "mset rs = mset (currentResult u)"
    by blast
  with assms(3) show ?thesis
    by (simp add: on_page_def frame_simps)
qed

lemma retrieve_into_on_page:
  assumes "sort_contract (sort_Items V)" "newPageSize V = int p" "0 < p" "currentType u \<noteq> TypeUnset"
    "k * p < length (retrieveLocal keys u)"
  shows "\<exists>d u'. outcome_bind (retrieve_into V (int (k * p)) keys u)
      (\<lambda>u. Ret (show_result V (u\<lparr>searchKeys := keys\<rparr>))) = Ret (d, u') \<and> on_page p (retrieveLocal keys u) k u'"
proof -
  from retrieve_into_page [OF assms(2-5)] obtain u1 where
    r: "retrieve_into V (int (k * p)) keys u = Ret u1" and "on_page p (retrieveLocal keys u) k (u1\<lparr>searchKeys := keys\<rparr>)"
    using assms(4) by (auto simp: on_page_def frame_simps)
  moreover obtain d u' where "show_result V (u1\<lparr>searchKeys := keys\<rparr>) = (d, u')" by fastforce
  ultimately show ?thesis using show_result_on_page [OF assms(1)] by (auto simp del: outcome_bind_eq_Ret)
qed

lemma searchKeys_same: "u\<lparr>searchKeys := searchKeys u\<rparr> = u"
  by simp

lemma MoveNextPage_on_page:
  assumes "sort_contract (sort_Items V)" "newPageSize V = int p" "0 < p" "on_page p R k u" "Suc k * p < length R"
  shows "\<exists>d u'. MoveNextPage V u = Ret (d, u') \<and> on_page p R (Suc k) u'"
proof -
  have "hasNext u" "currentOffset (page u) = Suc k * p" "currentType u \<noteq> TypeUnset" "retrieveLocal (searchKeys u) u = R"
    using assms(4,5) by (simp_all add: on_page_def)
  moreover from this assms obtain u1 where r: "retrieve_into V (int (Suc k * p)) (searchKeys u) u = Ret u1"
    "searchKeys u1 = searchKeys u" using retrieve_into_page [of V p u "Suc k" "searchKeys u"] by auto
  ultimately show ?thesis
    using retrieve_into_on_page [OF assms(1-3), of u "Suc k" "searchKeys u"] assms(5)
    by (simp add: MoveNextPage_def del: outcome_bind_eq_Ret mult_Suc of_nat_mult) (metis searchKeys_same r(2))
qed

text \<open>
  C21: paging forward through the results of a search shows every result exactly once: the \<open>k\<close>-th page down after a search
  shows the items \<open>k * p\<close> to \<open>k * p + p - 1\<close> of the results, the page numbers are right, and there is a next page
  exactly as long as items remain.
\<close>

theorem paging_covers_results:
  assumes "sort_contract (sort_Items V)" "newPageSize V = int p" "0 < p" "currentType u \<noteq> TypeUnset"
    "k * p < length (retrieveLocal [key] u)"
  shows "\<exists>d u'. next_pages V k (Search V key u) = Ret (d, u')
    \<and> mset (currentResult u') = mset (take p (drop (k * p) (retrieveLocal [key] u)))
    \<and> currentPage (page u') = Suc k \<and> totalPage (page u') = pages_for (length (retrieveLocal [key] u)) p
    \<and> (hasNext u' \<longleftrightarrow> Suc k * p < length (retrieveLocal [key] u))"
proof -
  have "\<exists>d u'. next_pages V k (Search V key u) = Ret (d, u') \<and> on_page p (retrieveLocal [key] u) k u'"
    using assms(5)
  proof (induction k)
    case 0
    with retrieve_into_on_page [OF assms(1-4), of 0 "[key]"] show ?case by (simp add: Search_def)
  next
    case (Suc k)
    then obtain d u' where "next_pages V k (Search V key u) = Ret (d, u')" "on_page p (retrieveLocal [key] u) k u'" by auto
    with MoveNextPage_on_page [OF assms(1-3), of _ k u'] Suc.prems show ?case by simp
  qed
  then show ?thesis by (auto simp: on_page_def)
qed

definition example_menu :: UserSelectHandler where
  "example_menu = \<lparr>currentType = TypeAsset, searchKeys = [], hasPre = False, hasNext = False,
     allLocalData = map asset_entry [example_db1\<lparr>Hostname := ''web''\<rparr>, example_db1, example_db1\<lparr>Hostname := ''db2''\<rparr>],
     selectedNode = \<lparr>node_ID = [], Key = [], node_Name = [], AssetIDs = []\<rparr>, currentResult = [],
     page = \<lparr>pageSize = 0, currentTotal = 0, currentOffset = 0, totalPage = 0, currentPage = 0, totalCount = 0\<rparr>,
     sel_prompt = ''Opt> '', suggests = []\<rparr>"

definition example_env :: menu_env where
  "example_env = \<lparr>sort_Strings = insertion_sort, sort_Items = insertion_sort, by_ip = False, newPageSize = 2\<rparr>"

lemma example_results: "retrieveLocal [[]] example_menu = allLocalData example_menu"
  by (simp add: retrieveLocal_def example_menu_def searchLocalAsset_def searchLocalFromFields_def containKeysInMapItemFields_def)

theorem paging_covers_results_witness:
  "\<exists>d u'. next_pages example_env 1 (Search example_env [] example_menu) = Ret (d, u')
    \<and> mset (currentResult u') = {#asset_entry (example_db1\<lparr>Hostname := ''db2''\<rparr>)#} \<and> \<not> hasNext u'"
  using paging_covers_results [of example_env 2 example_menu 1 "[]", unfolded example_results]
  by (auto simp: example_env_def example_menu_def insertion_sort_contract)

text \<open>
  Paging back subtracts two page sizes from the end of the page.  That is the page before only when the page shown is
  full; from a shorter last page it goes to the \<open>2 * p\<close> items at the end, so that the pages shown overlap the earlier ones.
\<close>

lemma MovePrePage_start:
  assumes "hasPre u" "newPageSize V = int p" "retrieve_into V (int (currentOffset (page u) - 2 * p)) (searchKeys u) u = Ret u1"
  shows "MovePrePage V u = Ret (show_result V u1)"
proof -
  have "(if int (currentOffset (page u)) - newPageSize V * 2 \<le> 0 then 0 else int (currentOffset (page u)) - newPageSize V * 2)
      = int (currentOffset (page u) - 2 * p)" using assms(2) by auto
  then show ?thesis using assms(1,3) by (simp only: MovePrePage_def Let_def if_True outcome_bind.simps)
qed

lemma MovePrePage_full:
  assumes "sort_contract (sort_Items V)" "newPageSize V = int p" "0 < p" "on_page p R (Suc k) u" "Suc (Suc k) * p \<le> length R"
  shows "\<exists>d u'. MovePrePage V u = Ret (d, u') \<and> on_page p R k u'"
proof -
  have u: "hasPre u" "currentOffset (page u) = Suc (Suc k) * p" "currentType u \<noteq> TypeUnset" "retrieveLocal (searchKeys u) u = R"
    using assms(4,5) by (simp_all add: on_page_def)
  have start: "int (currentOffset (page u) - 2 * p) = int (k * p)" using u(2) by simp
  have k: "k * p < length (retrieveLocal (searchKeys u) u)" using u(4) assms(3,5) by (simp add: algebra_simps)
  from retrieve_into_page [OF assms(2,3) u(3) k] obtain u1 where
    r: "retrieve_into V (int (k * p)) (searchKeys u) u = Ret u1" "searchKeys u1 = searchKeys u" by blast
  have "MovePrePage V u = Ret (show_result V (u1\<lparr>searchKeys := searchKeys u\<rparr>))"
    using MovePrePage_start [OF u(1) assms(2)] r start by (metis searchKeys_same)
  with retrieve_into_on_page [OF assms(1-3) u(3) k] r(1) u(4) show ?thesis by (simp del: outcome_bind_eq_Ret of_nat_mult)
qed

lemma MovePrePage_partial:
  assumes "sort_contract (sort_Items V)" "newPageSize V = int p" "0 < p" "on_page p R (Suc k) u" "length R < Suc (Suc k) * p"
  shows "\<exists>d u'. MovePrePage V u = Ret (d, u') \<and> mset (currentResult u') = mset (take p (drop (length R - 2 * p) R))"
proof -
  have u: "hasPre u" "currentOffset (page u) = length R" "currentType u \<noteq> TypeUnset" "retrieveLocal (searchKeys u) u = R"
    using assms(4,5) by (simp_all add: on_page_def)
  obtain res u1 where pg: "paginate p (length R - 2 * p) R u = (res, u1)" by fastforce
  then have "res = take p (drop (length R - 2 * p) R)"
    using assms(3) by (cases "R = []") (auto simp: paginate_def Let_def PAGESIZEALL_def split: if_splits)
  moreover have "retrieve_into V (int (length R - 2 * p)) (searchKeys u) u = Ret (u1\<lparr>currentResult := res\<rparr>)"
    using assms(2,3) u(3,4) pg by (simp add: retrieve_into_def Retrieve_def retrieve_set_def)
  moreover obtain d u' where "show_result V (u1\<lparr>currentResult := res\<rparr>) = (d, u')" by fastforce
  ultimately show ?thesis
    using show_result_sorts [OF assms(1), of "u1\<lparr>currentResult := res\<rparr>" d u']
      MovePrePage_start [OF u(1) assms(2), unfolded u(2)] by auto
qed

section \<open>Selecting\<close>

text \<open>The items of a menu are entries of assets; then no field is missing.\<close>

definition menu_ok :: "UserSelectHandler \<Rightarrow> bool" where
  "menu_ok u \<longleftrightarrow> set (allLocalData u) \<subseteq> range asset_entry \<and> set (currentResult u) \<subseteq> range asset_entry"

lemma asset_entry_fields [simp]:
  "string_field (asset_entry a) ''id'' = Ret (asset_ID a)" "string_field (asset_entry a) ''hostname'' = Ret (Hostname a)"
  "string_field (asset_entry a) ''ip'' = Ret (IP a)"
  by (simp_all add: string_field_def asset_entry_def)

lemma string_fields_entries: "set items \<subseteq> range asset_entry \<Longrightarrow> \<exists>names. string_fields items ''hostname'' = Ret names"
  by (induction items) auto

lemma matching_entries: "set items \<subseteq> range asset_entry \<Longrightarrow> \<exists>ms. matching key items = Ret ms \<and> set ms \<subseteq> set items"
proof (induction items)
  case (Cons item items)
  then obtain a ms where "item = asset_entry a" "matching key items = Ret ms" "set ms \<subseteq> set items" by auto
  then show ?case by (auto simp del: outcome_bind_eq_Ret)
qed simp

lemma retrieveLocal_subset: "set (retrieveLocal ks u) \<subseteq> set (allLocalData u)"
  by (auto simp: retrieveLocal_def retrieveLocalNodeAsset_def searchLocalAsset_def searchLocalFromFields_def)

lemma paginate_data:
  "set (fst (paginate ps off R u)) \<subseteq> set R"
  "\<exists>p b b'. snd (paginate ps off R u) = u\<lparr>page := p, hasPre := b, hasNext := b'\<rparr>"
  by (auto simp: paginate_def Let_def split: if_splits dest: in_set_dropD in_set_takeD)

lemma retrieve_set_data:
  assumes "retrieve_set ps off ks u = (res, u')"
  shows "set res \<subseteq> set (allLocalData u) \<and> (\<exists>p b b'. u' = u\<lparr>page := p, hasPre := b, hasNext := b'\<rparr>)"
  using assms paginate_data retrieveLocal_subset unfolding retrieve_set_def by (metis fst_conv snd_conv subset_trans)

text \<open>What the operations that search or page leave of the menu: only its view changes, and what it shows is its data.\<close>

definition same_data :: "UserSelectHandler \<Rightarrow> UserSelectHandler \<Rightarrow> bool" where
  "same_data u u' \<longleftrightarrow> allLocalData u' = allLocalData u \<and> selectedNode u' = selectedNode u
     \<and> (set (currentResult u') \<subseteq> set (allLocalData u) \<or> set (currentResult u') \<subseteq> set (currentResult u))
     \<and> currentType u' \<noteq> TypeUnset"

definition same_choice :: "UserSelectHandler \<Rightarrow> UserSelectHandler \<Rightarrow> bool" where
  "same_choice u u' \<longleftrightarrow> allLocalData u' = allLocalData u \<and> selectedNode u' = selectedNode u
     \<and> currentResult u' = currentResult u \<and> searchKeys u' = searchKeys u"

lemma menu_ok_choice: "same_choice u u' \<Longrightarrow> menu_ok u' = menu_ok u"
  by (simp add: menu_ok_def same_choice_def)

lemma AutoCompletion_ok:
  assumes "menu_ok u" "currentType u \<noteq> TypeUnset"
  shows "\<exists>u'. AutoCompletion srt u = Ret u' \<and> same_choice u u' \<and> currentType u' = currentType u"
proof -
  obtain res u1 where r: "retrieve_set 0 0 [[]] u = (res, u1)" by fastforce
  from retrieve_set_data [OF r] assms(1) string_fields_entries [of res]
  obtain names p b b' where "string_fields res ''hostname'' = Ret names" "u1 = u\<lparr>page := p, hasPre := b, hasNext := b'\<rparr>"
    unfolding menu_ok_def by blast
  with r show ?thesis by (auto simp: AutoCompletion_def same_choice_def simp del: outcome_bind_eq_Ret)
qed

lemma SetSelectType_ok:
  assumes "menu_ok u"
  shows "\<exists>u'. SetSelectType srt s u = Ret u' \<and> same_choice u u' \<and> currentType u' = s"
proof (cases s)
  case TypeAsset
  have "menu_ok (u\<lparr>currentType := s\<rparr>)" using assms by (simp add: menu_ok_def)
  from AutoCompletion_ok [OF this, of srt] TypeAsset show ?thesis
    by (auto simp: SetSelectType_def same_choice_def simp del: outcome_bind_eq_Ret)
qed (simp_all add: SetSelectType_def same_choice_def)

lemma retrieve_into_ok:
  assumes "menu_ok u"
  shows "\<exists>u'. retrieve_into V off ks u = Ret u' \<and> same_data u u' \<and> set (currentResult u') \<subseteq> set (allLocalData u)
    \<and> (currentType u \<noteq> TypeUnset \<longrightarrow> currentType u' = currentType u)"
proof -
  have step: "\<exists>u'. outcome_bind (Ret (retrieve_set (newPageSize V) off ks w)) (\<lambda>(res, u). Ret (u\<lparr>currentResult := res\<rparr>)) = Ret u'
      \<and> same_data w u' \<and> set (currentResult u') \<subseteq> set (allLocalData w) \<and> currentType u' = currentType w"
    if "currentType w \<noteq> TypeUnset" for w
  proof -
    obtain res u1 where r: "retrieve_set (newPageSize V) off ks w = (res, u1)" by fastforce
    from retrieve_set_data [OF this] that r show ?thesis by (auto simp: same_data_def simp del: outcome_bind_eq_Ret)
  qed
  show ?thesis
  proof (cases "currentType u = TypeUnset")
    case True
    from SetSelectType_ok [OF assms] obtain w where
      "SetSelectType (sort_Strings V) TypeAsset u = Ret w" "same_choice u w" "currentType w = TypeAsset" by blast
    with True step [of w] show ?thesis
      by (auto simp: retrieve_into_def Retrieve_def same_data_def same_choice_def simp del: outcome_bind_eq_Ret)
  next
    case False
    with step [of u] show ?thesis by (auto simp: retrieve_into_def Retrieve_def simp del: outcome_bind_eq_Ret)
  qed
qed

lemma show_result_same:
  assumes "sort_contract (sort_Items V)" "show_result V u = (d, u')"
  shows "set (currentResult u') = set (currentResult u) \<and> allLocalData u' = allLocalData u \<and> selectedNode u' = selectedNode u
    \<and> currentType u' = currentType u"
  using show_result_sorts [OF assms] by (auto dest: mset_eq_setD)

lemma shown_menu_ok:
  assumes "sort_contract (sort_Items V)" "menu_ok u"
  shows "\<exists>d u'. show_result V u = (d, u') \<and> menu_ok u'"
proof -
  obtain d u' where "show_result V u = (d, u')" by fastforce
  with show_result_same [OF assms(1) this] assms(2) show ?thesis by (auto simp: menu_ok_def)
qed

lemma retrieved_menu_ok:
  assumes "menu_ok u"
  shows "\<exists>u'. retrieve_into V off ks u = Ret u' \<and> menu_ok u'"
  using retrieve_into_ok [OF assms, of V off ks] assms by (auto simp: menu_ok_def same_data_def)

text \<open>No operation of the menu panics, and all keep it well-formed.\<close>

lemma menu_ops_ok:
  assumes "sort_contract (sort_Items V)" "menu_ok u"
  shows "\<exists>d u'. MoveNextPage V u = Ret (d, u') \<and> menu_ok u'" "\<exists>d u'. MovePrePage V u = Ret (d, u') \<and> menu_ok u'"
    "\<exists>d u'. Search V key u = Ret (d, u') \<and> menu_ok u'" "\<exists>d u'. SearchAgain V key u = Ret (d, u') \<and> menu_ok u'"
proof -
  have s: "\<exists>d u'. outcome_bind r (\<lambda>u. Ret (show_result V (f u))) = Ret (d, u') \<and> menu_ok u'"
    if "\<exists>u'. r = Ret u' \<and> menu_ok u'" "\<And>u. menu_ok u \<Longrightarrow> menu_ok (f u)" for r f
    using that shown_menu_ok [OF assms(1)] by (fastforce simp del: outcome_bind_eq_Ret)
  have keys: "menu_ok (u\<lparr>searchKeys := ks\<rparr>)" if "menu_ok u" for u ks using that by (simp add: menu_ok_def)
  show "\<exists>d u'. MoveNextPage V u = Ret (d, u') \<and> menu_ok u'"
    unfolding MoveNextPage_def using assms(2) retrieved_menu_ok [OF assms(2)]
    by (intro s [where f = "\<lambda>u. u"]) simp_all
  show "\<exists>d u'. MovePrePage V u = Ret (d, u') \<and> menu_ok u'"
    unfolding MovePrePage_def Let_def using assms(2) retrieved_menu_ok [OF assms(2)]
    by (intro s [where f = "\<lambda>u. u"]) simp_all
  show "\<exists>d u'. Search V key u = Ret (d, u') \<and> menu_ok u'"
    unfolding Search_def using retrieved_menu_ok [OF assms(2)] keys by (intro s) simp_all
  show "\<exists>d u'. SearchAgain V key u = Ret (d, u') \<and> menu_ok u'"
    unfolding SearchAgain_def Let_def using retrieved_menu_ok [OF keys [OF assms(2)]]
    by (intro s [where f = "\<lambda>u. u"]) simp_all
qed

lemma getUnique_ok:
  assumes "set res \<subseteq> range asset_entry"
  shows "\<exists>r. getUniqueAssetFromKey key res = Ret r \<and> (\<forall>target. r = Some target \<longrightarrow> target \<in> set res)"
proof -
  from matching_entries [OF assms] obtain ms where "matching key res = Ret ms" "set ms \<subseteq> set res" by blast
  then show ?thesis by (auto simp: getUniqueAssetFromKey_def simp del: outcome_bind_eq_Ret)
qed

text \<open>
  Whatever the user types at the prompt, the menu does not panic, and what it connects to is an item it has shown
  or one of its assets.
\<close>

lemma SearchOrProxy_ok:
  assumes "sort_contract (sort_Items V)" "menu_ok u"
  shows "\<exists>r u'. SearchOrProxy V key u = Ret (r, u') \<and> menu_ok u'
    \<and> (\<forall>target. r = Inl target \<longrightarrow> target \<in> set (currentResult u) \<union> set (allLocalData u))"
proof -
  let ?pick = "case Atoi key of
      Some n \<Rightarrow> if length (currentResult u) > 0 \<and> n > 0 \<and> n \<le> int (length (currentResult u))
        then Some (currentResult u ! (nat n - 1)) else None
    | None \<Rightarrow> None"
  show ?thesis
  proof (cases ?pick)
    case (Some target)
    then have "target \<in> set (currentResult u)" by (auto split: option.splits if_splits)
    with Some assms(2) show ?thesis by (simp add: SearchOrProxy_def)
  next
    case None
    from retrieve_into_ok [OF assms(2)] obtain u1 where
      r: "retrieve_into V 0 [key] u = Ret u1" and u1: "same_data u u1" "set (currentResult u1) \<subseteq> set (allLocalData u)" by blast
    let ?u = "u1\<lparr>searchKeys := [key]\<rparr>"
    have ok: "menu_ok ?u" using u1 assms(2) by (auto simp: menu_ok_def same_data_def)
    from getUnique_ok [of "currentResult u1" key] ok obtain q where
      q: "(if currentType u1 = TypeAsset \<and> TrimSpace key \<noteq> [] then getUniqueAssetFromKey key (currentResult u1) else Ret None) = Ret q"
        "\<And>target. q = Some target \<Longrightarrow> target \<in> set (currentResult u1)"
      by (cases "currentType u1 = TypeAsset \<and> TrimSpace key \<noteq> []") (auto simp: menu_ok_def)
    obtain d u2 where sh: "show_result V ?u = (d, u2)" by fastforce
    with show_result_same [OF assms(1) sh] ok have "menu_ok u2" by (simp add: menu_ok_def)
    moreover have "length (currentResult u1) = 1 \<Longrightarrow> currentResult u1 ! 0 \<in> set (allLocalData u)"
      using u1(2) by (metis nth_mem subsetD zero_less_one)
    ultimately show ?thesis
      using None r q sh ok u1 by (cases "length (currentResult u1) = 1"; cases q)
        (auto simp: SearchOrProxy_def Let_def same_data_def simp del: outcome_bind_eq_Ret)
  qed
qed

lemma select_Proxy_login:
  assumes "select_Proxy E c tp target = Ret (Some (LoginTo asset))"
  shows "\<exists>i. target ''id'' = Some i \<and> GetAssetById E c i = (asset, None) \<and> asset_ID asset \<noteq> [] \<and> asset_IsActive asset"
  using assms by (auto simp: select_Proxy_def string_field_def split: option.splits prod.splits if_splits)

end
