(* ===== verification/NodeTree.thy ===== *)
theory NodeTree
  imports Model
begin

text \<open>
  The tree of nodes of the interactive menu (\<^verbatim>\<open>pkg/handler/interactive.go\<close>, \<^verbatim>\<open>ConstructNodeTree\<close>).  The source links
  \<^verbatim>\<open>displayTree\<close> values by pointers; tree \<open>i\<close> is the one of node \<open>i\<close> here, so a pointer is an index.  Printing the tree
  is left to a library: a \<open>branch\<close> is one call of its \<^verbatim>\<open>AddBranch\<close>, with the calls made on the branch it returned.
\<close>

section \<open>Building the tree\<close>

record display_trees =
  rootNodeTrees :: "nat list"
  nodeTreeMap :: "string \<Rightarrow> nat option"
  subTrees :: "nat \<Rightarrow> nat list"

definition AddSubNode :: "nat \<Rightarrow> nat \<Rightarrow> display_trees \<Rightarrow> display_trees" where
  "AddSubNode t sub d = d\<lparr>subTrees := (subTrees d)(t := subTrees d t @ [sub])\<rparr>"

definition parent_key :: "Node \<Rightarrow> string option" where
  "parent_key node = map_option (\<lambda>r. take r (Key node)) (LastIndexByte (Key node) CHR '':'')"

definition add_tree :: "nat \<Rightarrow> Node \<Rightarrow> display_trees \<Rightarrow> display_trees" where
  "add_tree i node d =
     (let d' = d\<lparr>nodeTreeMap := (nodeTreeMap d)(Key node \<mapsto> i)\<rparr>
      in case parent_key node of
           None \<Rightarrow> d'\<lparr>rootNodeTrees := rootNodeTrees d @ [i]\<rparr>
         | Some parentKey \<Rightarrow>
             (case nodeTreeMap d' parentKey of
                None \<Rightarrow> d'\<lparr>rootNodeTrees := rootNodeTrees d @ [i]\<rparr>
              | Some parentTree \<Rightarrow> AddSubNode parentTree i d'))"

fun add_trees :: "nat \<Rightarrow> Node list \<Rightarrow> display_trees \<Rightarrow> display_trees" where
  "add_trees i [] d = d"
| "add_trees i (node # nodes) d = add_trees (Suc i) nodes (add_tree i node d)"

definition convertToDisplayTrees :: "Node list \<Rightarrow> display_trees" where
  "convertToDisplayTrees nodes =
     add_trees 0 nodes \<lparr>rootNodeTrees = [], nodeTreeMap = (\<lambda>_. None), subTrees = (\<lambda>_. [])\<rparr>"

datatype branch = Branch string "branch list"

definition tree_label :: "(string \<Rightarrow> nat option) \<Rightarrow> Node \<Rightarrow> string" where
  "tree_label keyMap node =
     Itoa (int (case keyMap (Key node) of Some i \<Rightarrow> i | None \<Rightarrow> 0) + 1) @ ''.'' @ node_Name node
       @ ''('' @ Itoa (int (length (AssetIDs node))) @ '')''"

definition nodeTrees_Less :: "Node list \<Rightarrow> nat \<Rightarrow> nat \<Rightarrow> bool" where
  "nodeTrees_Less nodes i j = (node_Name (nodes ! i) < node_Name (nodes ! j))"

text \<open>
  \<^verbatim>\<open>constructDisplayTree\<close> on one tree.  A tree only has later nodes below it, so the number of nodes is fuel enough;
  that nothing is cut off is part of the theorem below.
\<close>

fun display_branch :: "nat sorter \<Rightarrow> Node list \<Rightarrow> (string \<Rightarrow> nat option) \<Rightarrow> (nat \<Rightarrow> nat list) \<Rightarrow> nat \<Rightarrow> nat \<Rightarrow> branch" where
  "display_branch srt nodes keyMap sub 0 i = Branch (tree_label keyMap (nodes ! i)) []"
| "display_branch srt nodes keyMap sub (Suc f) i =
     Branch (tree_label keyMap (nodes ! i))
       (map (display_branch srt nodes keyMap sub f) (if length (sub i) > 0 then srt (nodeTrees_Less nodes) (sub i) else []))"

fun key_index :: "nat \<Rightarrow> Node list \<Rightarrow> (string \<Rightarrow> nat option) \<Rightarrow> (string \<Rightarrow> nat option)" where
  "key_index i [] m = m"
| "key_index i (node # nodes) m = key_index (Suc i) nodes (m(Key node \<mapsto> i))"

text \<open>Sorting the nodes by key is visible to the caller: the list it passed is sorted in place.\<close>

definition ConstructNodeTree :: "Node sorter \<Rightarrow> nat sorter \<Rightarrow> Node list \<Rightarrow> branch list \<times> Node list" where
  "ConstructNodeTree srt srt' assetNodes =
     (let nodes = SortNodesByKey srt assetNodes; d = convertToDisplayTrees nodes
      in (map (display_branch srt' nodes (key_index 0 nodes (\<lambda>_. None)) (subTrees d) (length nodes)) (rootNodeTrees d), nodes))"

section \<open>Every node is shown once\<close>

fun branch_labels :: "branch \<Rightarrow> string multiset" where
  "branch_labels (Branch l bs) = add_mset l (\<Sum>b\<leftarrow>bs. branch_labels b)"

text \<open>After \<open>n\<close> nodes: every tree is a root or below exactly one earlier tree, and the map only knows earlier trees.\<close>

definition forest_inv :: "nat \<Rightarrow> display_trees \<Rightarrow> bool" where
  "forest_inv n d \<longleftrightarrow>
     mset (rootNodeTrees d) + (\<Sum>i<n. mset (subTrees d i)) = mset [0..<n]
   \<and> (\<forall>i c. c \<in> set (subTrees d i) \<longrightarrow> i < c \<and> c < n)
   \<and> (\<forall>k i. nodeTreeMap d k = Some i \<longrightarrow> i < n)"

lemma LastIndexByte_less: "LastIndexByte s ch = Some r \<Longrightarrow> r < length s"
  by (cases s) (auto simp: LastIndexByte_def)

lemma parent_key_differs: "parent_key node = Some k \<Longrightarrow> k \<noteq> Key node"
  using LastIndexByte_less by (fastforce simp: parent_key_def)

lemma sum_mset_upd:
  assumes "p < (n :: nat)"
  shows "(\<Sum>i<n. mset ((f(p := f p @ [x])) i)) = add_mset x (\<Sum>i<n. mset (f i))"
proof -
  have "(\<Sum>i<n. mset ((f(p := f p @ [x])) i)) = (\<Sum>i<n. mset (f i) + (if i = p then {#x#} else {#}))"
    by (rule sum.cong) auto
  with assms show ?thesis by (simp add: sum.distrib)
qed

lemma add_tree_forest: "forest_inv n d \<Longrightarrow> forest_inv (Suc n) (add_tree n node d)"
proof -
  assume inv: "forest_inv n d"
  have "c \<notin> set (subTrees d n)" for c using inv unfolding forest_inv_def by (meson less_asym)
  then have none: "subTrees d n = []" by (cases "subTrees d n") auto
  show ?thesis
  proof (cases "case parent_key node of None \<Rightarrow> None | Some k \<Rightarrow> nodeTreeMap d k")
    case None
    then have "add_tree n node d = d\<lparr>nodeTreeMap := (nodeTreeMap d)(Key node \<mapsto> n), rootNodeTrees := rootNodeTrees d @ [n]\<rparr>"
      by (auto simp: add_tree_def Let_def dest: parent_key_differs split: option.splits)
    with inv none show ?thesis by (auto simp: forest_inv_def less_Suc_eq)
  next
    case (Some p)
    then have t: "add_tree n node d = AddSubNode p n (d\<lparr>nodeTreeMap := (nodeTreeMap d)(Key node \<mapsto> n)\<rparr>)"
      by (auto simp: add_tree_def Let_def dest: parent_key_differs split: option.splits)
    have p: "p < n" using Some inv by (auto simp: forest_inv_def split: option.splits)
    have "(\<Sum>i<Suc n. mset (subTrees (add_tree n node d) i)) = add_mset n (\<Sum>i<n. mset (subTrees d i))"
      using sum_mset_upd [OF p, of "subTrees d" n] p none by (simp add: t AddSubNode_def)
    with inv p none show ?thesis by (auto simp: forest_inv_def t AddSubNode_def less_Suc_eq)
  qed
qed

lemma add_trees_forest: "forest_inv n d \<Longrightarrow> forest_inv (n + length nodes) (add_trees n nodes d)"
proof (induction nodes arbitrary: n d)
  case (Cons node nodes)
  with Cons.IH [OF add_tree_forest [OF Cons.prems, of node]] show ?case by simp
qed simp

lemma convert_forest: "forest_inv (length nodes) (convertToDisplayTrees nodes)"
proof -
  have "forest_inv 0 \<lparr>rootNodeTrees = [], nodeTreeMap = (\<lambda>_. None), subTrees = (\<lambda>_. [])\<rparr>" by (simp add: forest_inv_def)
  from add_trees_forest [OF this, of nodes] show ?thesis by (simp add: convertToDisplayTrees_def)
qed

text \<open>With enough fuel the branch of a tree does not depend on it.\<close>

lemma display_branch_fuel:
  assumes "sort_contract srt" "\<forall>i c. c \<in> set (sub i) \<longrightarrow> i < c \<and> c < n"
  shows "i < n \<Longrightarrow> n - i \<le> f \<Longrightarrow> n - i \<le> g \<Longrightarrow> display_branch srt nodes km sub f i = display_branch srt nodes km sub g i"
proof (induction "n - i" arbitrary: i f g rule: less_induct)
  case less
  then obtain f' g' where f: "f = Suc f'" "g = Suc g'" by (metis Suc_le_D Suc_diff_Suc)
  have "display_branch srt nodes km sub f' c = display_branch srt nodes km sub g' c" if "c \<in> set (sub i)" for c
  proof -
    have "i < c" "c < n" using assms(2) that by auto
    with less.hyps [of c f' g'] less.prems f show ?thesis by simp
  qed
  with f show ?case by (simp add: sort_contract_set [OF assms(1)])
qed

definition labels_at :: "nat sorter \<Rightarrow> Node list \<Rightarrow> (string \<Rightarrow> nat option) \<Rightarrow> (nat \<Rightarrow> nat list) \<Rightarrow> nat \<Rightarrow> string multiset" where
  "labels_at srt nodes km sub i = branch_labels (display_branch srt nodes km sub (length nodes) i)"

lemma labels_at_step:
  assumes "sort_contract srt" "\<forall>i c. c \<in> set (sub i) \<longrightarrow> i < c \<and> c < length nodes" "i < length nodes"
  shows "labels_at srt nodes km sub i =
    add_mset (tree_label km (nodes ! i)) (\<Sum>c\<in>#mset (sub i). labels_at srt nodes km sub c)"
proof -
  obtain f where f: "length nodes = Suc f" using assms(3) by (cases "length nodes") auto
  have "display_branch srt nodes km sub f c = display_branch srt nodes km sub (length nodes) c" if "c \<in> set (sub i)" for c
  proof -
    have "i < c" "c < length nodes" using assms(2) that by auto
    with f show ?thesis by (intro display_branch_fuel [OF assms(1,2)]) auto
  qed
  then have "(\<Sum>c\<leftarrow>srt (nodeTrees_Less nodes) (sub i). branch_labels (display_branch srt nodes km sub f c))
      = (\<Sum>c\<leftarrow>srt (nodeTrees_Less nodes) (sub i). labels_at srt nodes km sub c)"
    unfolding labels_at_def by (intro arg_cong [of _ _ sum_list] map_cong) (auto simp: sort_contract_set [OF assms(1)])
  also have "\<dots> = (\<Sum>c\<in>#mset (sub i). labels_at srt nodes km sub c)"
    by (metis sort_contract_mset [OF assms(1)] mset_map sum_mset_sum_list)
  finally show ?thesis
    by (cases "sub i = []") (simp_all add: labels_at_def [of srt nodes km sub i] f o_def)
qed

lemma sum_mset_range: "(\<Sum>c\<in>#mset [0..<n]. (g c :: 'b multiset)) = (\<Sum>i<n. g i)"
  by (induction n) (simp_all add: add.commute)

lemma sum_singletons: "(\<Sum>i<length xs. {#f (xs ! i)#}) = mset (map f xs)"
  by (induction xs) (simp_all add: sum.lessThan_Suc_shift del: sum.lessThan_Suc)

lemma sum_mset_of_sum: "(\<Sum>c\<in>#(\<Sum>i<(n :: nat). f i). (g c :: 'b multiset)) = (\<Sum>i<n. \<Sum>c\<in>#f i. g c)"
  by (induction n) auto

text \<open>
  C22: the tree the menu prints contains every node the user may see exactly once, labelled with its number, name
  and number of assets: no node is lost or shown twice, whatever the keys are, also when the parent of a node is missing.
\<close>

theorem node_tree_complete:
  assumes "sort_contract srt" "sort_contract srt'" "ConstructNodeTree srt srt' assetNodes = (tree, nodes)"
  shows "mset nodes = mset assetNodes
    \<and> (\<Sum>b\<leftarrow>tree. branch_labels b) = mset (map (tree_label (key_index 0 nodes (\<lambda>_. None))) nodes)"
proof -
  let ?d = "convertToDisplayTrees nodes" and ?n = "length nodes"
  let ?L = "labels_at srt' nodes (key_index 0 nodes (\<lambda>_. None)) (subTrees ?d)"
  let ?label = "\<lambda>i. tree_label (key_index 0 nodes (\<lambda>_. None)) (nodes ! i)"
  have n: "nodes = SortNodesByKey srt assetNodes"
    and tree: "tree = map (display_branch srt' nodes (key_index 0 nodes (\<lambda>_. None)) (subTrees ?d) ?n) (rootNodeTrees ?d)"
    using assms(3) by (auto simp: ConstructNodeTree_def Let_def)
  note inv = convert_forest [of nodes, unfolded forest_inv_def]
  have step: "?L i = add_mset (?label i) (\<Sum>c\<in>#mset (subTrees ?d i). ?L c)" if "i < ?n" for i
    using inv that by (intro labels_at_step [OF assms(2)]) auto
  have "(\<Sum>c\<in>#mset [0..<?n]. ?L c) = (\<Sum>i<?n. {#?label i#} + (\<Sum>c\<in>#mset (subTrees ?d i). ?L c))"
    unfolding sum_mset_range by (rule sum.cong) (simp_all add: step)
  also have "\<dots> = (\<Sum>i<?n. {#?label i#}) + (\<Sum>i<?n. \<Sum>c\<in>#mset (subTrees ?d i). ?L c)" by (rule sum.distrib)
  finally have all: "(\<Sum>c\<in>#mset [0..<?n]. ?L c) = (\<Sum>i<?n. {#?label i#}) + (\<Sum>i<?n. \<Sum>c\<in>#mset (subTrees ?d i). ?L c)" .
  have "(\<Sum>c\<in>#mset [0..<?n]. ?L c) = (\<Sum>c\<in>#mset (rootNodeTrees ?d). ?L c) + (\<Sum>i<?n. \<Sum>c\<in>#mset (subTrees ?d i). ?L c)"
    using inv by (metis image_mset_union sum_mset.union sum_mset_of_sum)
  with all have "(\<Sum>c\<in>#mset (rootNodeTrees ?d). ?L c) = (\<Sum>i<?n. {#?label i#})" by simp
  moreover have "(\<Sum>b\<leftarrow>tree. branch_labels b) = (\<Sum>c\<in>#mset (rootNodeTrees ?d). ?L c)"
    unfolding tree labels_at_def by (simp add: o_def flip: sum_mset_sum_list)
  moreover have "(\<Sum>i<?n. {#?label i#}) = mset (map (tree_label (key_index 0 nodes (\<lambda>_. None))) nodes)"
    by (rule sum_singletons)
  ultimately show ?thesis using sort_contract_mset [OF assms(1)] by (simp add: n SortNodesByKey_def)
qed

lemma example_tree:
  "ConstructNodeTree insertion_sort insertion_sort (map example_node [''1:2'', ''1'', ''3:4'', ''1:2:7'']) =
     ([Branch ''1.1(0)'' [Branch ''2.1:2(0)'' [Branch ''3.1:2:7(0)'' []]], Branch ''4.3:4(0)'' []],
      map example_node [''1'', ''1:2'', ''1:2:7'', ''3:4''])"
  by code_simp

theorem node_tree_complete_witness:
  "(\<Sum>b\<leftarrow>[Branch ''1.1(0)'' [Branch ''2.1:2(0)'' [Branch ''3.1:2:7(0)'' []]], Branch ''4.3:4(0)'' []]. branch_labels b)
     = mset (map (tree_label (key_index 0 (map example_node [''1'', ''1:2'', ''1:2:7'', ''3:4'']) (\<lambda>_. None)))
         (map example_node [''1'', ''1:2'', ''1:2:7'', ''3:4'']))"
  using node_tree_complete [OF insertion_sort_contract insertion_sort_contract example_tree] by blast

end
