(* ===== verification/Table.thy ===== *)
theory Table
  imports Util "HOL-Library.Signed_Division"
begin

text \<open>
  The tables of the menus (\<^verbatim>\<open>pkg/common/table.go\<close>): fitting the columns to the width of the terminal and shortening
  the cells.  A Go map is a map here; the order in which a \<^verbatim>\<open>range\<close> loop visits its keys changes from run to run
  and is an input, one order per iteration of the outer loop.  The table writer itself is a library; \<open>Display\<close> is what it is told.
\<close>

section \<open>Tables\<close>

datatype TruncPolicy = TruncSuffix | TruncPrefix | TruncMiddle

type_synonym column_spec = "int \<times> int \<times> int"
type_synonym widths = "string \<Rightarrow> int option"

record WrapperTable =
  Labels :: "string list option"
  Fields :: "string list"
  FieldsSize :: "string \<Rightarrow> column_spec option"
  Data :: "(string \<Rightarrow> string option) list"
  TotalSize :: int
  tbl_policy :: TruncPolicy
  tbl_totalSize :: int
  paddingSize :: int
  bolderSize :: int
  fieldsSize :: widths
  Caption :: string

definition spec_of :: "(string \<Rightarrow> column_spec option) \<Rightarrow> string \<Rightarrow> column_spec" where
  "spec_of m k = (case m k of Some v \<Rightarrow> v | None \<Rightarrow> (0, 0, 0))"

definition width_of :: "widths \<Rightarrow> string \<Rightarrow> int" where
  "width_of m k = (case m k of Some v \<Rightarrow> v | None \<Rightarrow> 0)"

fun widen_minimum :: "string list \<Rightarrow> string list \<Rightarrow> (string \<Rightarrow> column_spec option) \<Rightarrow> (string \<Rightarrow> column_spec option)" where
  "widen_minimum (k # ks) (l # ls) m =
     (let titleSize = int (length l); (s, mn, mx) = spec_of m k
      in widen_minimum ks ls (if titleSize > mn then m(k \<mapsto> (s, titleSize, mx)) else m))"
| "widen_minimum _ _ m = m"

definition Table_Initial :: "WrapperTable \<Rightarrow> WrapperTable outcome" where
  "Table_Initial t =
     (let t = (if Labels t = None then t\<lparr>Labels := Some (Fields t)\<rparr> else t)
      in if length (Fields t) \<noteq> length (the (Labels t)) then Panic (ExplicitPanic ''Labels should be equal with Fields'')
         else Ret (t\<lparr>paddingSize := 1, bolderSize := 1,
           FieldsSize := widen_minimum (Fields t) (the (Labels t)) (FieldsSize t)\<rparr>))"

section \<open>Column widths\<close>

text \<open>The longest cell of every column that has one.\<close>

definition longer :: "(string \<Rightarrow> string option) \<Rightarrow> string \<Rightarrow> widths \<Rightarrow> widths" where
  "longer row col m =
     (case row col of
        None \<Rightarrow> m
      | Some v \<Rightarrow>
          let colSize = int (length v)
          in case m col of None \<Rightarrow> m(col \<mapsto> colSize) | Some preSize \<Rightarrow> if colSize > preSize then m(col \<mapsto> colSize) else m)"

definition dataColMaxSize :: "WrapperTable \<Rightarrow> widths" where
  "dataColMaxSize t = fold (\<lambda>row m. fold (longer row) (Fields t) m) (Data t) (\<lambda>_. None)"

definition clamp :: "column_spec \<Rightarrow> int \<Rightarrow> int" where
  "clamp spec v = (case spec of (sz, mn, mx) \<Rightarrow>
     if sz \<noteq> 0 then sz else if mx \<noteq> 0 \<and> v > mx then mx else if mn \<noteq> 0 \<and> v < mn then mn else v)"

definition initial_widths :: "WrapperTable \<Rightarrow> widths" where
  "initial_widths t = (\<lambda>k. map_option (clamp (spec_of (FieldsSize t) k)) (dataColMaxSize t k))"

definition can_change :: "int \<Rightarrow> column_spec \<Rightarrow> int \<Rightarrow> bool" where
  "can_change step spec w = (case spec of (sz, mn, mx) \<Rightarrow>
     if step = 1 then \<not> (sz \<noteq> 0 \<or> (mx \<noteq> 0 \<and> w \<ge> mx)) else \<not> (sz \<noteq> 0 \<or> w \<le> mn))"

text \<open>One round over the columns that can change; it stops early when nothing is left to distribute.\<close>

fun change_cols :: "int \<Rightarrow> string list \<Rightarrow> int \<Rightarrow> widths \<Rightarrow> int \<times> widths" where
  "change_cols step [] delta m = (delta, m)"
| "change_cols step (k # ks) delta m =
     (let m = m(k \<mapsto> width_of m k + step); delta = delta - 1
      in if delta = 0 then (delta, m) else change_cols step ks delta m)"

lemma change_cols_delta:
  "0 < delta \<Longrightarrow> 0 \<le> fst (change_cols step ks delta m) \<and> fst (change_cols step ks delta m) \<le> delta"
proof (induction ks arbitrary: delta m)
  case (Cons k ks)
  show ?case
  proof (cases "delta = 1")
    case False
    with Cons.IH [of "delta - 1" "m(k \<mapsto> width_of m k + step)"] Cons.prems show ?thesis by (auto simp: Let_def fun_upd_def)
  qed (simp add: Let_def)
qed simp

lemma change_cols_decreases:
  assumes "0 < delta" "ks \<noteq> []"
  shows "fst (change_cols step ks delta m) < delta"
proof -
  obtain k ks' where "ks = k # ks'" using assms(2) by (cases ks) auto
  with assms(1) change_cols_delta [of "delta - 1" step ks' "m(k \<mapsto> width_of m k + step)"] show ?thesis
    by (auto simp: Let_def)
qed

text \<open>The resize loop; \<open>order n\<close> is the order of the columns in round \<open>n\<close>.\<close>

function resize :: "(nat \<Rightarrow> string list) \<Rightarrow> nat \<Rightarrow> int \<Rightarrow> (string \<Rightarrow> column_spec) \<Rightarrow> int \<Rightarrow> widths \<Rightarrow> widths" where
  "resize order n step spec delta m =
     (if delta > 0 then
        (let canChangeCols = filter (\<lambda>k. can_change step (spec k) (width_of m k)) (order n)
         in if length canChangeCols = 0 then m
            else resize order (Suc n) step spec (fst (change_cols step canChangeCols delta m)) (snd (change_cols step canChangeCols delta m)))
      else m)"
  by pat_completeness auto
termination
proof (relation "measure (\<lambda>(order, n, step, spec, delta, m). nat delta)")
  fix delta :: int and cols :: "string list" and step m
  fix order :: "nat \<Rightarrow> string list" and n spec
  assume "0 < delta" "length cols \<noteq> 0"
  then show "((order, Suc n, step, spec, fst (change_cols step cols delta m), snd (change_cols step cols delta m)), order, n, step, spec, delta, m)
      \<in> measure (\<lambda>(order, n, step, spec, delta, m). nat delta)"
    using change_cols_decreases [of delta cols step m] by (auto split: prod.splits)
qed simp

declare resize.simps [simp del]

definition total_of :: "string list \<Rightarrow> widths \<Rightarrow> int" where
  "total_of ks m = sum_list (map (width_of m) ks)"

definition CalculateColumnsSize :: "(nat \<Rightarrow> string list) \<Rightarrow> WrapperTable \<Rightarrow> WrapperTable" where
  "CalculateColumnsSize order t =
     (let m = initial_widths t; calSize = total_of (remdups (Fields t)) m
      in if TotalSize t = 0 then t\<lparr>fieldsSize := m, tbl_totalSize := calSize\<rparr>
         else
           (let n = int (length (Fields t));
                tot = TotalSize t - n * 2 * paddingSize t - (n + 1) * bolderSize t;
                delta = tot - calSize
            in t\<lparr>tbl_totalSize := tot, fieldsSize :=
                 (if delta = 0 then m
                  else resize order 0 (if delta < 0 then -1 else 1) (spec_of (FieldsSize t)) (Abs delta) m)\<rparr>))"

section \<open>Cells\<close>

function GetValidString :: "string \<Rightarrow> int \<Rightarrow> bool \<Rightarrow> string" where
  "GetValidString s position positive =
     (if position \<ge> 0 \<and> position \<le> int (length s) then
        (if positive then
           (if ValidString (take (nat position) s) then take (nat position) s else GetValidString s (position - 1) positive)
         else
           (if ValidString (drop (nat position) s) then drop (nat position) s else GetValidString s (position + 1) positive))
      else [])"
  by pat_completeness auto
termination
  by (relation "measure (\<lambda>(s, position, positive). if positive then nat (position + 1) else nat (int (length s) + 1 - position))") auto

declare GetValidString.simps [simp del]

definition truncate_cell :: "TruncPolicy \<Rightarrow> int \<Rightarrow> string \<Rightarrow> string" where
  "truncate_cell policy columSize s =
     (if int (length s) \<le> columSize then s
      else case policy of
          TruncSuffix \<Rightarrow> GetValidString s (columSize - 3) True @ ''...''
        | TruncPrefix \<Rightarrow> ''...'' @ GetValidString s (int (length s) - columSize - 3) False
        | TruncMiddle \<Rightarrow>
            (let midValue = (columSize - 3) sdiv 2
             in GetValidString s midValue True @ ''...'' @ GetValidString s (int (length s) - midValue) False))"

definition convertDataToSlice :: "WrapperTable \<Rightarrow> string list list" where
  "convertDataToSlice t =
     map (\<lambda>j. map (\<lambda>n. truncate_cell (tbl_policy t) (width_of (fieldsSize t) n) (lookup_str j n)) (Fields t)) (Data t)"

text \<open>What \<^verbatim>\<open>Display\<close> hands to the table writer: header, rows, minimum column widths, total width and caption.\<close>

definition Display :: "(nat \<Rightarrow> string list) \<Rightarrow> WrapperTable \<Rightarrow> string list option \<times> string list list \<times> int list \<times> int \<times> string option" where
  "Display order t =
     (let t = CalculateColumnsSize order t
      in (Labels t, convertDataToSlice t, map (width_of (fieldsSize t)) (Fields t), tbl_totalSize t,
          if Caption t \<noteq> [] then Some (Caption t) else None))"

section \<open>The columns fit\<close>

definition sum_over :: "string set \<Rightarrow> widths \<Rightarrow> int" where
  "sum_over K m = (\<Sum>k\<in>K. width_of m k)"

lemma width_of_upd [simp]: "width_of (m(k \<mapsto> v)) j = (if j = k then v else width_of m j)"
  by (simp add: width_of_def)

lemma sum_over_upd: "finite K \<Longrightarrow> k \<in> K \<Longrightarrow> sum_over K (m(k \<mapsto> width_of m k + d)) = sum_over K m + d"
proof -
  assume K: "finite K" "k \<in> K"
  have "sum_over K (m(k \<mapsto> width_of m k + d)) = (\<Sum>j\<in>K. width_of m j + (if j = k then d else 0))"
    unfolding sum_over_def by (rule sum.cong) auto
  then show ?thesis using K by (simp add: sum.distrib sum_over_def)
qed

lemma change_cols_sum:
  "finite K \<Longrightarrow> set ks \<subseteq> K \<Longrightarrow>
   sum_over K (snd (change_cols step ks delta m)) = sum_over K m + step * (delta - fst (change_cols step ks delta m))"
  by (induction step ks delta m rule: change_cols.induct) (auto simp: Let_def sum_over_upd right_diff_distrib)

lemma change_cols_cases:
  "distinct ks \<Longrightarrow> snd (change_cols step ks delta m) k = m k
     \<or> k \<in> set ks \<and> snd (change_cols step ks delta m) k = Some (width_of m k + step)"
proof (induction step ks delta m rule: change_cols.induct)
  case (2 step j ks delta m)
  show ?case
  proof (cases "delta - 1 = 0")
    case False
    with 2 show ?thesis by (cases "k = j") (fastforce simp: Let_def width_of_def)+
  qed (simp add: Let_def)
qed simp

definition columns_order :: "(nat \<Rightarrow> string list) \<Rightarrow> string set \<Rightarrow> bool" where
  "columns_order order K \<longleftrightarrow> (\<forall>n. distinct (order n) \<and> set (order n) = K)"

text \<open>The loop ends with everything distributed or with every column at its limit.\<close>

lemma resize_distributes:
  assumes "columns_order order K" "0 \<le> delta"
  shows "\<exists>d. 0 \<le> d \<and> d \<le> delta \<and> sum_over K (resize order n step spec delta m) = sum_over K m + step * d
    \<and> (d = delta \<or> (\<forall>k \<in> K. \<not> can_change step (spec k) (width_of (resize order n step spec delta m) k)))"
  using assms
proof (induction order n step spec delta m rule: resize.induct)
  case (1 order n step spec delta m)
  let ?cols = "filter (\<lambda>k. can_change step (spec k) (width_of m k)) (order n)"
  let ?r = "change_cols step ?cols delta m"
  have "set (order n) = K" using 1(2) by (simp add: columns_order_def)
  then have K: "set (order n) = K" "finite K" by auto
  show ?case
  proof (cases "delta > 0 \<and> ?cols \<noteq> []")
    case True
    then have same: "resize order n step spec delta m = resize order (Suc n) step spec (fst ?r) (snd ?r)"
      by (subst resize.simps) (auto simp: Let_def)
    have sum: "sum_over K (snd ?r) = sum_over K m + step * (delta - fst ?r)"
      using K by (intro change_cols_sum) auto
    have r: "0 \<le> fst ?r" "fst ?r \<le> delta" using True change_cols_delta [of delta step ?cols m] by auto
    from 1(1) [OF _ refl _ 1(2) r(1)] True obtain d where
      "0 \<le> d" "d \<le> fst ?r" "sum_over K (resize order (Suc n) step spec (fst ?r) (snd ?r)) = sum_over K (snd ?r) + step * d"
      "d = fst ?r \<or> (\<forall>k \<in> K. \<not> can_change step (spec k) (width_of (resize order (Suc n) step spec (fst ?r) (snd ?r)) k))" by auto
    with same sum r show ?thesis by (intro exI [of _ "delta - fst ?r + d"]) (auto simp: algebra_simps)
  next
    case False
    then have "resize order n step spec delta m = m" by (subst resize.simps) (auto simp: Let_def)
    with False 1 K show ?thesis by (intro exI [of _ 0]) (auto simp: filter_empty_conv)
  qed
qed

text \<open>What one step keeps of a width, the loop keeps.\<close>

lemma resize_keeps:
  assumes "columns_order order K" "P (width_of m k)" "\<And>w. P w \<Longrightarrow> can_change step (spec k) w \<Longrightarrow> P (w + step)"
  shows "P (width_of (resize order n step spec delta m) k)"
  using assms
proof (induction order n step spec delta m rule: resize.induct)
  case (1 order n step spec delta m)
  let ?cols = "filter (\<lambda>k. can_change step (spec k) (width_of m k)) (order n)"
  let ?r = "change_cols step ?cols delta m"
  show ?case
  proof (cases "delta > 0 \<and> ?cols \<noteq> []")
    case True
    then have same: "resize order n step spec delta m = resize order (Suc n) step spec (fst ?r) (snd ?r)"
      by (subst resize.simps) (auto simp: Let_def)
    have "distinct ?cols" using 1(2) by (simp add: columns_order_def)
    from change_cols_cases [OF this, of step delta m k] have "P (width_of (snd ?r) k)"
      using 1(3) 1(4) by (auto simp: width_of_def)
    with 1(1) [OF _ refl _ 1(2)] True 1(4) same show ?thesis by auto
  next
    case False
    then have "resize order n step spec delta m = m" by (subst resize.simps) (auto simp: Let_def)
    with 1 show ?thesis by simp
  qed
qed

text \<open>A width that a column may have, and a specification that leaves room for one.\<close>

definition within :: "column_spec \<Rightarrow> int \<Rightarrow> bool" where
  "within spec w \<longleftrightarrow> (case spec of (sz, mn, mx) \<Rightarrow> if sz \<noteq> 0 then w = sz else mn \<le> w \<and> (mx \<noteq> 0 \<longrightarrow> w \<le> mx))"

definition spec_ok :: "column_spec \<Rightarrow> bool" where
  "spec_ok spec \<longleftrightarrow> (case spec of (sz, mn, mx) \<Rightarrow> mx = 0 \<or> mn \<le> mx)"

lemma clamp_within: "spec_ok spec \<Longrightarrow> 0 \<le> v \<Longrightarrow> within spec (clamp spec v)"
  by (auto simp: within_def spec_ok_def clamp_def split: prod.splits)

lemma can_change_within: "within spec w \<Longrightarrow> can_change step spec w \<Longrightarrow> step = 1 \<or> step = -1 \<Longrightarrow> within spec (w + step)"
  by (auto simp: within_def can_change_def split: prod.splits if_splits)

lemma resize_within:
  assumes "columns_order order K" "within (spec k) (width_of m k)" "step = 1 \<or> step = -1"
  shows "within (spec k) (width_of (resize order n step spec delta m) k)"
  using can_change_within assms(3) by (intro resize_keeps [where P = "within (spec k)", OF assms(1,2)]) blast

definition has_width :: "widths \<Rightarrow> string \<Rightarrow> bool" where
  "has_width m k \<longleftrightarrow> (\<exists>v \<ge> 0. m k = Some v)"

lemma longer_has_width: "has_width m k \<Longrightarrow> has_width (longer row c m) k"
  by (auto simp: has_width_def longer_def Let_def split: option.splits)

lemma longer_row_has_width: "has_width m k \<Longrightarrow> has_width (fold (longer row) cs m) k"
  by (induction cs arbitrary: m) (auto intro: longer_has_width)

definition nonneg :: "widths \<Rightarrow> bool" where
  "nonneg m \<longleftrightarrow> (\<forall>k v. m k = Some v \<longrightarrow> 0 \<le> v)"

lemma longer_nonneg: "nonneg m \<Longrightarrow> nonneg (longer row c m)"
  by (auto simp: nonneg_def longer_def Let_def split: option.splits)

lemma longer_row_nonneg: "nonneg m \<Longrightarrow> nonneg (fold (longer row) cs m)"
  by (induction cs arbitrary: m) (auto intro: longer_nonneg)

lemma longer_cell:
  assumes "row k \<noteq> None" "nonneg m"
  shows "has_width (longer row k m) k"
  using assms by (auto simp: has_width_def longer_def nonneg_def Let_def split: option.splits)

lemma longer_row_cell: "row k \<noteq> None \<Longrightarrow> nonneg m \<Longrightarrow> k \<in> set cs \<Longrightarrow> has_width (fold (longer row) cs m) k"
proof (induction cs arbitrary: m)
  case (Cons c cs)
  then show ?case by (cases "k = c") (auto intro: longer_row_has_width longer_cell longer_nonneg)
qed simp

lemma rows_has_width: "has_width m k \<Longrightarrow> has_width (fold (\<lambda>row m. fold (longer row) cs m) rows m) k"
  by (induction rows arbitrary: m) (auto intro: longer_row_has_width)

lemma rows_cell:
  "\<exists>row \<in> set rows. row k \<noteq> None \<Longrightarrow> nonneg m \<Longrightarrow> k \<in> set cs \<Longrightarrow>
   has_width (fold (\<lambda>row m. fold (longer row) cs m) rows m) k"
proof (induction rows arbitrary: m)
  case (Cons row rows)
  show ?case
  proof (cases "row k = None")
    case True
    with Cons show ?thesis by (auto intro: longer_row_nonneg)
  next
    case False
    with Cons.prems show ?thesis by (simp add: rows_has_width longer_row_cell)
  qed
qed simp

lemma dataColMaxSize_has: "\<exists>row \<in> set (Data t). row k \<noteq> None \<Longrightarrow> k \<in> set (Fields t) \<Longrightarrow> has_width (dataColMaxSize t) k"
  unfolding dataColMaxSize_def by (intro rows_cell) (auto simp: nonneg_def)

lemma initial_widths_within:
  assumes "\<exists>row \<in> set (Data t). row k \<noteq> None" "k \<in> set (Fields t)" "spec_ok (spec_of (FieldsSize t) k)"
  shows "within (spec_of (FieldsSize t) k) (width_of (initial_widths t) k)"
  using dataColMaxSize_has [OF assms(1,2)] clamp_within [OF assms(3)]
  by (auto simp: has_width_def initial_widths_def width_of_def)

lemma total_of_sum: "total_of (remdups ks) m = sum_over (set ks) m"
  by (simp add: total_of_def sum_over_def sum_list_distinct_conv_sum_set)

text \<open>A table whose columns have data and specifications that leave room.\<close>

definition table_ok :: "WrapperTable \<Rightarrow> bool" where
  "table_ok t \<longleftrightarrow> dom (FieldsSize t) = set (Fields t)
     \<and> (\<forall>k \<in> set (Fields t). spec_ok (spec_of (FieldsSize t) k) \<and> (\<exists>row \<in> set (Data t). row k \<noteq> None))"

text \<open>
  C38: fitting the columns to the terminal always ends, whatever the order in which the columns are visited, and then every
  column respects its fixed size, or its minimum and maximum, and the widths add up to the room there is, unless all columns are
  already at their maximum (and the table is narrower) or at their minimum (and it is wider).
\<close>

theorem columns_fit:
  assumes "columns_order order (dom (FieldsSize t))" "table_ok t" "TotalSize t \<noteq> 0"
  shows "let t' = CalculateColumnsSize order t; spec = spec_of (FieldsSize t); w = width_of (fieldsSize t');
      s = total_of (remdups (Fields t)) (fieldsSize t')
    in (\<forall>k \<in> set (Fields t). within (spec k) (w k))
     \<and> (s = tbl_totalSize t' \<or> s < tbl_totalSize t' \<and> (\<forall>k \<in> set (Fields t). \<not> can_change 1 (spec k) (w k))
        \<or> s > tbl_totalSize t' \<and> (\<forall>k \<in> set (Fields t). \<not> can_change (-1) (spec k) (w k)))"
proof -
  let ?K = "set (Fields t)" and ?m = "initial_widths t" and ?spec = "spec_of (FieldsSize t)"
  let ?t' = "CalculateColumnsSize order t"
  let ?delta = "tbl_totalSize ?t' - sum_over ?K ?m" and ?step = "if tbl_totalSize ?t' - sum_over ?K ?m < 0 then -1 else 1 :: int"
  have K: "dom (FieldsSize t) = ?K" using assms(2) by (simp add: table_ok_def)
  have start: "within (?spec k) (width_of ?m k)" if "k \<in> ?K" for k
    using that assms(2) by (auto simp: table_ok_def intro: initial_widths_within)
  have m': "fieldsSize ?t' = (if ?delta = 0 then ?m else resize order 0 ?step ?spec \<bar>?delta\<bar> ?m)"
    using assms(3) by (simp add: CalculateColumnsSize_def Let_def total_of_sum Abs_def)
  have within: "within (?spec k) (width_of (fieldsSize ?t') k)" if "k \<in> ?K" for k
    using start [OF that] resize_within [OF assms(1), of ?spec k ?m ?step 0 "\<bar>?delta\<bar>"] unfolding m' by presburger
  from resize_distributes [OF assms(1), of "\<bar>?delta\<bar>" 0 ?step ?spec ?m] obtain d where
    d: "0 \<le> d" "d \<le> \<bar>?delta\<bar>" "sum_over ?K (resize order 0 ?step ?spec \<bar>?delta\<bar> ?m) = sum_over ?K ?m + ?step * d"
      "d = \<bar>?delta\<bar> \<or> (\<forall>k \<in> ?K. \<not> can_change ?step (?spec k) (width_of (resize order 0 ?step ?spec \<bar>?delta\<bar> ?m) k))"
    unfolding K by auto
  show ?thesis
    using within d by (cases ?delta "0 :: int" rule: linorder_cases) (auto simp: Let_def total_of_sum m')
qed

definition example_table :: WrapperTable where
  "example_table = \<lparr>Labels = None, Fields = [''ID'', ''Name''], FieldsSize = [''ID'' \<mapsto> (0, 2, 5), ''Name'' \<mapsto> (0, 8, 0)],
     Data = [[''ID'' \<mapsto> ''1'', ''Name'' \<mapsto> ''root'']], TotalSize = 40, tbl_policy = TruncMiddle, tbl_totalSize = 0,
     paddingSize = 1, bolderSize = 1, fieldsSize = (\<lambda>_. None), Caption = []\<rparr>"

lemma example_table_ok: "table_ok example_table" "columns_order (\<lambda>_. [''Name'', ''ID'']) (dom (FieldsSize example_table))"
  by (auto simp: table_ok_def example_table_def spec_ok_def spec_of_def columns_order_def)

theorem columns_fit_witness:
  "within (0, 2, 5) (width_of (fieldsSize (CalculateColumnsSize (\<lambda>_. [''Name'', ''ID'']) example_table)) ''ID'')
   \<and> total_of [''ID'', ''Name''] (fieldsSize (CalculateColumnsSize (\<lambda>_. [''Name'', ''ID'']) example_table)) = 33"
proof -
  note fit = columns_fit [OF example_table_ok(2,1), unfolded Let_def]
  have "within (0, 2, 5) (width_of (fieldsSize (CalculateColumnsSize (\<lambda>_. [''Name'', ''ID'']) example_table)) ''ID'')"
    using fit by (simp add: example_table_def spec_of_def)
  moreover have "total_of [''ID'', ''Name''] (fieldsSize (CalculateColumnsSize (\<lambda>_. [''Name'', ''ID'']) example_table)) = 33"
    by code_simp
  ultimately show ?thesis by simp
qed

section \<open>Shortened cells\<close>

text \<open>Both directions return a valid part of the string, no longer than asked for.\<close>

lemma ValidString_Nil [simp]: "ValidString []"
  by (subst ValidString.simps) simp

lemma GetValidString_prefix:
  "\<exists>n. GetValidString s position True = take n s \<and> int n \<le> max 0 position \<and> ValidString (take n s)"
proof (induction s position True rule: GetValidString.induct)
  case (1 s position)
  show ?case
  proof (cases "0 \<le> position \<and> position \<le> int (length s)")
    case True
    show ?thesis
    proof (cases "ValidString (take (nat position) s)")
      case v: True
      with True have "GetValidString s position True = take (nat position) s" by (subst GetValidString.simps) simp
      with v True show ?thesis by (intro exI [of _ "nat position"]) simp
    next
      case v: False
      with True have "GetValidString s position True = GetValidString s (position - 1) True" by (subst GetValidString.simps) simp
      moreover have "position \<noteq> 0" using v by auto
      ultimately show ?thesis using 1 True v by fastforce
    qed
  next
    case False
    then have "GetValidString s position True = []" by (subst GetValidString.simps) auto
    then show ?thesis by (intro exI [of _ 0]) simp
  qed
qed

lemma GetValidString_suffix:
  "\<exists>n. GetValidString s position False = drop n s \<and> int (length (drop n s)) \<le> max 0 (int (length s) - position) \<and> ValidString (drop n s)"
proof (induction s position False rule: GetValidString.induct)
  case (1 s position)
  show ?case
  proof (cases "0 \<le> position \<and> position \<le> int (length s)")
    case True
    show ?thesis
    proof (cases "ValidString (drop (nat position) s)")
      case v: True
      with True have "GetValidString s position False = drop (nat position) s" by (subst GetValidString.simps) simp
      with v True show ?thesis by (intro exI [of _ "nat position"]) auto
    next
      case v: False
      with True have "GetValidString s position False = GetValidString s (position + 1) False" by (subst GetValidString.simps) simp
      with 1 True v show ?thesis by fastforce
    qed
  next
    case False
    then have "GetValidString s position False = []" by (subst GetValidString.simps) auto
    then show ?thesis by (intro exI [of _ "length s"]) simp
  qed
qed

text \<open>The policy of the menus keeps a cell within its column, given the three characters of the dots.\<close>

lemma TruncMiddle_fits:
  assumes "3 \<le> c"
  shows "int (length (truncate_cell TruncMiddle c s)) \<le> c"
proof (cases "int (length s) \<le> c")
  case True
  then show ?thesis by (simp add: truncate_cell_def)
next
  case False
  let ?mid = "(c - 3) sdiv 2"
  have mid: "?mid = (c - 3) div 2" using assms by (auto simp: signed_divide_int_def sgn_if)
  from GetValidString_prefix [of s ?mid] have a: "int (length (GetValidString s ?mid True)) \<le> ?mid"
    using assms mid by auto
  from GetValidString_suffix [of s "int (length s) - ?mid"] have b: "int (length (GetValidString s (int (length s) - ?mid) False)) \<le> ?mid"
    using assms mid by auto
  from False a b mid show ?thesis by (simp add: truncate_cell_def Let_def)
qed

text \<open>The policy that shortens at the front subtracts the dots on the wrong side, and the cell is six characters too wide.\<close>

lemma ValidString_ascii: "ascii s \<Longrightarrow> ValidString s"
proof (induction s)
  case (Cons ch s)
  then show ?case by (subst ValidString.simps) (auto simp: ascii_def RuneError_def)
qed simp

lemma TruncPrefix_overflows:
  assumes "ascii s" "0 \<le> c" "c + 3 \<le> int (length s)"
  shows "int (length (truncate_cell TruncPrefix c s)) = c + 6"
proof -
  have "ValidString (drop (nat (int (length s) - c - 3)) s)"
    using assms(1) by (intro ValidString_ascii) (auto simp: ascii_def list_all_iff dest: in_set_dropD)
  then have "GetValidString s (int (length s) - c - 3) False = drop (nat (int (length s) - c - 3)) s"
    using assms by (subst GetValidString.simps) simp
  then show ?thesis using assms by (simp add: truncate_cell_def)
qed

end
