(* ===== verification/Replay.thy ===== *)
theory Replay
  imports Core
begin

text \<open>
  Session recordings: the asciinema writer (\<^verbatim>\<open>pkg/common/asciinema.go\<close>), the replay recorder
  (\<^verbatim>\<open>pkg/proxy/record.go\<close>) and the file helpers it uses (\<^verbatim>\<open>pkg/common/util.go\<close>).  A file that is written to
  is an abstract \<open>'w\<close> with its write operation; JSON encoding is a parameter.
\<close>

section \<open>Paths\<close>

text \<open>\<^verbatim>\<open>filepath.Clean\<close> on the elements between slashes (the stack holds the kept ones, last first), and \<^verbatim>\<open>filepath.Join\<close>.\<close>

fun clean_elems :: "bool \<Rightarrow> string list \<Rightarrow> string list \<Rightarrow> string list" where
  "clean_elems rooted stack [] = rev stack"
| "clean_elems rooted stack (e # es) =
     (if e = [] \<or> e = ''.'' then clean_elems rooted stack es
      else if e = ''..'' then
        (case stack of
           [] \<Rightarrow> clean_elems rooted (if rooted then [] else [e]) es
         | p # stack' \<Rightarrow> if p = ''..'' then clean_elems rooted (e # stack) es else clean_elems rooted stack' es)
      else clean_elems rooted (e # stack) es)"

definition path_Clean :: "string \<Rightarrow> string" where
  "path_Clean path =
     (let rooted = (path \<noteq> [] \<and> hd path = CHR ''/''); out = Join (clean_elems rooted [] (Split path CHR ''/'')) ''/''
      in if rooted then ''/'' @ out else if out = [] then ''.'' else out)"

definition path_Join :: "string \<Rightarrow> string \<Rightarrow> string" where
  "path_Join a b =
     (if a = [] \<and> b = [] then [] else if a = [] then path_Clean b
      else if b = [] then path_Clean a else path_Clean (a @ ''/'' @ b))"

section \<open>Files\<close>

text \<open>
  The files by name, with their contents.  \<open>stat_err\<close> tells which names \<^verbatim>\<open>os.Stat\<close> fails on for a reason
  other than absence, and \<open>mkdir\<close> is \<^verbatim>\<open>os.MkdirAll\<close>.
\<close>

type_synonym filesystem = "string \<rightharpoonup> string"

definition FileExists :: "(string \<Rightarrow> bool) \<Rightarrow> filesystem \<Rightarrow> string \<Rightarrow> bool" where
  "FileExists stat_err fs name = (if stat_err name then True else fs name \<noteq> None)"

definition EnsureDirExist :: "(string \<Rightarrow> bool) \<Rightarrow> (string \<Rightarrow> goerror option) \<Rightarrow> string \<Rightarrow> goerror option" where
  "EnsureDirExist exists mkdir name = (if \<not> exists name then mkdir name else None)"

text \<open>
  What can go wrong in \<^verbatim>\<open>GzipCompressFile\<close>: opening the source, its \<^verbatim>\<open>Stat\<close>, creating the target, copying (after which part of the
  target may be written), closing the compressor.  \<open>gzip\<close> is the compressed form.
\<close>

record gzip_calls =
  gz_open :: "goerror option"
  gz_stat :: "goerror option"
  gz_create :: "goerror option"
  gz_copy :: "(goerror \<times> string) option"
  gz_close :: "(goerror \<times> string) option"

definition GzipCompressFile :: "(string \<Rightarrow> string) \<Rightarrow> gzip_calls \<Rightarrow> filesystem \<Rightarrow> string \<Rightarrow> string \<Rightarrow> goerror option \<times> filesystem" where
  "GzipCompressFile gzip g fs srcPath dstPath =
     (case gz_open g of
        Some err \<Rightarrow> (Some err, fs)
      | None \<Rightarrow>
          (case gz_stat g of
             Some err \<Rightarrow> (Some err, fs)
           | None \<Rightarrow>
               (case gz_create g of
                  Some err \<Rightarrow> (Some err, fs)
                | None \<Rightarrow>
                    (case gz_copy g of
                       Some (err, part) \<Rightarrow> (Some err, fs(dstPath \<mapsto> part))
                     | None \<Rightarrow>
                         (case gz_close g of
                            Some (err, part) \<Rightarrow> (Some err, fs(dstPath \<mapsto> part))
                          | None \<Rightarrow> (None, fs(dstPath := map_option gzip (fs srcPath))))))))"

section \<open>The asciinema writer\<close>

record AsciiConfig =
  Title :: string
  EnvShell :: string
  EnvTerm :: string
  ac_Width :: int
  ac_Height :: int
  ac_Timestamp :: int

type_synonym AsciiOption = "AsciiConfig \<Rightarrow> AsciiConfig"

definition WithWidth :: "int \<Rightarrow> AsciiOption" where "WithWidth width = ac_Width_update (\<lambda>_. width)"
definition WithHeight :: "int \<Rightarrow> AsciiOption" where "WithHeight height = ac_Height_update (\<lambda>_. height)"
definition WithTimestamp :: "int \<Rightarrow> AsciiOption" where "WithTimestamp timestamp = ac_Timestamp_update (\<lambda>_. timestamp)"
definition WithTitle :: "string \<Rightarrow> AsciiOption" where "WithTitle title = Title_update (\<lambda>_. title)"
definition WithEnvShell :: "string \<Rightarrow> AsciiOption" where "WithEnvShell shell = EnvShell_update (\<lambda>_. shell)"
definition WithEnvTerm :: "string \<Rightarrow> AsciiOption" where "WithEnvTerm term = EnvTerm_update (\<lambda>_. term)"

record 'w AsciiWriter =
  aw_config :: AsciiConfig
  TimestampNano :: int
  aw_writer :: 'w

definition default_AsciiConfig :: AsciiConfig where
  "default_AsciiConfig = \<lparr>Title = [], EnvShell = ''/bin/bash'', EnvTerm = ''xterm'', ac_Width = 80, ac_Height = 40,
     ac_Timestamp = 0\<rparr>"

definition NewWriter :: "'w \<Rightarrow> AsciiOption list \<Rightarrow> 'w AsciiWriter" where
  "NewWriter w opts =
     (let conf = fold (\<lambda>setter c. setter c) opts default_AsciiConfig
      in \<lparr>aw_config = conf, TimestampNano = ac_Timestamp conf, aw_writer = w\<rparr>)"

record Header =
  hd_Version :: int
  hd_Width :: int
  hd_Height :: int
  hd_Timestamp :: int
  hd_Title :: string
  hd_Shell :: string
  hd_Term :: string

text \<open>
  What the writer needs: the JSON encoders (\<open>marshal_row\<close> gets the time since the start in
  nanoseconds; the source divides it down to seconds) and the write operation of the file.
\<close>

record 'w recording =
  marshal_header :: "Header \<Rightarrow> string result"
  marshal_row :: "int \<Rightarrow> string \<Rightarrow> string result"
  file_write :: "'w \<Rightarrow> string \<Rightarrow> goerror option \<times> 'w"

definition newLine :: string where "newLine = [CHR 0x0A]"

definition write_line :: "'w recording \<Rightarrow> string result \<Rightarrow> 'w AsciiWriter \<Rightarrow> goerror option \<times> 'w AsciiWriter" where
  "write_line R marshalled w =
     (case marshalled of
        Inl err \<Rightarrow> (Some err, w)
      | Inr raw \<Rightarrow>
          (case file_write R (aw_writer w) raw of
             (Some err, f) \<Rightarrow> (Some err, w\<lparr>aw_writer := f\<rparr>)
           | (None, f) \<Rightarrow>
               (let (err, f) = file_write R f newLine in (err, w\<lparr>aw_writer := f\<rparr>))))"

definition WriteHeader :: "'w recording \<Rightarrow> 'w AsciiWriter \<Rightarrow> goerror option \<times> 'w AsciiWriter" where
  "WriteHeader R w =
     (let conf = aw_config w in
      write_line R (marshal_header R \<lparr>hd_Version = 2, hd_Width = ac_Width conf, hd_Height = ac_Height conf,
        hd_Timestamp = ac_Timestamp conf div 1000000000, hd_Title = Title conf, hd_Shell = EnvShell conf,
        hd_Term = EnvTerm conf\<rparr>) w)"

definition WriteStdout :: "'w recording \<Rightarrow> int \<Rightarrow> string \<Rightarrow> 'w AsciiWriter \<Rightarrow> goerror option \<times> 'w AsciiWriter" where
  "WriteStdout R ts data w = write_line R (marshal_row R ts data) w"

definition WriteRow :: "'w recording \<Rightarrow> int \<Rightarrow> string \<Rightarrow> 'w AsciiWriter \<Rightarrow> goerror option \<times> 'w AsciiWriter" where
  "WriteRow R now p w = WriteStdout R (now - TimestampNano w) p w"

section \<open>The recorder\<close>

record ReplyInfo =
  info_Width :: int
  info_Height :: int
  TimeStamp :: int

record 'w ReplyRecorder =
  rec_SessionID :: string
  absFilePath :: string
  absGzipFilePath :: string
  Target :: string
  rec_Writer :: "'w AsciiWriter option"
  rec_err :: "goerror option"
  rec_once :: bool
  disableRecorer :: bool

text \<open>
  \<^verbatim>\<open>NewReplayRecord\<close>: \<open>today\<close> and \<open>hms\<close> are the formatted time stamp, \<open>ensure_dir\<close> and
  \<open>create\<close> the results of making the directory and the file.  The error comes with the recorder.
\<close>

definition NewReplayRecord ::
  "Config \<Rightarrow> (string \<Rightarrow> goerror option) \<Rightarrow> (string \<Rightarrow> 'w result) \<Rightarrow> string \<Rightarrow> string \<Rightarrow> string \<Rightarrow> string \<Rightarrow> string
   \<Rightarrow> ReplyInfo \<Rightarrow> ('w ReplyRecorder \<times> goerror option) outcome" where
  "NewReplayRecord conf ensure_dir create today hms sid user asset info =
     (let r = \<lparr>rec_SessionID = sid, absFilePath = [], absGzipFilePath = [], Target = [], rec_Writer = None,
            rec_err = None, rec_once = False, disableRecorer = DisableRecorder conf\<rparr>
      in if disableRecorer r then Ret (r, None)
         else
           (let dir = path_Join (ReplayFolderPath conf) today
            in case ensure_dir dir of
                 Some err \<Rightarrow> Ret (r\<lparr>rec_err := Some err\<rparr>, Some err)
               | None \<Rightarrow>
                   if length sid < 8 then Panic SliceBounds
                   else
                     (let filename = user @ ''_'' @ asset @ ''_'' @ hms @ ''_'' @ take 8 sid @ ''.cast'';
                          gzFilename = filename @ ''.gz'';
                          r = r\<lparr>absGzipFilePath := path_Join dir gzFilename, absFilePath := path_Join dir filename,
                            Target := Join [today, gzFilename] ''/''\<rparr>
                      in case create (absFilePath r) of
                           Inl err \<Rightarrow> Ret (r\<lparr>rec_err := Some err\<rparr>, Some err)
                         | Inr fd \<Rightarrow>
                             Ret (r\<lparr>rec_Writer := Some (NewWriter fd [WithHeight (info_Height info),
                               WithWidth (info_Width info), WithTimestamp (TimeStamp info)])\<rparr>, None))))"

text \<open>\<^verbatim>\<open>Record\<close>: the header once, then the row; write errors are only logged.  A nil writer is dereferenced.\<close>

definition Record :: "'w recording \<Rightarrow> int \<Rightarrow> string \<Rightarrow> 'w ReplyRecorder \<Rightarrow> 'w ReplyRecorder outcome" where
  "Record R now p r =
     (if disableRecorer r then Ret r
      else if length p > 0 then
        (case rec_Writer r of
           None \<Rightarrow> Panic NilDereference
         | Some w \<Rightarrow>
             (let w = (if rec_once r then w else snd (WriteHeader R w))
              in Ret (r\<lparr>rec_once := True, rec_Writer := Some (snd (WriteRow R now p w))\<rparr>)))
      else Ret r)"

text \<open>The compression that \<^verbatim>\<open>End\<close> starts, on the files; \<open>g\<close> is what goes wrong in it.\<close>

definition compressReplay ::
  "(string \<Rightarrow> string) \<Rightarrow> gzip_calls \<Rightarrow> (string \<Rightarrow> bool) \<Rightarrow> 'w ReplyRecorder \<Rightarrow> filesystem \<Rightarrow> filesystem" where
  "compressReplay gzip g stat_err r fs =
     (if \<not> FileExists stat_err fs (absFilePath r) then fs
      else if \<not> stat_err (absFilePath r) \<and> fs (absFilePath r) = Some [] then fs(absFilePath r := None)
      else if \<not> FileExists stat_err fs (absGzipFilePath r) then
        (let fs = snd (GzipCompressFile gzip g fs (absFilePath r) (absGzipFilePath r)) in fs(absFilePath r := None))
      else fs)"

definition End :: "(string \<Rightarrow> string) \<Rightarrow> gzip_calls \<Rightarrow> (string \<Rightarrow> bool) \<Rightarrow> 'w ReplyRecorder \<Rightarrow> filesystem \<Rightarrow> filesystem" where
  "End gzip g stat_err r fs = (if disableRecorer r then fs else compressReplay gzip g stat_err r fs)"

section \<open>What is in a recording\<close>

text \<open>A file on which every write succeeds, and one line of a recording.\<close>

definition reliable :: "string recording \<Rightarrow> bool" where
  "reliable R \<longleftrightarrow> (\<forall>f s. file_write R f s = (None, f @ s)) \<and> (\<forall>h. \<exists>raw. marshal_header R h = Inr raw)
     \<and> (\<forall>ts d. \<exists>raw. marshal_row R ts d = Inr raw)"

definition line_of :: "string result \<Rightarrow> string" where
  "line_of m = (case m of Inr raw \<Rightarrow> raw @ newLine | Inl _ \<Rightarrow> [])"

definition header_of :: "AsciiConfig \<Rightarrow> Header" where
  "header_of conf = \<lparr>hd_Version = 2, hd_Width = ac_Width conf, hd_Height = ac_Height conf,
     hd_Timestamp = ac_Timestamp conf div 1000000000, hd_Title = Title conf, hd_Shell = EnvShell conf, hd_Term = EnvTerm conf\<rparr>"

fun record_all :: "'w recording \<Rightarrow> (int \<times> string) list \<Rightarrow> 'w ReplyRecorder \<Rightarrow> 'w ReplyRecorder outcome" where
  "record_all R [] r = Ret r"
| "record_all R ((now, p) # ps) r = outcome_bind (Record R now p r) (record_all R ps)"

definition rows_of :: "string recording \<Rightarrow> int \<Rightarrow> (int \<times> string) list \<Rightarrow> string" where
  "rows_of R start ps = concat (map (\<lambda>(now, p). line_of (marshal_row R (now - start) p)) (filter (\<lambda>(_, p). p \<noteq> []) ps))"

lemma write_line_reliable:
  assumes "reliable R" "\<exists>raw. m = Inr raw"
  shows "write_line R m w = (None, w\<lparr>aw_writer := aw_writer w @ line_of m\<rparr>)"
  using assms by (auto simp: write_line_def reliable_def line_of_def)

lemma Record_reliable:
  assumes "reliable R" "rec_Writer r = Some w" "\<not> disableRecorer r" "p \<noteq> []"
  shows "Record R now p r = Ret (r\<lparr>rec_once := True, rec_Writer := Some (w\<lparr>aw_writer := aw_writer w
    @ (if rec_once r then [] else line_of (marshal_header R (header_of (aw_config w))))
    @ line_of (marshal_row R (now - TimestampNano w) p)\<rparr>)\<rparr>)"
proof -
  have "\<exists>raw. marshal_row R ts d = Inr raw" "\<exists>raw. marshal_header R h = Inr raw" for ts d h
    using assms(1) by (auto simp: reliable_def)
  then show ?thesis
    using assms write_line_reliable [OF assms(1)]
    by (simp add: Record_def WriteRow_def WriteStdout_def WriteHeader_def Let_def header_of_def)
qed

lemma record_all_file:
  "reliable R \<Longrightarrow> rec_Writer r = Some w \<Longrightarrow> \<not> disableRecorer r \<Longrightarrow>
    \<exists>r' w'. record_all R ps r = Ret r' \<and> rec_Writer r' = Some w' \<and> aw_config w' = aw_config w \<and> aw_writer w' = aw_writer w
      @ (if rec_once r \<or> (\<forall>(_, p)\<in>set ps. p = []) then [] else line_of (marshal_header R (header_of (aw_config w))))
      @ rows_of R (TimestampNano w) ps"
proof (induction ps arbitrary: r w)
  case (Cons a ps)
  obtain now p where a: "a = (now, p)" by fastforce
  show ?case
  proof (cases "p = []")
    case True
    with Cons.IH [OF Cons.prems] Cons.prems a show ?thesis by (simp add: Record_def rows_of_def)
  next
    case False
    note rec = Record_reliable [OF Cons.prems False, of now]
    from Cons.IH [OF Cons.prems(1), of "r\<lparr>rec_once := True, rec_Writer := Some (w\<lparr>aw_writer := aw_writer w
        @ (if rec_once r then [] else line_of (marshal_header R (header_of (aw_config w))))
        @ line_of (marshal_row R (now - TimestampNano w) p)\<rparr>)\<rparr>" _, OF _ _] Cons.prems(3) rec a False
    show ?thesis by (simp add: rows_of_def)
  qed
qed (simp add: rows_of_def)

text \<open>
  C15: a session recording is complete and in order: starting from a new recorder on an empty file, the file
  holds, after any sequence of outputs, one header line and then one line for every non-empty output, in the
  order they were seen, each with its distance from the start of the session.
\<close>

theorem recording_complete:
  assumes "reliable R" "NewReplayRecord conf ensure_dir create today hms sid user asset info = Ret (r, None)"
    "\<not> DisableRecorder conf" "\<forall>path. create path = Inr []" "\<exists>(_, p)\<in>set ps. p \<noteq> []"
  shows "\<exists>r' w'. record_all R ps r = Ret r' \<and> rec_Writer r' = Some w' \<and>
    aw_writer w' = line_of (marshal_header R \<lparr>hd_Version = 2, hd_Width = info_Width info, hd_Height = info_Height info,
        hd_Timestamp = TimeStamp info div 1000000000, hd_Title = [], hd_Shell = ''/bin/bash'', hd_Term = ''xterm''\<rparr>)
      @ rows_of R (TimeStamp info) ps"
proof -
  let ?w = "NewWriter [] [WithHeight (info_Height info), WithWidth (info_Width info), WithTimestamp (TimeStamp info)]"
  have r: "rec_Writer r = Some ?w" "\<not> disableRecorer r" "\<not> rec_once r"
    using assms(2,3,4) by (auto simp: NewReplayRecord_def Let_def split: option.splits if_splits)
  have "\<not> (\<forall>(_, p)\<in>set ps. p = [])" using assms(5) by auto
  with record_all_file [OF assms(1) r(1,2), of ps] r(3) show ?thesis
    by (auto simp: NewWriter_def header_of_def default_AsciiConfig_def WithHeight_def WithWidth_def WithTimestamp_def)
qed

definition example_recording :: "string recording" where
  "example_recording = \<lparr>marshal_header = (\<lambda>h. Inr ''{}''), marshal_row = (\<lambda>ts d. Inr (''['' @ Itoa ts @ '','' @ d @ '']'')),
     file_write = (\<lambda>f s. (None, f @ s))\<rparr>"

definition example_info :: ReplyInfo where
  "example_info = \<lparr>info_Width = 80, info_Height = 24, TimeStamp = 100\<rparr>"

definition example_recorder :: "string ReplyRecorder" where
  "example_recorder = (case NewReplayRecord newDefaultConfig (\<lambda>_. None) (\<lambda>_. Inr []) ''20240101'' ''120000'' ''0123456789''
     ''rick'' ''db'' example_info of Ret (r, _) \<Rightarrow> r | Panic _ \<Rightarrow> undefined)"

lemma example_recorder_new:
  "NewReplayRecord newDefaultConfig (\<lambda>_. None) (\<lambda>_. Inr []) ''20240101'' ''120000'' ''0123456789'' ''rick'' ''db'' example_info
     = Ret (example_recorder, None)"
  by (simp add: example_recorder_def NewReplayRecord_def newDefaultConfig_def Let_def)

theorem recording_complete_witness:
  "\<exists>r' w'. record_all example_recording [(103, ''a''), (104, []), (107, ''b'')] example_recorder = Ret r' \<and>
     rec_Writer r' = Some w' \<and> aw_writer w' = ''{}'' @ newLine @ ''[3,a]'' @ newLine @ ''[7,b]'' @ newLine"
proof -
  have rel: "reliable example_recording"
    by (simp add: reliable_def example_recording_def)
  have "\<exists>r' w'. record_all example_recording [(103, ''a''), (104, []), (107, ''b'')] example_recorder = Ret r' \<and>
     rec_Writer r' = Some w' \<and> aw_writer w' = line_of (marshal_header example_recording \<lparr>hd_Version = 2,
        hd_Width = info_Width example_info, hd_Height = info_Height example_info,
        hd_Timestamp = TimeStamp example_info div 1000000000, hd_Title = [], hd_Shell = ''/bin/bash'', hd_Term = ''xterm''\<rparr>)
      @ rows_of example_recording (TimeStamp example_info) [(103, ''a''), (104, []), (107, ''b'')]"
    by (rule recording_complete [OF rel example_recorder_new]) (simp_all add: newDefaultConfig_def)
  moreover have "rows_of example_recording (TimeStamp example_info) [(103, ''a''), (104, []), (107, ''b'')]
      = ''[3,a]'' @ newLine @ ''[7,b]'' @ newLine"
    by code_simp
  ultimately show ?thesis by (simp add: example_recording_def line_of_def)
qed

section \<open>What happens to a finished recording\<close>

lemma GzipCompressFile_other:
  "p \<noteq> dst \<Longrightarrow> snd (GzipCompressFile gzip g fs src dst) p = fs p"
  by (simp add: GzipCompressFile_def split: option.split)

lemma GzipCompressFile_ok:
  "GzipCompressFile gzip g fs src dst = (None, fs') \<Longrightarrow> fs' dst = map_option gzip (fs src)"
  by (auto simp: GzipCompressFile_def split: option.splits prod.splits)

text \<open>
  The end of a session replaces its recording by the compressed one, if the compression
  succeeds.  If it fails, the recording is removed all the same: the error is not looked at, and when
  not even the target could be created nothing of the session is left.
\<close>

theorem finished_recording:
  assumes "\<not> disableRecorer r" "fs (absFilePath r) = Some content" "content \<noteq> []" "\<not> stat_err (absFilePath r)"
    "\<not> FileExists stat_err fs (absGzipFilePath r)" "absFilePath r \<noteq> absGzipFilePath r"
    "GzipCompressFile gzip g fs (absFilePath r) (absGzipFilePath r) = (err, fs')"
  shows "End gzip g stat_err r fs (absFilePath r) = None \<and>
    (if err = None then End gzip g stat_err r fs (absGzipFilePath r) = Some (gzip content)
     else gz_create g \<noteq> None \<longrightarrow> End gzip g stat_err r fs (absGzipFilePath r) = None)"
proof -
  have e: "End gzip g stat_err r fs = fs'(absFilePath r := None)"
    using assms by (simp add: End_def compressReplay_def FileExists_def)
  have "fs (absGzipFilePath r) = None" using assms(5) by (simp add: FileExists_def split: if_splits)
  then have "gz_create g \<noteq> None \<Longrightarrow> fs' (absGzipFilePath r) = None"
    using assms(7) by (auto simp: GzipCompressFile_def split: option.splits)
  with e assms(2,6,7) GzipCompressFile_ok [of gzip g fs "absFilePath r" "absGzipFilePath r" fs'] show ?thesis by auto
qed

definition broken_gzip :: gzip_calls where
  "broken_gzip = \<lparr>gz_open = None, gz_stat = None, gz_create = Some ''no space left on device'', gz_copy = None, gz_close = None\<rparr>"

theorem finished_recording_witness:
  "End id broken_gzip (\<lambda>_. False) (example_recorder\<lparr>absFilePath := ''a.cast'', absGzipFilePath := ''a.cast.gz''\<rparr>)
     [''a.cast'' \<mapsto> ''{}''] ''a.cast.gz'' = None"
proof -
  let ?r = "example_recorder\<lparr>absFilePath := ''a.cast'', absGzipFilePath := ''a.cast.gz''\<rparr>"
  have d: "\<not> disableRecorer example_recorder"
    by (simp add: example_recorder_def NewReplayRecord_def newDefaultConfig_def Let_def)
  have g: "GzipCompressFile id broken_gzip [''a.cast'' \<mapsto> ''{}''] (absFilePath ?r) (absGzipFilePath ?r)
      = (Some ''no space left on device'', [''a.cast'' \<mapsto> ''{}''])"
    by (simp add: GzipCompressFile_def broken_gzip_def)
  show ?thesis
    using finished_recording [OF _ _ _ _ _ _ g, of "''{}''" "\<lambda>_. False"] d
    by (simp add: FileExists_def broken_gzip_def)
qed

end
