(* ===== verification/Switch.thy ===== *)
theory Switch
  imports Replay
begin

text \<open>
  The switch between a user and a target machine (\<^verbatim>\<open>pkg/proxy/switchManager.go\<close>): the bridge loop, which relays, records,
  and ends the session, and the register of live sessions.  What the \<^verbatim>\<open>select\<close> of the loop receives is
  a list of events, so that every interleaving of its channels is covered.
\<close>

section \<open>Switch sessions\<close>

record SwitchSession =
  sw_ID :: string
  sw_MaxIdleTime :: int
  sw_keepAliveTime :: int
  sw_ctx_done :: bool
  terminateAdmin :: "string option"

definition Terminate :: "string \<Rightarrow> SwitchSession \<Rightarrow> SwitchSession" where
  "Terminate username s =
     (if sw_ctx_done s then s else s\<lparr>terminateAdmin := Some username, sw_ctx_done := True\<rparr>)"

definition loadTerminateAdmin :: "SwitchSession \<Rightarrow> string outcome" where
  "loadTerminateAdmin s = (case terminateAdmin s of Some name \<Rightarrow> Ret name | None \<Rightarrow> Panic TypeAssertion)"

section \<open>The bridge\<close>

text \<open>Times are nanoseconds; a window is its width and height; a closed channel delivers \<open>None\<close>.\<close>

datatype bridge_event =
  TickC int | CtxDone | WinCh "(int \<times> int) option" | SrvChan "string option" | UserChan "string option"
| KeepAliveTickC int | UserCtxDone | ExitSignal | AdminTerminates string

datatype bridge_end =
  IdleTooLong | PermissionExpired | TerminatedBy string | WindowsClosed | ServerClosed | UserClosed | UserGone | Exited

record 'w bridge =
  br_session :: SwitchSession
  lastActiveTime :: int
  to_user :: "string list"
  to_srv :: "string list"
  srv_windows :: "(int \<times> int) list"
  keep_alives :: nat
  br_recorder :: "'w ReplyRecorder"

definition touch :: "int \<Rightarrow> 'w bridge \<Rightarrow> 'w bridge" where
  "touch now b = b\<lparr>lastActiveTime := now\<rparr>"

text \<open>
  \<^verbatim>\<open>CheckPermissionExpired\<close> at \<open>now\<close>, for the permission's expiry in seconds; \<open>None\<close> is the nil pointer.
\<close>

definition CheckPermissionExpired :: "int option \<Rightarrow> int \<Rightarrow> bool outcome" where
  "CheckPermissionExpired expireInfo now =
     (case expireInfo of None \<Rightarrow> Panic NilDereference | Some e \<Rightarrow> Ret (IsExpired e (now div 1000000000)))"

text \<open>
  One round of the loop: \<open>now\<close> is the clock at its end.  The result is how the loop ends, or
  \<open>None\<close> when it goes on.
\<close>

fun Bridge_step ::
  "'w recording \<Rightarrow> int option \<Rightarrow> bridge_event \<Rightarrow> int \<Rightarrow> 'w bridge \<Rightarrow> (bridge_end option \<times> 'w bridge) outcome" where
  "Bridge_step R expireInfo (TickC t) now b =
     (if lastActiveTime b + sw_MaxIdleTime (br_session b) * 60000000000 < t then Ret (Some IdleTooLong, b)
      else outcome_bind (CheckPermissionExpired expireInfo t) (\<lambda>expired.
        if expired then Ret (Some PermissionExpired, b) else Ret (None, b)))"
| "Bridge_step R expireInfo CtxDone now b =
     outcome_bind (loadTerminateAdmin (br_session b)) (\<lambda>adminUser. Ret (Some (TerminatedBy adminUser), b))"
| "Bridge_step R expireInfo (WinCh win) now b =
     (case win of
        None \<Rightarrow> Ret (Some WindowsClosed, b)
      | Some w \<Rightarrow> Ret (None, touch now (b\<lparr>srv_windows := srv_windows b @ [w]\<rparr>)))"
| "Bridge_step R expireInfo (SrvChan p) now b =
     (case p of
        None \<Rightarrow> Ret (Some ServerClosed, b)
      | Some p \<Rightarrow>
          outcome_bind (Record R now p (br_recorder b)) (\<lambda>r.
            Ret (None, touch now (b\<lparr>br_recorder := r, to_user := to_user b @ [p]\<rparr>))))"
| "Bridge_step R expireInfo (UserChan p) now b =
     (case p of
        None \<Rightarrow> Ret (Some UserClosed, b)
      | Some p \<Rightarrow> Ret (None, touch now (b\<lparr>to_srv := to_srv b @ [p]\<rparr>)))"
| "Bridge_step R expireInfo (KeepAliveTickC t) now b =
     Ret (None, if lastActiveTime b + sw_keepAliveTime (br_session b) * 1000000000 < t
                then b\<lparr>keep_alives := keep_alives b + 1\<rparr> else b)"
| "Bridge_step R expireInfo UserCtxDone now b = Ret (Some UserGone, b)"
| "Bridge_step R expireInfo ExitSignal now b = Ret (Some Exited, b)"
| "Bridge_step R expireInfo (AdminTerminates username) now b =
     Ret (None, b\<lparr>br_session := Terminate username (br_session b)\<rparr>)"

text \<open>The loop over the events; on its end the recorder is ended by the caller.\<close>

fun Bridge :: "'w recording \<Rightarrow> int option \<Rightarrow> (bridge_event \<times> int) list \<Rightarrow> 'w bridge \<Rightarrow> (bridge_end option \<times> 'w bridge) outcome" where
  "Bridge R expireInfo [] b = Ret (None, b)"
| "Bridge R expireInfo ((e, now) # es) b =
     outcome_bind (Bridge_step R expireInfo e now b) (\<lambda>(r, b').
       case r of Some ended \<Rightarrow> Ret (Some ended, b') | None \<Rightarrow> Bridge R expireInfo es b')"

definition new_bridge :: "SwitchSession \<Rightarrow> int \<Rightarrow> 'w ReplyRecorder \<Rightarrow> 'w bridge" where
  "new_bridge s now r = \<lparr>br_session = s, lastActiveTime = now, to_user = [], to_srv = [], srv_windows = [],
     keep_alives = 0, br_recorder = r\<rparr>"

section \<open>The register of live sessions\<close>

record 's sessionManager =
  sm_data :: "string \<rightharpoonup> 's"

definition newSessionManager :: "'s sessionManager" where
  "newSessionManager = \<lparr>sm_data = Map.empty\<rparr>"

definition sm_Add :: "string \<Rightarrow> 's \<Rightarrow> 's sessionManager \<Rightarrow> 's sessionManager" where
  "sm_Add sid sess s = s\<lparr>sm_data := (sm_data s)(sid \<mapsto> sess)\<rparr>"

definition sm_Get :: "string \<Rightarrow> 's sessionManager \<Rightarrow> 's option" where
  "sm_Get sid s = sm_data s sid"

definition sm_Delete :: "string \<Rightarrow> 's sessionManager \<Rightarrow> 's sessionManager" where
  "sm_Delete sid s = s\<lparr>sm_data := (sm_data s)(sid := None)\<rparr>"

text \<open>\<^verbatim>\<open>Range\<close> returns the ids in the order the map is ranged over; what matters is which they are.\<close>

definition sm_Range :: "'s sessionManager \<Rightarrow> string set" where
  "sm_Range s = dom (sm_data s)"

definition AddCommonSwitch :: "SwitchSession \<Rightarrow> SwitchSession sessionManager \<Rightarrow> SwitchSession sessionManager" where
  "AddCommonSwitch s m = sm_Add (sw_ID s) s m"

definition RemoveCommonSwitch :: "SwitchSession \<Rightarrow> SwitchSession sessionManager \<Rightarrow> SwitchSession sessionManager" where
  "RemoveCommonSwitch s m = sm_Delete (sw_ID s) m"

section \<open>Registers\<close>

text \<open>
  What the code expects of a register of things that are alive, each under its own key: the sessions of the
  core and the switch sessions are kept this way (and the requests of the editor tunnel, in the theory of
  the server).
\<close>

locale live_register =
  fixes key_of :: "'v \<Rightarrow> string"
    and enter :: "'v \<Rightarrow> 'r \<Rightarrow> 'r"
    and leave :: "string \<Rightarrow> 'r \<Rightarrow> 'r"
    and find_live :: "string \<Rightarrow> 'r \<Rightarrow> 'v option"
  assumes find_enter: "find_live i (enter v r) = (if i = key_of v then Some v else find_live i r)"
    and find_leave: "find_live i (leave j r) = (if i = j then None else find_live i r)"
begin

lemma found_while_alive: "find_live (key_of v) (enter v r) = Some v"
  by (simp add: find_enter)

lemma gone_after_visit: "find_live (key_of v) (leave (key_of v) (enter v r)) = None"
  by (simp add: find_leave)

lemma visit_leaves_others: "i \<noteq> key_of v \<Longrightarrow> find_live i (leave (key_of v) (enter v r)) = find_live i r"
  by (simp add: find_leave find_enter)

lemma visits_leave_nothing:
  "find_live i r = None \<Longrightarrow> find_live i (fold (\<lambda>v r. leave (key_of v) (enter v r)) visits r) = None"
proof (induction visits arbitrary: r)
  case (Cons v visits)
  have "find_live i (leave (key_of v) (enter v r)) = None"
    using Cons.prems by (simp add: find_leave find_enter)
  with Cons.IH show ?case by simp
qed simp

end

interpretation switches: live_register sw_ID AddCommonSwitch sm_Delete sm_Get
  by unfold_locales (simp_all add: AddCommonSwitch_def sm_Add_def sm_Delete_def sm_Get_def)

interpretation core_sessions: live_register session_ID "\<lambda>s c. CreateSession c s"
    "\<lambda>i c. snd (SessionDisconnect E c date i)" "\<lambda>i c. session c i" for E date
  by unfold_locales (simp_all add: CreateSession_def session_SessionDisconnect)

section \<open>What the bridge relays and records\<close>

definition srv_chunks :: "(bridge_event \<times> int) list \<Rightarrow> (int \<times> string) list" where
  "srv_chunks es = concat (map (\<lambda>(e, now). case e of SrvChan (Some p) \<Rightarrow> [(now, p)] | _ \<Rightarrow> []) es)"

definition user_chunks :: "(bridge_event \<times> int) list \<Rightarrow> string list" where
  "user_chunks es = concat (map (\<lambda>(e, now). case e of UserChan (Some p) \<Rightarrow> [p] | _ \<Rightarrow> []) es)"

lemma Bridge_append:
  "Bridge R ex (es @ es') b =
    outcome_bind (Bridge R ex es b) (\<lambda>(r, b'). case r of Some ended \<Rightarrow> Ret (Some ended, b') | None \<Rightarrow> Bridge R ex es' b')"
proof (induction es arbitrary: b)
  case (Cons a es)
  obtain e now where a: "a = (e, now)" by fastforce
  show ?case
    by (cases "Bridge_step R ex e now b") (auto simp: a Cons.IH split: option.split)
qed simp

lemma Bridge_step_ended:
  assumes "Bridge_step R ex e now b = Ret (Some ended, b')"
  shows "to_user b' = to_user b \<and> to_srv b' = to_srv b \<and> br_recorder b' = br_recorder b
    \<and> srv_chunks [(e, now)] = [] \<and> user_chunks [(e, now)] = []"
  using assms by (cases e) (auto simp: srv_chunks_def user_chunks_def split: if_splits option.splits)

lemma Bridge_step_goes_on:
  assumes "Bridge_step R ex e now b = Ret (None, b')"
  shows "to_user b' = to_user b @ map snd (srv_chunks [(e, now)]) \<and> to_srv b' = to_srv b @ user_chunks [(e, now)]
    \<and> record_all R (srv_chunks [(e, now)]) (br_recorder b) = Ret (br_recorder b')"
  using assms
  by (cases e) (auto simp: srv_chunks_def user_chunks_def touch_def split: if_splits option.splits)

lemma record_all_append:
  "record_all R (ps @ qs) r = outcome_bind (record_all R ps r) (record_all R qs)"
proof (induction ps arbitrary: r)
  case (Cons a ps)
  then show ?case by (cases a; cases "Record R (fst a) (snd a) r") auto
qed simp

lemma chunks_Cons:
  "srv_chunks (a # es) = srv_chunks [a] @ srv_chunks es" "user_chunks (a # es) = user_chunks [a] @ user_chunks es"
  by (simp_all add: srv_chunks_def user_chunks_def)

lemma Bridge_relays:
  "Bridge R ex es b = Ret (r, b') \<Longrightarrow>
    \<exists>k \<le> length es. (r = None \<longrightarrow> k = length es) \<and> to_user b' = to_user b @ map snd (srv_chunks (take k es))
      \<and> to_srv b' = to_srv b @ user_chunks (take k es)
      \<and> record_all R (srv_chunks (take k es)) (br_recorder b) = Ret (br_recorder b')"
proof (induction es arbitrary: b)
  case Nil
  then show ?case by (simp add: srv_chunks_def user_chunks_def)
next
  case (Cons a es)
  obtain e now where a: "a = (e, now)" by fastforce
  from Cons.prems obtain r1 b1 where s: "Bridge_step R ex e now b = Ret (r1, b1)"
    and rest: "(case r1 of Some ended \<Rightarrow> Ret (Some ended, b1) | None \<Rightarrow> Bridge R ex es b1) = Ret (r, b')"
    by (auto simp: a)
  show ?case
  proof (cases r1)
    case (Some ended)
    with rest Bridge_step_ended [of R ex e now b ended b1] s
    show ?thesis by (intro exI [of _ 0]) (auto simp: srv_chunks_def user_chunks_def)
  next
    case None
    from Cons.IH [of b1] rest None obtain k where k: "k \<le> length es" "r = None \<longrightarrow> k = length es"
      "to_user b' = to_user b1 @ map snd (srv_chunks (take k es))"
      "to_srv b' = to_srv b1 @ user_chunks (take k es)"
      "record_all R (srv_chunks (take k es)) (br_recorder b1) = Ret (br_recorder b')" by auto
    note st = Bridge_step_goes_on [OF s [unfolded None]]
    have chunks: "srv_chunks (take (Suc k) (a # es)) = srv_chunks [(e, now)] @ srv_chunks (take k es)"
      "user_chunks (take (Suc k) (a # es)) = user_chunks [(e, now)] @ user_chunks (take k es)"
      using chunks_Cons [of a "take k es"] a by simp_all
    show ?thesis
    proof (intro exI [of _ "Suc k"] conjI)
      show "record_all R (srv_chunks (take (Suc k) (a # es))) (br_recorder b) = Ret (br_recorder b')"
        unfolding chunks record_all_append using st k(5) by simp
      show "to_user b' = to_user b @ map snd (srv_chunks (take (Suc k) (a # es)))"
        unfolding chunks using st k(3) by simp
      show "to_srv b' = to_srv b @ user_chunks (take (Suc k) (a # es))"
        unfolding chunks using st k(4) by simp
    qed (use k(1,2) in simp_all)
  qed
qed


definition example_switch :: SwitchSession where
  "example_switch = \<lparr>sw_ID = ''s1'', sw_MaxIdleTime = 30, sw_keepAliveTime = 60, sw_ctx_done = False, terminateAdmin = None\<rparr>"

definition example_bridge_events :: "(bridge_event \<times> int) list" where
  "example_bridge_events = [(UserChan (Some ''ls''), 103), (SrvChan (Some ''file''), 104), (ExitSignal, 105), (SrvChan (Some ''x''), 106)]"

lemma example_bridge_run:
  "\<exists>b. Bridge example_recording (Some 0) example_bridge_events (new_bridge example_switch 100 example_recorder) = Ret (Some Exited, b)
    \<and> to_user b = [''file''] \<and> to_srv b = [''ls'']"
  by (simp add: example_bridge_events_def new_bridge_def Record_def example_recorder_def NewReplayRecord_def
      newDefaultConfig_def Let_def touch_def)


section \<open>When the bridge ends\<close>

text \<open>The recorder can record: it is switched off, or its file could be opened.\<close>

definition recorder_ready :: "'w ReplyRecorder \<Rightarrow> bool" where
  "recorder_ready r \<longleftrightarrow> disableRecorer r \<or> rec_Writer r \<noteq> None"

lemma Record_ready:
  "recorder_ready r \<Longrightarrow> \<exists>r'. Record R now p r = Ret r' \<and> recorder_ready r'"
  by (auto simp: Record_def recorder_ready_def Let_def split: option.split)

text \<open>A cancelled context names the administrator who cancelled it.\<close>

definition switch_ok :: "SwitchSession \<Rightarrow> bool" where
  "switch_ok s \<longleftrightarrow> (sw_ctx_done s \<longrightarrow> terminateAdmin s \<noteq> None)"

fun done_only_after_cancel :: "bool \<Rightarrow> (bridge_event \<times> int) list \<Rightarrow> bool" where
  "done_only_after_cancel d [] = True"
| "done_only_after_cancel d ((CtxDone, now) # es) = (d \<and> done_only_after_cancel d es)"
| "done_only_after_cancel d ((AdminTerminates u, now) # es) = done_only_after_cancel True es"
| "done_only_after_cancel d (e # es) = done_only_after_cancel d es"

lemma Bridge_step_returns:
  assumes "recorder_ready (br_recorder b)" "switch_ok (br_session b)" "e = CtxDone \<longrightarrow> sw_ctx_done (br_session b)"
  shows "\<exists>r b'. Bridge_step R (Some ex) e now b = Ret (r, b') \<and> recorder_ready (br_recorder b') \<and> switch_ok (br_session b')
    \<and> (sw_ctx_done (br_session b') \<longleftrightarrow> sw_ctx_done (br_session b) \<or> (\<exists>u. e = AdminTerminates u))"
proof (cases e)
  case (SrvChan p)
  show ?thesis
  proof (cases p)
    case (Some chunk)
    obtain r' where "Record R now chunk (br_recorder b) = Ret r'" "recorder_ready r'"
      using Record_ready [OF assms(1)] by blast
    with assms SrvChan Some show ?thesis by (auto simp: touch_def)
  qed (use assms SrvChan in simp)
qed (use assms in \<open>auto simp: CheckPermissionExpired_def loadTerminateAdmin_def switch_ok_def touch_def Terminate_def
    split: option.split\<close>)

lemma Bridge_returns:
  "recorder_ready (br_recorder b) \<Longrightarrow> switch_ok (br_session b) \<Longrightarrow>
    done_only_after_cancel (sw_ctx_done (br_session b)) es \<Longrightarrow> \<exists>r. Bridge R (Some ex) es b = Ret r"
proof (induction es arbitrary: b)
  case (Cons a es)
  obtain e now where a: "a = (e, now)" by fastforce
  have "e = CtxDone \<longrightarrow> sw_ctx_done (br_session b)" using Cons.prems(3) a by auto
  from Bridge_step_returns [OF Cons.prems(1,2) this, of R ex now] obtain r b' where
    s: "Bridge_step R (Some ex) e now b = Ret (r, b')" "recorder_ready (br_recorder b')" "switch_ok (br_session b')"
      "sw_ctx_done (br_session b') \<longleftrightarrow> sw_ctx_done (br_session b) \<or> (\<exists>u. e = AdminTerminates u)" by blast
  have "done_only_after_cancel (sw_ctx_done (br_session b')) es"
    using Cons.prems(3) s(4) a by (cases e) auto
  from Cons.IH [OF s(2,3) this] s(1) a show ?case by (cases r) auto
qed simp

text \<open>
  C14: an expired permission ends the session at the next tick.  Whatever happened before, once a tick finds the
  permission expired the bridge has returned, without a panic, and what it did does not depend on anything that the
  user or the server sends afterwards.
\<close>

theorem bridge_ends_on_expiry:
  assumes "recorder_ready rec" "switch_ok s" "done_only_after_cancel (sw_ctx_done s) es"
    "IsExpired ex (t div 1000000000)"
  shows "\<exists>ended b. \<forall>later. Bridge R (Some ex) (es @ (TickC t, now) # later) (new_bridge s t0 rec) = Ret (Some ended, b)"
proof -
  have "\<exists>r. Bridge R (Some ex) es (new_bridge s t0 rec) = Ret r"
    using assms(1-3) by (intro Bridge_returns) (simp_all add: new_bridge_def)
  then obtain r b where run: "Bridge R (Some ex) es (new_bridge s t0 rec) = Ret (r, b)" by fastforce
  have "\<exists>ended. Bridge_step R (Some ex) (TickC t) now b = Ret (Some ended, b)"
    using assms(4) by (simp add: CheckPermissionExpired_def)
  then obtain ended where tick: "Bridge_step R (Some ex) (TickC t) now b = Ret (Some ended, b)" ..
  have "Bridge R (Some ex) ((TickC t, now) # later) b = Ret (Some ended, b)" for later
    using tick by (simp del: Bridge_step.simps outcome_bind_eq_Ret)
  with run show ?thesis by (cases r) (simp_all add: Bridge_append del: Bridge.simps Bridge_step.simps outcome_bind_eq_Ret)
qed

theorem bridge_ends_on_expiry_witness:
  "\<exists>ended b. \<forall>later. Bridge example_recording (Some 1) ([(UserChan (Some ''ls''), 103)] @ (TickC 5000000000, 104) # later)
     (new_bridge example_switch 100 example_recorder) = Ret (Some ended, b)"
  by (rule bridge_ends_on_expiry)
    (simp_all add: recorder_ready_def example_recorder_def NewReplayRecord_def newDefaultConfig_def Let_def
      switch_ok_def example_switch_def IsExpired_def)

end
