(* ===== verification/Proxy.thy ===== *)
theory Proxy
  imports Tickets SrvConn Switch Util SshSession
begin

text \<open>
  The proxy session (\<^verbatim>\<open>pkg/proxy/server.go\<close>, \<^verbatim>\<open>pkg/proxy/loginConfirm.go\<close>, \<^verbatim>\<open>pkg/proxy/serverOption.go\<close>): from the chosen user,
  asset and system user to the bridge, through the credentials, the expiry of the permission, the login confirmation,
  the register of sessions and the connection to the asset.
\<close>

section \<open>Connection options\<close>

record ConnectionOptions =
  co_user :: "User option"
  co_systemUser :: "SystemUser option"
  co_asset :: "Asset option"

type_synonym ConnectionOption = "ConnectionOptions \<Rightarrow> ConnectionOptions"

definition ConnectUser :: "User \<Rightarrow> ConnectionOption" where
  "ConnectUser user opts = opts\<lparr>co_user := Some user\<rparr>"

definition ConnectSystemUser :: "SystemUser \<Rightarrow> ConnectionOption" where
  "ConnectSystemUser systemUser opts = opts\<lparr>co_systemUser := Some systemUser\<rparr>"

definition ConnectAsset :: "Asset \<Rightarrow> ConnectionOption" where
  "ConnectAsset asset opts = opts\<lparr>co_asset := Some asset\<rparr>"

definition TerminalTitle :: "SystemUser \<Rightarrow> Asset \<Rightarrow> string" where
  "TerminalTitle su asset =
     (if sys_Protocol su = ProtocolSSH then sys_Protocol su @ ''://'' @ sys_Username su @ ''@'' @ IP asset else [])"

definition ConnectMsg :: "SystemUser \<Rightarrow> Asset \<Rightarrow> string" where
  "ConnectMsg su asset =
     (if sys_Protocol su = ProtocolSSH then ''Connecting to '' @ sys_Username su @ ''@'' @ IP asset else [])"

section \<open>The server of one proxy session\<close>

record ProxyServer =
  ps_ID :: string
  ps_user :: User
  ps_systemUser :: SystemUser
  ps_asset :: Asset
  ps_terminalConf :: TerminalConfig
  ps_expireInfo :: "int option"
  ps_sessionInfo :: Session
  ps_cached :: "nat option"
  ps_keyboardMode :: bool
  ps_loginTicketId :: string

definition ErrUnMatchProtocol :: goerror where "ErrUnMatchProtocol = ''the protocols are not matched''"
definition ErrNoAuthInfo :: goerror where "ErrNoAuthInfo = ''no auth info''"

text \<open>
  \<^verbatim>\<open>NewServer\<close>: \<open>uuid\<close> is the generated session id, \<open>from\<close> and \<open>addr\<close> come from the user's connection.  The
  list holds what is written to the user.  A failed expiry query is logged and leaves the pointer nil.
\<close>

definition NewServer ::
  "'db engine \<Rightarrow> 'db Core \<Rightarrow> string \<Rightarrow> string \<Rightarrow> string \<Rightarrow> ConnectionOption list \<Rightarrow> (string list \<times> ProxyServer result) outcome" where
  "NewServer E c uuid from addr opts =
     (let co = fold (\<lambda>setter o'. setter o') opts \<lparr>co_user = None, co_systemUser = None, co_asset = None\<rparr>
      in case co_systemUser co of
           None \<Rightarrow> Panic NilDereference
         | Some su \<Rightarrow>
             (case IsSupportedProtocol (sys_Protocol su) of
                Some err \<Rightarrow>
                  Ret ([WrapperWarn (''unsupported protocol '' @ sys_Protocol su)], Inl (ErrUnMatchProtocol @ '': '' @ err))
              | None \<Rightarrow>
                  (case GetTerminalConfig E c of
                     (_, Some err) \<Rightarrow> Ret ([], Inl (''get terminal config error: '' @ err))
                   | (terminalConf, None) \<Rightarrow>
                       (case co_asset co of
                          None \<Rightarrow> Panic NilDereference
                        | Some asset \<Rightarrow>
                            if \<not> IsSupportProtocol asset (sys_Protocol su) then
                              (let msg = ''System user <'' @ sys_Username su @ ''> and asset <'' @ Hostname asset
                                     @ ''> protocol are inconsistent.''
                               in Ret ([WrapperWarn msg], Inl (ErrUnMatchProtocol @ '': '' @ msg)))
                            else
                              (case co_user co of
                                 None \<Rightarrow> Panic NilDereference
                               | Some user \<Rightarrow>
                                   Ret ([], Inr \<lparr>ps_ID = uuid, ps_user = user, ps_systemUser = su, ps_asset = asset,
                                     ps_terminalConf = terminalConf,
                                     ps_expireInfo = (case QueryAssetUserExpire E c (user_ID user) (asset_ID asset) of
                                       Inl _ \<Rightarrow> None | Inr e \<Rightarrow> Some e),
                                     ps_sessionInfo = \<lparr>session_ID = uuid, session_User = Username user,
                                       session_Asset = Asset_String asset, session_SystemUser = sys_Username su,
                                       LoginFrom = from, session_RemoteAddr = addr, session_Protocol = sys_Protocol su,
                                       DateStart = 0, session_UserID = user_ID user, session_AssetID = asset_ID asset,
                                       session_SystemUserID = sys_ID su\<rparr>,
                                     ps_cached = None, ps_keyboardMode = False, ps_loginTicketId = []\<rparr>))))))"

definition ps_CheckPermissionExpired :: "ProxyServer \<Rightarrow> int \<Rightarrow> bool outcome" where
  "ps_CheckPermissionExpired s now = CheckPermissionExpired (ps_expireInfo s) now"

subsection \<open>Credentials\<close>

text \<open>
  The prompt for a user name reads lines until one is not blank; \<open>None\<close> means that it still waits.
\<close>

fun read_username :: "string result list \<Rightarrow> string result option" where
  "read_username [] = None"
| "read_username (Inl err # rs) = Some (Inl err)"
| "read_username (Inr l # rs) = (if TrimSpace l \<noteq> [] then Some (Inr (TrimSpace l)) else read_username rs)"

definition getUsernameIfNeed :: "string result list \<Rightarrow> ProxyServer \<Rightarrow> (goerror option \<times> ProxyServer) option" where
  "getUsernameIfNeed reads s =
     (if sys_Username (ps_systemUser s) = [] then
        (case read_username reads of
           None \<Rightarrow> None
         | Some (Inl err) \<Rightarrow> Some (Some err, s)
         | Some (Inr username) \<Rightarrow> Some (None, s\<lparr>ps_systemUser := (ps_systemUser s)\<lparr>sys_Username := username\<rparr>\<rparr>))
      else Some (None, s))"

definition getAuthPasswordIfNeed :: "string result \<Rightarrow> ProxyServer \<Rightarrow> goerror option \<times> ProxyServer" where
  "getAuthPasswordIfNeed read s =
     (if sys_Password (ps_systemUser s) = [] then
        (case read of
           Inl err \<Rightarrow> (Some err, s)
         | Inr l \<Rightarrow> (None, s\<lparr>ps_systemUser := (ps_systemUser s)\<lparr>sys_Password := l\<rparr>\<rparr>))
      else (None, s))"

definition checkReuseSSHClient :: "Config \<Rightarrow> ProxyServer \<Rightarrow> bool" where
  "checkReuseSSHClient conf s =
     (if ReuseConnection conf then Platform (ps_asset s) = ''Linux'' \<and> sys_Protocol (ps_systemUser s) = ProtocolSSH else False)"

definition reuse_key :: "ProxyServer \<Rightarrow> string" where
  "reuse_key s = MakeReuseSSHClientKey (user_ID (ps_user s)) (asset_ID (ps_asset s)) (sys_ID (ps_systemUser s))
     (IP (ps_asset s)) (sys_Username (ps_systemUser s))"

text \<open>
  What the proxy gets from outside while it sets a session up: lines typed by the user, the clock, the terminal of the user,
  what the SSH library answers, what happens to the tickets while it waits, and what the bridge receives.
\<close>

record ('s, 'w) outside =
  typed_usernames :: "string result list"
  typed_password :: "string result"
  clock :: int
  date_text :: string
  user_pty :: Pty
  map_order :: "nat list"
  acquired :: "nat result"
  conn_calls :: "session_calls option"
  parse_pass :: "string \<Rightarrow> string \<Rightarrow> 's option"
  parse_plain :: "string \<Rightarrow> 's option"
  dial :: "string \<Rightarrow> 's ClientConfig \<Rightarrow> goerror option"
  fresh_client :: nat
  kb_lines :: "nat \<Rightarrow> string"
  ticket_uuid :: string
  ticket_history :: "(wait_event \<times> ticket_op list) list"
  replay_dir :: "string \<Rightarrow> goerror option"
  replay_create :: "string \<Rightarrow> 'w result"
  today_text :: string
  hms_text :: string
  replay_writer :: "'w recording"
  bridge_events :: "(bridge_event \<times> int) list"

text \<open>\<^verbatim>\<open>getCacheSSHConn\<close>: the session number of a reused connection.\<close>

definition pty_options :: "Pty \<Rightarrow> (SSHOptions \<Rightarrow> SSHOptions) list" where
  "pty_options pty = [SSHTerm (Term pty), SSHPtyWin (Width (Pty_Window pty)) (Height (Pty_Window pty))]"

definition getCacheSSHConn :: "('s, 'w) outside \<Rightarrow> ProxyServer \<Rightarrow> 's manager \<Rightarrow> nat option \<times> 's manager" where
  "getCacheSSHConn X s m =
     (case run_step (Request (clock X) (reuse_key s) (map_order X)) m of
        (None, m) \<Rightarrow> (None, m)
      | (Some c, m) \<Rightarrow>
          (case AcquireSession (clock X) (acquired X) c (mgr_heap m) of
             (Inl err, h) \<Rightarrow> (None, m\<lparr>mgr_heap := h\<rparr>)
           | (Inr sess, h) \<Rightarrow>
               (case NewSSHConnection (conn_calls X) (rev (pty_options (user_pty X))) of
                  Inl err \<Rightarrow> (None, m\<lparr>mgr_heap := ReleaseSession c sess h\<rparr>)
                | Inr _ \<Rightarrow> (Some sess, m\<lparr>mgr_heap := h\<rparr>))))"

definition checkRequiredAuth ::
  "Config \<Rightarrow> ('s, 'w) outside \<Rightarrow> ProxyServer \<Rightarrow> 's manager \<Rightarrow> (goerror option \<times> ProxyServer \<times> 's manager) option" where
  "checkRequiredAuth conf X s m =
     (if sys_Protocol (ps_systemUser s) = ProtocolSSH then
        (case getUsernameIfNeed (typed_usernames X) s of
           None \<Rightarrow> None
         | Some (Some err, s) \<Rightarrow> Some (Some err, s, m)
         | Some (None, s) \<Rightarrow>
             (case (if checkReuseSSHClient conf s then getCacheSSHConn X s m else (None, m)) of
                (Some sess, m) \<Rightarrow> Some (None, s\<lparr>ps_cached := Some sess\<rparr>, m)
              | (None, m) \<Rightarrow>
                  if sys_PrivateKey (ps_systemUser s) = [] then
                    (let (err, s) = getAuthPasswordIfNeed (typed_password X) s in Some (err, s, m))
                  else Some (None, s, m)))
      else Some (Some ErrNoAuthInfo, s, m))"

subsection \<open>Confirmation\<close>

text \<open>
  \<^verbatim>\<open>validateLoginConfirm\<close>: \<open>None\<close> means that the wait goes on.  The core that is left is the one the wait ended with.
\<close>

definition validateLoginConfirm ::
  "'db engine \<Rightarrow> ('s, 'w) outside \<Rightarrow> LoginConfirmService \<Rightarrow> 'db Core \<Rightarrow> (bool \<times> LoginConfirmService \<times> 'db Core) option outcome" where
  "validateLoginConfirm E X srv c =
     outcome_bind (CheckIsNeedLoginConfirm E srv c (ticket_uuid X) (date_text X)) (\<lambda>((ok, err), srv, c).
       case err of
         Some _ \<Rightarrow> Ret (Some (False, srv, c))
       | None \<Rightarrow>
           if \<not> ok then Ret (Some (True, srv, c))
           else
             (case waitConfirmFinish E srv (map (\<lambda>(ev, ops). (ev, fold (ticket_exec E) ops c)) (ticket_history X)) of
                None \<Rightarrow> Ret None
              | Some (status, srv, c) \<Rightarrow> Ret (Some (status = StatusApprove, srv, c))))"

definition checkLoginConfirm ::
  "'db engine \<Rightarrow> ('s, 'w) outside \<Rightarrow> ProxyServer \<Rightarrow> 'db Core \<Rightarrow> (bool \<times> ProxyServer \<times> 'db Core) option outcome" where
  "checkLoginConfirm E X s c =
     (let target = (if sys_Protocol (ps_systemUser s) = ProtocolSSH then (asset_ID (ps_asset s), asset_Name (ps_asset s)) else ([], []));
          confirmSrv = NewLoginConfirm [ConfirmWithUser (ps_user s), ConfirmWithSystemUser (ps_systemUser s),
            ConfirmWithAssetID (fst target), ConfirmWithAssetName (snd target)]
      in outcome_bind (validateLoginConfirm E X confirmSrv c) (\<lambda>r.
           Ret (case r of None \<Rightarrow> None
                | Some (ok, srv, c) \<Rightarrow> Some (ok, s\<lparr>ps_loginTicketId := GetTicketId srv\<rparr>, c))))"

subsection \<open>The connection to the asset\<close>

text \<open>The answers to the questions of a keyboard-interactive login; a failed read answers with what was read.\<close>

definition kb_answers :: "SystemUser \<Rightarrow> (nat \<Rightarrow> string) \<Rightarrow> string list \<Rightarrow> string list" where
  "kb_answers su readline questions =
     map (\<lambda>i. if Contains (ToLower (questions ! i)) ''password'' \<and> (sys_PrivateKey su \<noteq> [] \<or> sys_Password su \<noteq> [])
              then sys_Password su else readline i) [0..<length questions]"

definition getSSHConn :: "Config \<Rightarrow> ('s, 'w) outside \<Rightarrow> ProxyServer \<Rightarrow> 's manager \<Rightarrow> nat result \<times> 's manager" where
  "getSSHConn conf X s m =
     (let su = ps_systemUser s;
          opts = BuildSSHClientOptions (parse_pass X) (parse_plain X) conf (ps_asset s) su
            @ [SSHClientKeyboardAuth (kb_answers su (kb_lines X))]
      in case NewSSHClient (parse_pass X) (parse_plain X) (dial X) opts of
           Inl err \<Rightarrow> (Inl err, m)
         | Inr client \<Rightarrow>
             (let a = fresh_client X;
                  m = m\<lparr>mgr_heap := (mgr_heap m)(a := client)\<rparr>;
                  m = snd (run_step (StoreClient (clock X) (reuse_key s) a) m)
              in case AcquireSession (clock X) (acquired X) a (mgr_heap m) of
                   (Inl err, h) \<Rightarrow> (Inl err, m\<lparr>mgr_heap := h\<rparr>)
                 | (Inr sess, h) \<Rightarrow>
                     (case NewSSHConnection (conn_calls X) (pty_options (user_pty X)) of
                        Inl (err, _) \<Rightarrow> (Inl err, m\<lparr>mgr_heap := ReleaseSession a sess h\<rparr>)
                      | Inr _ \<Rightarrow> (Inr sess, m\<lparr>mgr_heap := h\<rparr>))))"

definition getServerConn :: "Config \<Rightarrow> ('s, 'w) outside \<Rightarrow> ProxyServer \<Rightarrow> 's manager \<Rightarrow> nat result \<times> 's manager" where
  "getServerConn conf X s m =
     (case ps_cached s of
        Some sess \<Rightarrow> (Inr sess, m)
      | None \<Rightarrow>
          if sys_Protocol (ps_systemUser s) = ProtocolSSH then getSSHConn conf X s m
          else (Inl ErrUnMatchProtocol, m))"

definition ConvertErrorToReadableMsg :: "goerror \<Rightarrow> string" where
  "ConvertErrorToReadableMsg errMsg =
     (if Contains errMsg ''unable to authenticate'' \<or> Contains errMsg ''failed login'' then ''Authentication failed''
      else if Contains errMsg ''connection refused'' then ''Connection refused''
      else if Contains errMsg ''i/o timeout'' then ''i/o timeout''
      else if Contains errMsg ''No route to host'' then ''No route to host''
      else if Contains errMsg ''network is unreachable'' then ''network is unreachable''
      else errMsg)"

text \<open>\<^verbatim>\<open>sendConnectErrorMsg\<close>: what the user sees, and what is logged of a password.\<close>

definition sendConnectErrorMsg :: "ProxyServer \<Rightarrow> goerror \<Rightarrow> (string list \<times> string list) outcome" where
  "sendConnectErrorMsg s err =
     (let msg = ConnectMsg (ps_systemUser s) (ps_asset s) @ '' error: '' @ ConvertErrorToReadableMsg err;
          password = sys_Password (ps_systemUser s)
      in if password = [] then Ret ([msg, CharNewLine], [msg])
         else if length password < 2 then Panic SliceBounds
         else Ret ([msg, CharNewLine], [msg, ''Try password: '' @ take 2 password @ replicate 8 CHR ''*'']))"

definition GetReplayRecorder :: "Config \<Rightarrow> ('s, 'w) outside \<Rightarrow> ProxyServer \<Rightarrow> 'w ReplyRecorder outcome" where
  "GetReplayRecorder conf X s =
     outcome_bind (NewReplayRecord conf (replay_dir X) (replay_create X) (today_text X) (hms_text X) (ps_ID s)
       (Username (ps_user s)) (asset_Name (ps_asset s))
       \<lparr>info_Width = Width (Pty_Window (user_pty X)), info_Height = Height (Pty_Window (user_pty X)), TimeStamp = clock X\<rparr>)
       (\<lambda>(r, err). Ret r)"

subsection \<open>The whole session\<close>

record ('db, 's) world =
  w_core :: "'db Core"
  w_switches :: "SwitchSession sessionManager"
  w_clients :: "'s manager"

text \<open>How \<^verbatim>\<open>Proxy\<close> ends; a bridge that has not ended yet leaves the session registered.\<close>

datatype 'w proxy_end =
  StillTyping | NoCredentials goerror | AlreadyExpired | StillWaiting | NotConfirmed | NotConnected goerror
| Connected "bridge_end option" "'w bridge"

definition start_session :: "ProxyServer \<Rightarrow> int \<Rightarrow> SwitchSession \<Rightarrow> ('db, 's) world \<Rightarrow> ('db, 's) world" where
  "start_session s now sw w =
     w\<lparr>w_core := CreateSession (w_core w) ((ps_sessionInfo s)\<lparr>DateStart := now\<rparr>),
       w_switches := AddCommonSwitch sw (w_switches w)\<rparr>"

definition end_session :: "'db engine \<Rightarrow> string \<Rightarrow> ProxyServer \<Rightarrow> SwitchSession \<Rightarrow> ('db, 's) world \<Rightarrow> ('db, 's) world" where
  "end_session E date s sw w =
     w\<lparr>w_core := snd (SessionDisconnect E (w_core w) date (session_ID (ps_sessionInfo s))),
       w_switches := RemoveCommonSwitch sw (w_switches w)\<rparr>"

definition new_switch :: "ProxyServer \<Rightarrow> SwitchSession" where
  "new_switch s = \<lparr>sw_ID = ps_ID s, sw_MaxIdleTime = MaxIdleTime (ps_terminalConf s), sw_keepAliveTime = 60,
     sw_ctx_done = False, terminateAdmin = None\<rparr>"

text \<open>
  The part of \<^verbatim>\<open>Proxy\<close> after the checks.  \<open>others\<close> is what other sessions do to the shared state while this one is connected.
\<close>

definition run_session ::
  "'db engine \<Rightarrow> Config \<Rightarrow> ('s, 'w) outside \<Rightarrow> (('db, 's) world \<Rightarrow> ('db, 's) world) \<Rightarrow> ProxyServer \<Rightarrow> ('db, 's) world
   \<Rightarrow> ('w proxy_end \<times> ProxyServer \<times> ('db, 's) world) outcome" where
  "run_session E conf X others s w =
     (let sw = new_switch s; sid = session_ID (ps_sessionInfo s); w = start_session s (clock X) sw w
      in case getServerConn conf X s (w_clients w) of
           (Inl err, m) \<Rightarrow>
             outcome_bind (sendConnectErrorMsg s err) (\<lambda>_.
               let w = w\<lparr>w_clients := m, w_core := snd (SessionFailed E (w_core w) (date_text X) sid err)\<rparr>
               in Ret (NotConnected err, s, end_session E (date_text X) s sw w))
         | (Inr sess, m) \<Rightarrow>
             (let w = w\<lparr>w_clients := m, w_core := snd (SessionSuccess E (w_core w) (date_text X) sid)\<rparr>
              in outcome_bind (GetReplayRecorder conf X s) (\<lambda>r.
                 outcome_bind (Bridge (replay_writer X) (ps_expireInfo s) (bridge_events X) (new_bridge sw (clock X) r)) (\<lambda>(ended, b).
                   Ret (Connected ended b, s,
                     if ended = None then others w else end_session E (date_text X) s sw (others w))))))"

definition Proxy ::
  "'db engine \<Rightarrow> Config \<Rightarrow> ('s, 'w) outside \<Rightarrow> (('db, 's) world \<Rightarrow> ('db, 's) world) \<Rightarrow> ProxyServer \<Rightarrow> ('db, 's) world
   \<Rightarrow> ('w proxy_end \<times> ProxyServer \<times> ('db, 's) world) outcome" where
  "Proxy E conf X others s w =
     (case checkRequiredAuth conf X s (w_clients w) of
        None \<Rightarrow> Ret (StillTyping, s, w)
      | Some (Some err, s, m) \<Rightarrow> Ret (NoCredentials err, s, w\<lparr>w_clients := m\<rparr>)
      | Some (None, s, m) \<Rightarrow>
          (let w = w\<lparr>w_clients := m\<rparr>
           in outcome_bind (ps_CheckPermissionExpired s (clock X)) (\<lambda>expired.
              if expired then Ret (AlreadyExpired, s, w)
              else outcome_bind (checkLoginConfirm E X s (w_core w)) (\<lambda>r.
                case r of
                  None \<Rightarrow> Ret (StillWaiting, s, w)
                | Some (False, s, c) \<Rightarrow> Ret (NotConfirmed, s, w\<lparr>w_core := c\<rparr>)
                | Some (True, s, c) \<Rightarrow> run_session E conf X others s (w\<lparr>w_core := c\<rparr>)))))"

section \<open>Who gets connected\<close>

lemma CheckIfNeed_session:
  "session (snd (CheckIfNeedAssetLoginConfirm E c uuid date userId username assetId assetName sysUsername)) = session c"
  by (auto simp: CheckIfNeedAssetLoginConfirm_def Let_def split: prod.split option.split sum.split)

lemma UpdateTicketState_session: "session (snd (UpdateTicketState E c date tid state user)) = session c"
  by (simp add: UpdateTicketState_def split: prod.split)

lemma ticket_exec_session: "session (ticket_exec E op c) = session c"
  by (cases op) (simp_all add: CheckIfNeed_session UpdateTicketState_session)

lemma tickets_session: "session (fold (ticket_exec E) ops c) = session c"
  by (induction ops arbitrary: c) (simp_all add: ticket_exec_session)

lemma waitConfirmFinish_session:
  "waitConfirmFinish E srv evs = Some (status, srv', c') \<Longrightarrow> \<forall>(ev, c) \<in> set evs. session c = S \<Longrightarrow> session c' = S"
proof (induction E srv evs rule: waitConfirmFinish.induct)
  case (3 E s c evs)
  then show ?case by (auto split: prod.splits option.splits if_splits)
qed (auto simp: cancelConfirm_def CancelConfirmByRequestInfo_def UpdateTicketState_session)

lemma CheckIsNeed_cases:
  assumes "CheckIsNeedLoginConfirm E srv c uuid date = Ret ((ok, err), srv', c')"
    "opt_user (option_of srv) = Some user" "opt_systemUser (option_of srv) = Some su"
  obtains res where "CheckIfNeedAssetLoginConfirm E c uuid date (user_ID user) (Username user) (opt_assetID (option_of srv))
      (opt_assetName (option_of srv)) (sys_Username su) = (res, c')"
    "(\<exists>e. res = Inl e \<and> err = Some e) \<or>
     (\<exists>info. res = Inr info \<and> err = None \<and> ok = ti_NeedConfirm info \<and> ticketId srv' = ti_TicketId info)"
  using assms by (auto simp: CheckIsNeedLoginConfirm_def Let_def split: prod.splits sum.splits)

lemma NeedConfirm_ticket:
  assumes "CheckIfNeedAssetLoginConfirm E c uuid date userId username assetId assetName sysUsername = (Inr info, c')" "ti_NeedConfirm info"
  shows "ti_TicketId info = uuid"
  using assms by (auto simp: CheckIfNeedAssetLoginConfirm_def Let_def zero_AssetLoginTicketInfo_def
      split: prod.splits option.splits sum.splits if_splits)

text \<open>The confirmation that \<open>checkLoginConfirm\<close> asks for, and what it means for it to be settled.\<close>

definition confirm_check :: "'db engine \<Rightarrow> ('s, 'w) outside \<Rightarrow> ProxyServer \<Rightarrow> 'db Core \<Rightarrow> AssetLoginTicketInfo result \<times> 'db Core" where
  "confirm_check E X s c = CheckIfNeedAssetLoginConfirm E c (ticket_uuid X) (date_text X) (user_ID (ps_user s)) (Username (ps_user s))
     (asset_ID (ps_asset s)) (asset_Name (ps_asset s)) (sys_Username (ps_systemUser s))"

definition approved_by :: "('s, 'w) outside \<Rightarrow> string \<Rightarrow> bool" where
  "approved_by X who \<longleftrightarrow> (\<exists>(ev, ops) \<in> set (ticket_history X). \<exists>date. Decide date (ticket_uuid X) TicketApproved who \<in> set ops)"

lemma checkLoginConfirm_ok:
  assumes E: "engine_ok E tbl" "\<forall>r \<in> set (tickets_of tbl c). \<exists>t. r = RLoginTicket t \<and> TicketId t \<noteq> ticket_uuid X"
    and "sys_Protocol (ps_systemUser s) = ProtocolSSH" "checkLoginConfirm E X s c = Ret (Some (True, s', c'))"
  shows "\<exists>info c1. confirm_check E X s c = (Inr info, c1) \<and> (ti_NeedConfirm info \<longrightarrow> (\<exists>who. approved_by X who))"
proof -
  let ?srv = "NewLoginConfirm [ConfirmWithUser (ps_user s), ConfirmWithSystemUser (ps_systemUser s),
            ConfirmWithAssetID (asset_ID (ps_asset s)), ConfirmWithAssetName (asset_Name (ps_asset s))]"
  have opt: "opt_user (option_of ?srv) = Some (ps_user s)" "opt_systemUser (option_of ?srv) = Some (ps_systemUser s)"
    "opt_assetID (option_of ?srv) = asset_ID (ps_asset s)" "opt_assetName (option_of ?srv) = asset_Name (ps_asset s)"
    by (simp_all add: NewLoginConfirm_def ConfirmWithUser_def ConfirmWithSystemUser_def ConfirmWithAssetID_def ConfirmWithAssetName_def)
  from assms(3,4) obtain srv' where v: "validateLoginConfirm E X ?srv c = Ret (Some (True, srv', c'))"
    by (auto simp: checkLoginConfirm_def Let_def split: option.splits prod.splits)
  then obtain ok srv1 c1 where chk: "CheckIsNeedLoginConfirm E ?srv c (ticket_uuid X) (date_text X) = Ret ((ok, None), srv1, c1)"
    and wait: "ok \<Longrightarrow> \<exists>srv2 c2. waitConfirmFinish E srv1 (map (\<lambda>(ev, ops). (ev, fold (ticket_exec E) ops c1)) (ticket_history X))
      = Some (StatusApprove, srv2, c2)"
    by (auto simp: validateLoginConfirm_def split: option.splits if_splits prod.splits)
  from CheckIsNeed_cases [OF chk opt(1,2)] obtain info where
    info: "confirm_check E X s c = (Inr info, c1)" "ok = ti_NeedConfirm info" "ticketId srv1 = ti_TicketId info"
    unfolding confirm_check_def opt(3,4) by blast
  have "\<exists>who. approved_by X who" if need: "ti_NeedConfirm info"
  proof -
    have tid: "ticketId srv1 = ticket_uuid X"
      using NeedConfirm_ticket [OF info(1) [unfolded confirm_check_def] need] info(3) by simp
    have "\<forall>r \<in> set (tickets_of tbl c1). \<exists>t. r = RLoginTicket t \<and> (TicketId t = ticketId srv1 \<longrightarrow> State t = TicketOpen)"
      using Check_table [OF E(1) info(1) [unfolded confirm_check_def]] E(2) tid by fastforce
    moreover obtain srv2 c2 where
      "waitConfirmFinish E srv1 (map (\<lambda>(ev, ops). (ev, fold (ticket_exec E) ops c1)) (ticket_history X)) = Some (StatusApprove, srv2, c2)"
      using wait need info(2) by blast
    ultimately have "\<exists>(ev, ops) \<in> set (ticket_history X). \<exists>date. Decide date (ticketId srv1) TicketApproved (approver srv2) \<in> set ops"
      by (rule approval_decided [OF E(1)])
    then show ?thesis unfolding tid approved_by_def by (rule exI)
  qed
  with info(1) show ?thesis by blast
qed

text \<open>Asking for credentials changes neither who connects, nor where to, nor as which system user.\<close>

definition same_login :: "ProxyServer \<Rightarrow> ProxyServer \<Rightarrow> bool" where
  "same_login s t \<longleftrightarrow> ps_ID t = ps_ID s \<and> ps_user t = ps_user s \<and> ps_asset t = ps_asset s \<and> ps_expireInfo t = ps_expireInfo s
     \<and> ps_sessionInfo t = ps_sessionInfo s \<and> sys_ID (ps_systemUser t) = sys_ID (ps_systemUser s)
     \<and> sys_Protocol (ps_systemUser t) = sys_Protocol (ps_systemUser s)
     \<and> (sys_Username (ps_systemUser s) \<noteq> [] \<longrightarrow> sys_Username (ps_systemUser t) = sys_Username (ps_systemUser s))"

lemma same_login_refl: "same_login s s"
  by (simp add: same_login_def)

lemma same_login_trans: "same_login s t \<Longrightarrow> same_login t u \<Longrightarrow> same_login s u"
  by (auto simp: same_login_def)

lemma same_login_username: "getUsernameIfNeed reads s = Some (e, t) \<Longrightarrow> same_login s t"
  by (auto simp: getUsernameIfNeed_def same_login_def split: if_splits option.splits sum.splits)

lemma same_login_password: "getAuthPasswordIfNeed read s = (e, t) \<Longrightarrow> same_login s t"
  by (auto simp: getAuthPasswordIfNeed_def same_login_def split: if_splits sum.splits)

lemma same_login_cached: "same_login s (s\<lparr>ps_cached := x\<rparr>)"
  by (simp add: same_login_def)

lemma checkRequiredAuth_keeps:
  assumes "checkRequiredAuth conf X s m = Some (err, s', m')"
  shows "same_login s s'"
proof (cases "sys_Protocol (ps_systemUser s) = ProtocolSSH")
  case True
  with assms obtain e t where u: "getUsernameIfNeed (typed_usernames X) s = Some (e, t)"
    by (auto simp: checkRequiredAuth_def split: option.splits)
  have "same_login t s'"
  proof (cases e)
    case (Some x)
    with assms True u show ?thesis by (simp add: checkRequiredAuth_def same_login_refl)
  next
    case None
    obtain r m1 where c: "(if checkReuseSSHClient conf t then getCacheSSHConn X t m else (None, m)) = (r, m1)" by fastforce
    show ?thesis
    proof (cases r)
      case (Some x)
      with assms True u None c show ?thesis by (auto simp: checkRequiredAuth_def same_login_cached)
    next
      case none: None
      obtain e2 t2 where pw: "getAuthPasswordIfNeed (typed_password X) t = (e2, t2)" by fastforce
      with assms True u None c none same_login_password [OF pw] show ?thesis
        by (auto simp: checkRequiredAuth_def same_login_refl split: if_splits)
    qed
  qed
  with same_login_username [OF u] show ?thesis by (rule same_login_trans)
next
  case False
  with assms show ?thesis by (simp add: checkRequiredAuth_def same_login_refl)
qed

lemma checkRequiredAuth_ssh:
  "checkRequiredAuth conf X s m = Some (None, s', m') \<Longrightarrow> sys_Protocol (ps_systemUser s) = ProtocolSSH"
  by (auto simp: checkRequiredAuth_def split: if_splits)

lemma run_session_cases:
  assumes "run_session E conf X others s w = Ret (res, s', w')"
  shows "s' = s \<and> ((\<exists>ended b. res = Connected ended b) \<or> (\<exists>err. res = NotConnected err))"
  using assms by (auto simp: run_session_def Let_def split: prod.splits sum.splits)

lemma Proxy_connected:
  assumes "Proxy E conf X others s w = Ret (Connected ended b, s', w')"
  shows "\<exists>s1 m e s2 c. checkRequiredAuth conf X s (w_clients w) = Some (None, s1, m) \<and> ps_expireInfo s1 = Some e
    \<and> \<not> IsExpired e (clock X div 1000000000) \<and> checkLoginConfirm E X s1 (w_core w) = Ret (Some (True, s2, c))"
  using assms
  by (auto simp: Proxy_def Let_def ps_CheckPermissionExpired_def CheckPermissionExpired_def
      split: option.splits prod.splits if_splits bool.splits)

lemma NewServer_fields:
  assumes "NewServer E c uuid from addr [ConnectUser u, ConnectAsset a, ConnectSystemUser su] = Ret (msgs, Inr s)"
  shows "ps_ID s = uuid \<and> ps_user s = u \<and> ps_asset s = a \<and> ps_systemUser s = su \<and> session_ID (ps_sessionInfo s) = uuid
    \<and> IsSupportProtocol a (sys_Protocol su) \<and> sys_Protocol su = ProtocolSSH
    \<and> ps_expireInfo s = (case QueryAssetUserExpire E c (user_ID u) (asset_ID a) of Inl _ \<Rightarrow> None | Inr e \<Rightarrow> Some e)"
  using assms
  by (auto simp: NewServer_def ConnectUser_def ConnectAsset_def ConnectSystemUser_def Let_def IsSupportedProtocol_def
      split: option.splits prod.splits if_splits)


section \<open>No session is left behind\<close>

lemma checkLoginConfirm_session:
  assumes "checkLoginConfirm E X s c = Ret (Some (ok, s', c'))"
  shows "session c' = session c \<and> ps_ID s' = ps_ID s \<and> ps_sessionInfo s' = ps_sessionInfo s"
proof -
  from assms obtain srv srv' where v: "validateLoginConfirm E X srv c = Ret (Some (ok, srv', c'))"
    and s': "s' = s\<lparr>ps_loginTicketId := GetTicketId srv'\<rparr>"
    by (auto simp: checkLoginConfirm_def Let_def split: option.splits prod.splits)
  from v obtain ok1 err srv1 c1 where chk: "CheckIsNeedLoginConfirm E srv c (ticket_uuid X) (date_text X) = Ret ((ok1, err), srv1, c1)"
    and rest: "c' = c1 \<or> (\<exists>st. waitConfirmFinish E srv1 (map (\<lambda>(ev, ops). (ev, fold (ticket_exec E) ops c1)) (ticket_history X))
      = Some (st, srv', c'))"
    by (auto simp: validateLoginConfirm_def split: option.splits if_splits prod.splits)
  have c1: "session c1 = session c"
    using chk CheckIfNeed_session [of E c "ticket_uuid X" "date_text X"]
    by (auto simp: CheckIsNeedLoginConfirm_def Let_def split: option.splits prod.splits sum.splits) (metis snd_conv)+
  have "session c' = session c"
    using rest
  proof
    assume "\<exists>st. waitConfirmFinish E srv1 (map (\<lambda>(ev, ops). (ev, fold (ticket_exec E) ops c1)) (ticket_history X)) = Some (st, srv', c')"
    then obtain st where w: "waitConfirmFinish E srv1 (map (\<lambda>(ev, ops). (ev, fold (ticket_exec E) ops c1)) (ticket_history X)) = Some (st, srv', c')" ..
    show ?thesis by (rule waitConfirmFinish_session [OF w]) (auto simp: tickets_session c1)
  qed (simp add: c1)
  with s' show ?thesis by simp
qed

lemma end_session_gone:
  "sw_ID sw = i \<Longrightarrow> session_ID (ps_sessionInfo s) = i \<Longrightarrow>
    session (w_core (end_session E date s sw w)) i = None \<and> sm_Get i (w_switches (end_session E date s sw w)) = None"
  by (simp add: end_session_def RemoveCommonSwitch_def core_sessions.find_leave switches.find_leave)

lemma run_session_gone:
  assumes "run_session E conf X others s w = Ret (res, s', w')" "session_ID (ps_sessionInfo s) = ps_ID s"
    "\<forall>b. res \<noteq> Connected None b"
  shows "session (w_core w') (ps_ID s) = None \<and> sm_Get (ps_ID s) (w_switches w') = None"
proof -
  have "\<exists>w1. w' = end_session E (date_text X) s (new_switch s) w1"
    using assms(1,3) by (auto simp: run_session_def Let_def split: prod.splits sum.splits if_splits) (metis)
  with assms(2) end_session_gone [of "new_switch s" "ps_ID s" s] show ?thesis by (auto simp: new_switch_def)
qed

text \<open>
  C12: however a proxy session ends, it leaves nothing behind.  Whether the user gave up typing or waiting, the permission had expired, the
  login was not confirmed, the asset could not be reached or the bridge ended, the session is then in
  neither register, whatever other sessions did in the meantime.
\<close>

theorem proxy_leaves_no_session:
  assumes "Proxy E conf X others s w = Ret (res, s', w')" "session_ID (ps_sessionInfo s) = ps_ID s"
    "session (w_core w) (ps_ID s) = None" "sm_Get (ps_ID s) (w_switches w) = None" "\<forall>b. res \<noteq> Connected None b"
  shows "session (w_core w') (ps_ID s) = None \<and> sm_Get (ps_ID s) (w_switches w') = None"
proof (cases "checkRequiredAuth conf X s (w_clients w)")
  case None
  with assms show ?thesis by (simp add: Proxy_def)
next
  case (Some a)
  obtain err s1 m where a: "a = (err, s1, m)" by (cases a)
  note same = checkRequiredAuth_keeps [OF Some [unfolded a], unfolded same_login_def]
  show ?thesis
  proof (cases err)
    case e: (Some x)
    with Some a assms show ?thesis by (auto simp: Proxy_def)
  next
    case none: None
    from assms(1) Some a none obtain expired where
      r: "(if expired then Ret (AlreadyExpired, s1, w\<lparr>w_clients := m\<rparr>)
           else outcome_bind (checkLoginConfirm E X s1 (w_core (w\<lparr>w_clients := m\<rparr>))) (\<lambda>r. case r of
               None \<Rightarrow> Ret (StillWaiting, s1, w\<lparr>w_clients := m\<rparr>)
             | Some (False, s, c) \<Rightarrow> Ret (NotConfirmed, s, w\<lparr>w_clients := m, w_core := c\<rparr>)
             | Some (True, s, c) \<Rightarrow> run_session E conf X others s (w\<lparr>w_clients := m, w_core := c\<rparr>))) = Ret (res, s', w')"
      unfolding Proxy_def Let_def by auto
    show ?thesis
    proof (cases expired)
      case True
      with r assms(3,4) show ?thesis by auto
    next
      case False
      with r obtain q where q: "checkLoginConfirm E X s1 (w_core w) = Ret q" by auto
      show ?thesis
      proof (cases q)
        case None
        with r q False assms(3,4) show ?thesis by auto
      next
        case (Some t)
        obtain ok s2 c where t: "t = (ok, s2, c)" by (cases t)
        note kept = checkLoginConfirm_session [OF q [unfolded Some t]]
        show ?thesis
        proof (cases ok)
          case True
          with r q False Some t have run: "run_session E conf X others s2 (w\<lparr>w_clients := m, w_core := c\<rparr>) = Ret (res, s', w')" by simp
          from kept same assms(2) have "session_ID (ps_sessionInfo s2) = ps_ID s2" "ps_ID s2 = ps_ID s" by simp_all
          with run_session_gone [OF run _ assms(5)] show ?thesis by simp
        next
          case not_ok: False
          with r q False Some t kept assms(3,4) show ?thesis by auto
        qed
      qed
    qed
  qed
qed

section \<open>An example session\<close>

definition example_outside :: "(unit, string) outside" where
  "example_outside = \<lparr>typed_usernames = [], typed_password = Inl ''EOF'', clock = 100, date_text = ''d1'',
     user_pty = \<lparr>Term = ''xterm'', Pty_Window = \<lparr>Width = 80, Height = 24\<rparr>\<rparr>, map_order = [], acquired = Inr 1,
     conn_calls = Some \<lparr>RequestPty = (\<lambda>_ _ _. None), StdinPipe = None, StdoutPipe = None, Shell = None\<rparr>,
     parse_pass = (\<lambda>_ _. None), parse_plain = (\<lambda>_. None), dial = (\<lambda>_ _. None), fresh_client = 7, kb_lines = (\<lambda>_. []),
     ticket_uuid = ''t1'', ticket_history = [(Ticked, [Decide ''d2'' ''t1'' TicketApproved ''amy''])],
     replay_dir = (\<lambda>_. None), replay_create = (\<lambda>_. Inr []), today_text = ''20240101'', hms_text = ''120000'',
     replay_writer = example_recording, bridge_events = example_bridge_events\<rparr>"

definition example_world :: "(string \<Rightarrow> row list, unit) world" where
  "example_world = \<lparr>w_core = example_core, w_switches = newSessionManager, w_clients = empty_manager\<rparr>"

definition example_server :: ProxyServer where
  "example_server = (case NewServer mem_engine example_core ''0123456789'' ''ST'' ''10.0.0.9''
     [ConnectUser example_user, ConnectAsset example_db1, ConnectSystemUser example_root] of Ret (_, Inr s) \<Rightarrow> s | _ \<Rightarrow> undefined)"

lemma example_server_new:
  "NewServer mem_engine example_core ''0123456789'' ''ST'' ''10.0.0.9''
     [ConnectUser example_user, ConnectAsset example_db1, ConnectSystemUser example_root] = Ret ([], Inr example_server)"
proof -
  have "case NewServer mem_engine example_core ''0123456789'' ''ST'' ''10.0.0.9''
     [ConnectUser example_user, ConnectAsset example_db1, ConnectSystemUser example_root] of Ret ([], Inr s) \<Rightarrow> True | _ \<Rightarrow> False"
    by code_simp
  then show ?thesis by (auto simp: example_server_def split: outcome.splits prod.splits sum.splits list.splits)
qed

lemma example_proxy_run:
  "\<exists>b s' w'. Proxy mem_engine newDefaultConfig example_outside (\<lambda>w. w) example_server example_world = Ret (Connected (Some Exited) b, s', w')"
proof -
  have "case Proxy mem_engine newDefaultConfig example_outside (\<lambda>w. w) example_server example_world of
      Ret (Connected (Some Exited) b, _) \<Rightarrow> True | _ \<Rightarrow> False"
    by code_simp
  then show ?thesis
    by (auto split: outcome.splits prod.splits proxy_end.splits option.splits bridge_end.splits)
qed


theorem proxy_leaves_no_session_witness:
  "\<exists>b s' w'. Proxy mem_engine newDefaultConfig example_outside (\<lambda>w. w) example_server example_world = Ret (Connected (Some Exited) b, s', w')
     \<and> session (w_core w') (ps_ID example_server) = None"
proof -
  obtain b s' w' where run: "Proxy mem_engine newDefaultConfig example_outside (\<lambda>w. w) example_server example_world
      = Ret (Connected (Some Exited) b, s', w')" using example_proxy_run by blast
  have "session (w_core w') (ps_ID example_server) = None \<and> sm_Get (ps_ID example_server) (w_switches w') = None"
  proof (rule proxy_leaves_no_session [OF run])
    show "session_ID (ps_sessionInfo example_server) = ps_ID example_server"
      using NewServer_fields [OF example_server_new] by simp
  qed (simp_all add: example_world_def example_core_def empty_core_def newSessionManager_def sm_Get_def)
  with run show ?thesis by blast
qed

section \<open>Where the proxy panics\<close>

text \<open>
  When the asset cannot be reached, the proxy logs the first two characters of the system user's password, and
  panics exactly when the password has a single character.
\<close>

theorem sendConnectErrorMsg_panics_iff:
  "(\<exists>p. sendConnectErrorMsg s err = Panic p) \<longleftrightarrow> length (sys_Password (ps_systemUser s)) = 1"
  by (cases "sys_Password (ps_systemUser s)") (auto simp: sendConnectErrorMsg_def Let_def Suc_le_eq)

text \<open>A failed expiry query at the start is only logged; the nil pointer it leaves is dereferenced later.\<close>

lemma unknown_expiry_panics:
  assumes "NewServer E c uuid from addr [ConnectUser u, ConnectAsset a, ConnectSystemUser su] = Ret (msgs, Inr s)"
    "QueryAssetUserExpire E c (user_ID u) (asset_ID a) = Inl err" "checkRequiredAuth conf X s (w_clients w) = Some (None, s1, m)"
  shows "Proxy E conf X others s w = Panic NilDereference"
proof -
  have "ps_expireInfo s1 = None"
    using NewServer_fields [OF assms(1)] checkRequiredAuth_keeps [OF assms(3)] assms(2) by (simp add: same_login_def)
  with assms(3) show ?thesis by (simp add: Proxy_def ps_CheckPermissionExpired_def CheckPermissionExpired_def)
qed

end
