(* ===== verification/Interactive.thy ===== *)
theory Interactive
  imports Selection NodeTree Table Proxy
begin

text \<open>
  The interactive session of a user (\<^verbatim>\<open>pkg/handler/interactive.go\<close>, \<^verbatim>\<open>dispatch.go\<close>, the proxying part of \<^verbatim>\<open>asset.go\<close>): the
  prompt loop that searches, pages, lists and connects.  What the user types is a list of inputs; each carries the result of
  one \<^verbatim>\<open>ReadLine\<close>, the state of the core and the size of the terminal at that moment (other sessions change the core in
  between), and the id a proxy session started then would get.  What the handler does is the list of its events; a proxy
  session that it starts runs in the theory of the proxy.
\<close>

section \<open>Settings\<close>

definition minHeight :: int where "minHeight = 8"

definition getPageSize :: "int \<Rightarrow> TerminalConfig \<Rightarrow> int" where
  "getPageSize height termConf =
     (let s = AssetListPageSize termConf
      in if s = ''all'' then int PAGESIZEALL
         else
           (let ps = (if s = ''auto'' then height - minHeight
                      else case Atoi s of Some v \<Rightarrow> v | None \<Rightarrow> height - minHeight)
            in if ps \<le> 0 then 1 else ps))"

text \<open>
  \<^verbatim>\<open>checkMaxIdleTime\<close>: the goroutine that ends a session whose prompt waits too long.  \<^verbatim>\<open>NewTicker\<close> panics on a period that is
  not positive.  The result is whether the session was closed.
\<close>

datatype idle_event = IdleTick | ContextDone | CheckChan bool

fun idle_loop :: "bool \<Rightarrow> idle_event list \<Rightarrow> bool" where
  "idle_loop checkStatus [] = False"
| "idle_loop checkStatus (IdleTick # es) = (checkStatus \<or> idle_loop checkStatus es)"
| "idle_loop checkStatus (ContextDone # es) = False"
| "idle_loop checkStatus (CheckChan b # es) = idle_loop b es"

definition checkMaxIdleTime :: "int \<Rightarrow> idle_event list \<Rightarrow> bool outcome" where
  "checkMaxIdleTime maxIdleMinutes es =
     (if maxIdleMinutes \<le> 0 then Panic (ExplicitPanic ''non-positive interval for NewTicker'') else Ret (idle_loop True es))"

section \<open>The handler\<close>

record 'db prompt_input =
  in_line :: "string result"
  in_core :: "'db Core"
  in_width :: int
  in_height :: int
  in_uuid :: string

record sorts =
  by_string :: "string sorter"
  by_item :: "asset_map sorter"
  by_node :: "Node sorter"
  by_tree :: "nat sorter"

record InteractiveHandler =
  h_user :: User
  h_select :: UserSelectHandler
  h_nodes :: "Node list"
  h_conf :: TerminalConfig
  h_addr :: string

datatype menu_event =
  HelpShown | Shown displayed | TreeShown "branch list" | Refreshed | Selected select_action | NoSystemUser
| ProxyFailed goerror | ProxyRun ProxyServer

definition new_select :: UserSelectHandler where
  "new_select = \<lparr>currentType = TypeUnset, searchKeys = [], hasPre = False, hasNext = False, allLocalData = [],
     selectedNode = \<lparr>node_ID = [], Key = [], node_Name = [], AssetIDs = []\<rparr>, currentResult = [],
     page = \<lparr>pageSize = 0, currentTotal = 0, currentOffset = 0, totalPage = 0, currentPage = 0, totalCount = 0\<rparr>,
     sel_prompt = ''Opt> '', suggests = []\<rparr>"

text \<open>\<^verbatim>\<open>NewInteractiveHandler\<close> and \<^verbatim>\<open>Initial\<close>; a failed query leaves the lists empty.\<close>

definition NewInteractiveHandler :: "'db engine \<Rightarrow> 'db Core \<Rightarrow> User \<Rightarrow> TerminalConfig \<Rightarrow> string \<Rightarrow> InteractiveHandler" where
  "NewInteractiveHandler E c user termConf addr =
     (let (allAssets, nodes) = (case GetAllUserPermsAssets E c (NodeIDs user) of Inr r \<Rightarrow> r | Inl _ \<Rightarrow> ([], []))
      in \<lparr>h_user = user, h_select = SetAllLocalData allAssets new_select, h_nodes = nodes, h_conf = termConf, h_addr = addr\<rparr>)"

definition refreshAssetsAndNodesData :: "'db engine \<Rightarrow> 'db Core \<Rightarrow> InteractiveHandler \<Rightarrow> InteractiveHandler" where
  "refreshAssetsAndNodesData E c h =
     (let h1 = (case GetAllUserPermsAssets E c (NodeIDs (h_user h)) of
            Inl _ \<Rightarrow> h
          | Inr (allAssets, nodes) \<Rightarrow> h\<lparr>h_select := SetAllLocalData allAssets (h_select h), h_nodes := nodes\<rparr>)
      in case GetTerminalConfig E c of
           (_, Some _) \<Rightarrow> h1
         | (tConfig, None) \<Rightarrow> h1\<lparr>h_conf := tConfig\<rparr>)"

definition env_of :: "sorts \<Rightarrow> InteractiveHandler \<Rightarrow> 'db prompt_input \<Rightarrow> menu_env" where
  "env_of S h i = \<lparr>sort_Strings = by_string S, sort_Items = by_item S, by_ip = AssetListSortByIp (h_conf h),
     newPageSize = getPageSize (in_height i) (h_conf h)\<rparr>"

section \<open>Connecting\<close>

text \<open>
  \<^verbatim>\<open>chooseSystemUser\<close>: the chosen system user (if any), the input it was chosen at and the inputs left; \<open>None\<close> while the
  user has not answered.
\<close>

fun choose_loop :: "SystemUser list \<Rightarrow> 'db prompt_input list \<Rightarrow> (SystemUser option \<times> 'db prompt_input \<times> 'db prompt_input list) option" where
  "choose_loop systemUsers [] = None"
| "choose_loop systemUsers (i # rest) =
     (case in_line i of
        Inl err \<Rightarrow> Some (None, i, rest)
      | Inr typed \<Rightarrow>
          (let s = TrimSpace typed
           in if ToLower s \<in> {''q'', ''b'', ''quit'', ''exit'', ''back''} then Some (None, i, rest)
              else case Atoi s of
                  Some num \<Rightarrow>
                    if num > 0 \<and> num \<le> int (length systemUsers) then Some (Some (systemUsers ! (nat num - 1)), i, rest)
                    else choose_loop systemUsers rest
                | None \<Rightarrow> choose_loop systemUsers rest))"

definition chooseSystemUser ::
  "SystemUser list \<Rightarrow> 'db prompt_input \<Rightarrow> 'db prompt_input list
   \<Rightarrow> (SystemUser option \<times> 'db prompt_input \<times> 'db prompt_input list) option" where
  "chooseSystemUser systemUsers i rest =
     (if length systemUsers = 0 then Some (None, i, rest)
      else if length systemUsers = 1 then Some (Some (systemUsers ! 0), i, rest)
      else choose_loop systemUsers rest)"

text \<open>\<^verbatim>\<open>proxyAsset\<close>; a session of the menu logs in from \<^verbatim>\<open>ST\<close>.  The prompt changes when there is a choice to make.\<close>

definition proxyAsset ::
  "'db engine \<Rightarrow> InteractiveHandler \<Rightarrow> Asset \<Rightarrow> 'db prompt_input \<Rightarrow> 'db prompt_input list
   \<Rightarrow> (menu_event list \<times> InteractiveHandler \<times> 'db prompt_input list) option outcome" where
  "proxyAsset E h asset i rest =
     (case GetSystemUsersByUserIdAndAssetId E (in_core i) (user_ID (h_user h)) (asset_ID asset) of
        Inl err \<Rightarrow> Ret (Some ([], h, rest))
      | Inr systemUsers \<Rightarrow>
          (let h' = (if length systemUsers > 1 then h\<lparr>h_select := (h_select h)\<lparr>sel_prompt := ''ID> ''\<rparr>\<rparr> else h)
           in case chooseSystemUser systemUsers i rest of
                None \<Rightarrow> Ret None
              | Some (None, j, rest) \<Rightarrow> Ret (Some (if length systemUsers = 0 then [NoSystemUser] else [], h', rest))
              | Some (Some su, j, rest) \<Rightarrow>
                  outcome_bind (NewServer E (in_core j) (in_uuid j) ''ST'' (h_addr h)
                      [ConnectUser (h_user h), ConnectAsset asset, ConnectSystemUser su]) (\<lambda>(_, r).
                    case r of
                      Inl err \<Rightarrow> Ret (Some ([ProxyFailed err], h', rest))
                    | Inr srv \<Rightarrow> Ret (Some ([ProxyRun srv], h', rest)))))"

definition searchOrProxy ::
  "'db engine \<Rightarrow> sorts \<Rightarrow> InteractiveHandler \<Rightarrow> string \<Rightarrow> 'db prompt_input \<Rightarrow> 'db prompt_input list
   \<Rightarrow> (menu_event list \<times> InteractiveHandler \<times> 'db prompt_input list) option outcome" where
  "searchOrProxy E S h key i rest =
     outcome_bind (SearchOrProxy (env_of S h i) key (h_select h)) (\<lambda>(r, u).
       let h = h\<lparr>h_select := u\<rparr>
       in case r of
            Inr d \<Rightarrow> Ret (Some ([Shown d], h, rest))
          | Inl target \<Rightarrow>
              outcome_bind (select_Proxy E (in_core i) (currentType u) target) (\<lambda>a.
                case a of
                  None \<Rightarrow> Ret (Some ([], h, rest))
                | Some (LoginTo asset) \<Rightarrow> proxyAsset E h asset i rest
                | Some refused \<Rightarrow> Ret (Some ([Selected refused], h, rest))))"

section \<open>The prompt loop\<close>

datatype 'db step = Stopped | Waiting | Next "menu_event list" InteractiveHandler bool "'db prompt_input list"

definition shown :: "InteractiveHandler \<Rightarrow> bool \<Rightarrow> 'db prompt_input list \<Rightarrow> (displayed \<times> UserSelectHandler) outcome \<Rightarrow> 'db step outcome" where
  "shown h b rest r = outcome_bind r (\<lambda>(d, u). Ret (Next [Shown d] (h\<lparr>h_select := u\<rparr>) b rest))"

definition displayHelp :: "InteractiveHandler \<Rightarrow> InteractiveHandler" where
  "displayHelp h = h\<lparr>h_select := (h_select h)\<lparr>sel_prompt := ''Opt> ''\<rparr>\<rparr>"

definition displayNodeTree :: "sorts \<Rightarrow> InteractiveHandler \<Rightarrow> menu_event \<times> InteractiveHandler" where
  "displayNodeTree S h =
     (let (tree, nodes) = ConstructNodeTree (by_node S) (by_tree S) (h_nodes h) in (TreeShown tree, h\<lparr>h_nodes := nodes\<rparr>))"

definition list_assets :: "sorts \<Rightarrow> InteractiveHandler \<Rightarrow> 'db prompt_input \<Rightarrow> 'db prompt_input list \<Rightarrow> 'db step outcome" where
  "list_assets S h i rest =
     outcome_bind (SetSelectType (by_string S) TypeAsset (h_select h)) (\<lambda>u. shown h True rest (Selection.Search (env_of S h i) [] u))"

definition fall_through ::
  "'db engine \<Rightarrow> sorts \<Rightarrow> InteractiveHandler \<Rightarrow> string \<Rightarrow> 'db prompt_input \<Rightarrow> 'db prompt_input list \<Rightarrow> 'db step outcome" where
  "fall_through E S h s i rest =
     outcome_bind (searchOrProxy E S h s i rest) (\<lambda>r.
       case r of None \<Rightarrow> Ret Waiting | Some (evs, h, rest) \<Rightarrow> Ret (Next evs h True rest))"

definition dispatch_line ::
  "'db engine \<Rightarrow> sorts \<Rightarrow> InteractiveHandler \<Rightarrow> bool \<Rightarrow> string \<Rightarrow> 'db prompt_input \<Rightarrow> 'db prompt_input list \<Rightarrow> 'db step outcome" where
  "dispatch_line E S h initialed typed i rest =
     (let s = TrimSpace typed; V = env_of S h i; u = h_select h
      in if length s = 0 then (if initialed then shown h True rest (MoveNextPage V u) else list_assets S h i rest)
         else if length s = 1 then
           (let k = ToLower s
            in if k = ''p'' then list_assets S h i rest
               else if k = ''b'' then shown h True rest (MovePrePage V u)
               else if k = ''n'' then shown h True rest (MoveNextPage V u)
               else if k = ''g'' then (let (e, h) = displayNodeTree S h in Ret (Next [e] h True rest))
               else if k = ''h'' then Ret (Next [HelpShown] (displayHelp h) False rest)
               else if k = ''r'' then Ret (Next [Refreshed] (refreshAssetsAndNodesData E (in_core i) h) True rest)
               else if k = ''q'' then Ret Stopped
               else fall_through E S h s i rest)
         else if s = ''exit'' \<or> s = ''quit'' then Ret Stopped
         else if prefix ''/'' s then
           (if prefix ''/'' (drop 1 s) then shown h True rest (SearchAgain V (TrimSpace (drop 2 s)) u)
            else shown h True rest (Selection.Search V (TrimSpace (drop 1 s)) u))
         else if prefix ''g'' s then
           (case Atoi (TrimSpace (drop 1 s)) of
              Some num \<Rightarrow>
                if num > 0 \<and> num \<le> int (length (h_nodes h)) then
                  outcome_bind (SetNode (by_string S) (h_nodes h ! (nat num - 1)) u) (\<lambda>u. shown h True rest (Selection.Search V [] u))
                else fall_through E S h s i rest
            | None \<Rightarrow> fall_through E S h s i rest)
         else fall_through E S h s i rest)"

lemma choose_loop_rest:
  "choose_loop sus ins = Some (r, j, rest) \<Longrightarrow> \<exists>used. ins = used @ j # rest \<and> (\<forall>su. r = Some su \<longrightarrow> su \<in> set sus)"
proof (induction sus ins rule: choose_loop.induct)
  case (2 sus i ins)
  have more: "\<exists>used. i # ins = used @ j # rest \<and> (\<forall>su. r = Some su \<longrightarrow> su \<in> set sus)" if "choose_loop sus ins = Some (r, j, rest)"
    "\<exists>used. ins = used @ j # rest \<and> (\<forall>su. r = Some su \<longrightarrow> su \<in> set sus)" using that by (metis append_Cons)
  show ?case
  proof (cases "in_line i")
    case (Inl err)
    with 2 show ?thesis by auto
  next
    case (Inr typed)
    show ?thesis
    proof (cases "ToLower (TrimSpace typed) \<in> {''q'', ''b'', ''quit'', ''exit'', ''back''}")
      case True
      with 2 Inr show ?thesis by (auto simp: Let_def)
    next
      case False
      with 2 Inr more show ?thesis
        by (cases "Atoi (TrimSpace typed)") (auto simp: Let_def split: if_splits)
    qed
  qed
qed simp

text \<open>Every step leaves no more inputs than it found, so the loop ends with its inputs.\<close>

definition no_longer :: "'i list \<Rightarrow> ('e \<times> 'h \<times> 'i list) option \<Rightarrow> bool" where
  "no_longer rest r \<longleftrightarrow> (\<forall>evs h rest'. r = Some (evs, h, rest') \<longrightarrow> length rest' \<le> length rest)"

definition short_step :: "'db prompt_input list \<Rightarrow> 'db step \<Rightarrow> bool" where
  "short_step rest x \<longleftrightarrow> (\<forall>evs h b rest'. x = Next evs h b rest' \<longrightarrow> length rest' \<le> length rest)"

lemma short_simps [simp]:
  "no_longer rest None" "no_longer rest (Some (evs, h, rest')) \<longleftrightarrow> length rest' \<le> length rest"
  "short_step rest Stopped" "short_step rest Waiting" "short_step rest (Next evs h b rest') \<longleftrightarrow> length rest' \<le> length rest"
  by (simp_all add: no_longer_def short_step_def)

lemma chooseSystemUser_rest:
  "chooseSystemUser sus i ins = Some (r, j, rest) \<Longrightarrow> suffix rest ins \<and> (\<forall>su. r = Some su \<longrightarrow> su \<in> set sus)"
  using choose_loop_rest [of sus ins r j rest]
  by (auto simp: chooseSystemUser_def suffix_def length_Suc_conv split: if_splits)

lemma proxyAsset_short: "all_ret (no_longer rest) (proxyAsset E h asset i rest)"
  unfolding proxyAsset_def Let_def
  by (intro all_ret_intros) (auto dest!: chooseSystemUser_rest suffix_length_le)

lemma searchOrProxy_short: "all_ret (no_longer rest) (searchOrProxy E S h key i rest)"
  unfolding searchOrProxy_def Let_def
  by (intro all_ret_intros) (auto intro: proxyAsset_short all_ret_Ret split: select_action.split)

lemma fall_through_short: "all_ret (short_step rest) (fall_through E S h s i rest)"
  unfolding fall_through_def
  by (intro all_ret_intros) (auto dest: all_retD [OF searchOrProxy_short])

lemma shown_short: "all_ret (short_step rest) (shown h b rest r)"
  unfolding shown_def by (intro all_ret_intros) simp

lemma dispatch_line_short: "all_ret (short_step rest) (dispatch_line E S h initialed typed i rest)"
  unfolding dispatch_line_def Let_def list_assets_def
  by (intro all_ret_intros shown_short fall_through_short) simp_all

datatype dispatch_end = UserQuit | ConnectionClosed | AtPrompt

function dispatch_loop ::
  "'db engine \<Rightarrow> sorts \<Rightarrow> InteractiveHandler \<Rightarrow> bool \<Rightarrow> 'db prompt_input list
   \<Rightarrow> (menu_event list \<times> dispatch_end \<times> InteractiveHandler) outcome" where
  "dispatch_loop E S h initialed ins =
     (case ins of
        [] \<Rightarrow> Ret ([], AtPrompt, h)
      | i # rest \<Rightarrow>
          (case in_line i of
             Inl err \<Rightarrow> Ret ([], ConnectionClosed, h)
           | Inr typed \<Rightarrow>
               (case dispatch_line E S h initialed typed i rest of
                  Panic p \<Rightarrow> Panic p
                | Ret Stopped \<Rightarrow> Ret ([], UserQuit, h)
                | Ret Waiting \<Rightarrow> Ret ([], AtPrompt, h)
                | Ret (Next evs h' b rest') \<Rightarrow>
                    outcome_bind (dispatch_loop E S h' b rest') (\<lambda>(evs', e, h''). Ret (evs @ evs', e, h'')))))"
  by pat_completeness auto
termination
proof (relation "measure (\<lambda>(E, S, h, b, ins). length ins)")
  fix E :: "'db engine" and S h b ins i rest typed x evs h' b' rest'
  assume "ins = i # rest" "dispatch_line E S h b typed i rest = Ret x" "x = Next evs h' b' rest'"
  then show "((E, S, h', b', rest'), E, S, h, b, ins) \<in> measure (\<lambda>(E, S, h, b, ins). length ins)"
    using all_retD [OF dispatch_line_short, of E S h b typed i rest] by fastforce
qed simp

declare dispatch_loop.simps [simp del]

text \<open>\<^verbatim>\<open>Dispatch\<close>; \<open>first\<close> is the moment it starts.  A user with a single asset goes straight to it.\<close>

definition Dispatch ::
  "'db engine \<Rightarrow> sorts \<Rightarrow> InteractiveHandler \<Rightarrow> 'db prompt_input \<Rightarrow> 'db prompt_input list
   \<Rightarrow> (menu_event list \<times> dispatch_end \<times> InteractiveHandler) outcome" where
  "Dispatch E S h first ins =
     (if HasJustOneAsset (h_select h) then
        outcome_bind (searchOrProxy E S h [] first ins) (\<lambda>r.
          case r of None \<Rightarrow> Ret ([], AtPrompt, h) | Some (evs, h, rest) \<Rightarrow> Ret (evs, UserQuit, h))
      else
        outcome_bind (dispatch_loop E S (displayHelp h) False ins) (\<lambda>(evs, e, h). Ret (HelpShown # evs, e, h)))"

section \<open>What a session may connect to\<close>

text \<open>A proxy session that this moment of the core grants to the user: an active asset, as one of the system users of the permission.\<close>

definition granted :: "'db engine \<Rightarrow> 'db prompt_input \<Rightarrow> User \<Rightarrow> ProxyServer \<Rightarrow> bool" where
  "granted E i user s \<longleftrightarrow> ps_user s = user \<and> asset_ID (ps_asset s) \<noteq> [] \<and> asset_IsActive (ps_asset s)
     \<and> (\<exists>k. GetAssetById E (in_core i) k = (ps_asset s, None))
     \<and> (\<exists>sus. GetSystemUsersByUserIdAndAssetId E (in_core i) (user_ID user) (asset_ID (ps_asset s)) = Inr sus \<and> ps_systemUser s \<in> set sus)"

text \<open>What a step may do: use up inputs, keep the menu well-formed and the user, and start only granted sessions.\<close>

definition good_step :: "'db engine \<Rightarrow> InteractiveHandler \<Rightarrow> 'db prompt_input \<Rightarrow> 'db prompt_input list
    \<Rightarrow> menu_event list \<Rightarrow> InteractiveHandler \<Rightarrow> 'db prompt_input list \<Rightarrow> bool" where
  "good_step E h i rest evs h' rest' \<longleftrightarrow> suffix rest' rest \<and> h_user h' = h_user h \<and> menu_ok (h_select h')
     \<and> (\<forall>s. ProxyRun s \<in> set evs \<longrightarrow> granted E i (h_user h) s)"

lemma NewServer_returns: "\<exists>r. NewServer E c uuid from addr [ConnectUser u, ConnectAsset a, ConnectSystemUser su] = Ret r"
  by (auto simp: NewServer_def ConnectUser_def ConnectAsset_def ConnectSystemUser_def Let_def split: option.split prod.split)

lemma proxyAsset_ok:
  assumes "menu_ok (h_select h)" "GetAssetById E (in_core i) k = (asset, None)" "asset_ID asset \<noteq> []" "asset_IsActive asset"
  shows "\<exists>r. proxyAsset E h asset i rest = Ret r \<and> (\<forall>evs h' rest'. r = Some (evs, h', rest') \<longrightarrow> good_step E h i rest evs h' rest')"
proof (cases "GetSystemUsersByUserIdAndAssetId E (in_core i) (user_ID (h_user h)) (asset_ID asset)")
  case (Inl err)
  with assms(1) show ?thesis by (simp add: proxyAsset_def good_step_def)
next
  case (Inr sus)
  let ?h = "if length sus > 1 then h\<lparr>h_select := (h_select h)\<lparr>sel_prompt := ''ID> ''\<rparr>\<rparr> else h"
  have h: "menu_ok (h_select ?h)" "h_user ?h = h_user h" using assms(1) by (auto simp: menu_ok_def)
  consider "chooseSystemUser sus i rest = None" | j rest1 where "chooseSystemUser sus i rest = Some (None, j, rest1)"
    | su j rest1 where "chooseSystemUser sus i rest = Some (Some su, j, rest1)"
    by (metis not_None_eq surj_pair)
  then show ?thesis
  proof cases
    case 1
    with Inr show ?thesis by (simp add: proxyAsset_def)
  next
    case 2
    with Inr h chooseSystemUser_rest [OF 2] show ?thesis by (simp add: proxyAsset_def good_step_def Let_def)
  next
    case 3
    note ch = chooseSystemUser_rest [OF 3]
    obtain msgs r where new: "NewServer E (in_core j) (in_uuid j) ''ST'' (h_addr h)
        [ConnectUser (h_user h), ConnectAsset asset, ConnectSystemUser su] = Ret (msgs, r)"
      using NewServer_returns by (metis surj_pair)
    show ?thesis
    proof (cases r)
      case (Inr srv)
      note f = NewServer_fields [OF new [unfolded Inr]]
      then have "granted E i (h_user h) srv"
        using assms \<open>GetSystemUsersByUserIdAndAssetId E _ _ _ = Inr sus\<close> ch by (auto simp: granted_def)
      with Inr 3 h ch new \<open>GetSystemUsersByUserIdAndAssetId E _ _ _ = Inr sus\<close> show ?thesis
        by (simp add: proxyAsset_def good_step_def Let_def)
    qed (use 3 h ch new \<open>GetSystemUsersByUserIdAndAssetId E _ _ _ = Inr sus\<close> in \<open>simp add: proxyAsset_def good_step_def Let_def\<close>)
  qed
qed

lemma select_Proxy_returns: "target \<in> range asset_entry \<Longrightarrow> \<exists>r. select_Proxy E c tp target = Ret r"
  by (auto simp: select_Proxy_def Let_def simp del: outcome_bind_eq_Ret split: prod.split)

lemma searchOrProxy_ok:
  assumes "sort_contract (by_item S)" "menu_ok (h_select h)"
  shows "\<exists>r. searchOrProxy E S h key i rest = Ret r \<and> (\<forall>evs h' rest'. r = Some (evs, h', rest') \<longrightarrow> good_step E h i rest evs h' rest')"
proof -
  have "sort_contract (sort_Items (env_of S h i))" using assms(1) by (simp add: env_of_def)
  from SearchOrProxy_ok [OF this assms(2), of key] obtain r u where
    r: "SearchOrProxy (env_of S h i) key (h_select h) = Ret (r, u)" "menu_ok u"
      "\<And>target. r = Inl target \<Longrightarrow> target \<in> range asset_entry" using assms(2) unfolding menu_ok_def by blast
  show ?thesis
  proof (cases r)
    case (Inr d)
    with r show ?thesis by (simp add: searchOrProxy_def good_step_def)
  next
    case (Inl target)
    with r(3) select_Proxy_returns obtain a where a: "select_Proxy E (in_core i) (currentType u) target = Ret a" by metis
    consider asset where "a = Some (LoginTo asset)" | "a = None" | "a = Some AssetNotFound" | "a = Some AssetInactive"
      by (metis not_None_eq select_action.exhaust)
    then show ?thesis
    proof cases
      case 1
      from select_Proxy_login [OF a [unfolded 1]] obtain k where
        "GetAssetById E (in_core i) k = (asset, None)" "asset_ID asset \<noteq> []" "asset_IsActive asset" by blast
      with proxyAsset_ok [of "h\<lparr>h_select := u\<rparr>" E i k asset rest] Inl r a 1 show ?thesis
        by (simp add: searchOrProxy_def good_step_def Let_def)
    qed (use Inl r a in \<open>simp_all add: searchOrProxy_def good_step_def Let_def\<close>)
  qed
qed

definition ok_step :: "'db engine \<Rightarrow> InteractiveHandler \<Rightarrow> 'db prompt_input \<Rightarrow> 'db prompt_input list \<Rightarrow> 'db step outcome \<Rightarrow> bool" where
  "ok_step E h i rest r \<longleftrightarrow> (\<exists>x. r = Ret x \<and> (\<forall>evs h' b' rest'. x = Next evs h' b' rest' \<longrightarrow> good_step E h i rest evs h' rest'))"

lemma ok_step_if: "ok_step E h i rest a \<Longrightarrow> ok_step E h i rest b \<Longrightarrow> ok_step E h i rest (if c then a else b)"
  by simp

lemma ok_step_option:
  "ok_step E h i rest a \<Longrightarrow> (\<And>x. ok_step E h i rest (f x)) \<Longrightarrow> ok_step E h i rest (case y of None \<Rightarrow> a | Some x \<Rightarrow> f x)"
  by (simp split: option.split)

lemma ok_step_Stopped: "ok_step E h i rest (Ret Stopped)"
  by (simp add: ok_step_def)

lemma step_shown:
  assumes "\<exists>d u. r = Ret (d, u) \<and> menu_ok u"
  shows "ok_step E h i rest (shown h b rest r)"
  using assms by (auto simp: ok_step_def shown_def good_step_def simp del: outcome_bind_eq_Ret)

lemma step_fall_through:
  assumes "sort_contract (by_item S)" "menu_ok (h_select h)"
  shows "ok_step E h i rest (fall_through E S h s i rest)"
proof -
  from searchOrProxy_ok [OF assms, of E s i rest] obtain r where
    "searchOrProxy E S h s i rest = Ret r" "\<forall>evs h' rest'. r = Some (evs, h', rest') \<longrightarrow> good_step E h i rest evs h' rest'" by blast
  then show ?thesis by (cases r) (auto simp: ok_step_def fall_through_def simp del: outcome_bind_eq_Ret)
qed

lemma step_list_assets:
  assumes "sort_contract (by_item S)" "menu_ok (h_select h)"
  shows "ok_step E h i rest (list_assets S h i rest)"
proof -
  from SetSelectType_ok [OF assms(2)] obtain u where
    u: "SetSelectType (by_string S) TypeAsset (h_select h) = Ret u" "same_choice (h_select h) u" by blast
  then have "menu_ok u" using menu_ok_choice assms(2) by blast
  then have "\<exists>d u'. Selection.Search (env_of S h i) [] u = Ret (d, u') \<and> menu_ok u'"
    using assms(1) by (intro menu_ops_ok) (simp_all add: env_of_def)
  from step_shown [OF this] u show ?thesis by (simp add: list_assets_def del: outcome_bind_eq_Ret)
qed

lemma GetAllUserPermsAssets_entries:
  "GetAllUserPermsAssets E c ids = Inr (res, nodes) \<Longrightarrow> set res \<subseteq> range asset_entry"
  by (auto simp: GetAllUserPermsAssets_def split: sum.splits)

lemma refresh_ok:
  assumes "menu_ok (h_select h)"
  shows "menu_ok (h_select (refreshAssetsAndNodesData E c h)) \<and> h_user (refreshAssetsAndNodesData E c h) = h_user h"
proof (cases "GetAllUserPermsAssets E c (NodeIDs (h_user h))")
  case (Inl err)
  with assms show ?thesis by (auto simp: refreshAssetsAndNodesData_def split: prod.split option.split)
next
  case (Inr r)
  obtain res nodes where r: "r = (res, nodes)" by (cases r)
  have "menu_ok (SetAllLocalData res (h_select h))"
    using assms GetAllUserPermsAssets_entries Inr r by (simp add: menu_ok_def SetAllLocalData_def)
  with Inr r show ?thesis by (auto simp: refreshAssetsAndNodesData_def Let_def split: prod.split option.split)
qed

lemma step_SetNode:
  assumes "sort_contract (by_item S)" "menu_ok (h_select h)"
  shows "ok_step E h i rest (outcome_bind (SetNode (by_string S) node (h_select h)) (\<lambda>u. shown h True rest (Selection.Search (env_of S h i) [] u)))"
proof -
  from SetSelectType_ok [OF assms(2)] obtain u where
    u: "SetSelectType (by_string S) TypeNodeAsset (h_select h) = Ret u" "same_choice (h_select h) u" by blast
  have "menu_ok u" using u(2) menu_ok_choice assms(2) by blast
  then have "menu_ok (u\<lparr>selectedNode := node\<rparr>)" by (simp add: menu_ok_def)
  then have "\<exists>d u'. Selection.Search (env_of S h i) [] (u\<lparr>selectedNode := node\<rparr>) = Ret (d, u') \<and> menu_ok u'"
    using assms(1) by (intro menu_ops_ok) (simp_all add: env_of_def)
  from step_shown [OF this] u show ?thesis by (simp add: SetNode_def del: outcome_bind_eq_Ret)
qed

lemma step_tree:
  "menu_ok (h_select h) \<Longrightarrow> ok_step E h i rest (case displayNodeTree S h of (e, h) \<Rightarrow> Ret (Next [e] h True rest))"
  by (auto simp: ok_step_def displayNodeTree_def good_step_def split: prod.split)

lemma step_help: "menu_ok (h_select h) \<Longrightarrow> ok_step E h i rest (Ret (Next [HelpShown] (displayHelp h) False rest))"
  by (simp add: ok_step_def displayHelp_def good_step_def menu_ok_def)

lemma step_refresh:
  "menu_ok (h_select h) \<Longrightarrow> ok_step E h i rest (Ret (Next [Refreshed] (refreshAssetsAndNodesData E c h) True rest))"
  using refresh_ok [of h E c] by (simp add: ok_step_def good_step_def)

lemma dispatch_line_ok:
  assumes "sort_contract (by_item S)" "menu_ok (h_select h)"
  shows "ok_step E h i rest (dispatch_line E S h initialed typed i rest)"
proof -
  have V: "sort_contract (sort_Items (env_of S h i))" using assms(1) by (simp add: env_of_def)
  note leaves = step_shown menu_ops_ok [OF V assms(2)] step_list_assets [OF assms] step_fall_through [OF assms]
    step_SetNode [OF assms] step_tree [OF assms(2)] step_help [OF assms(2)] step_refresh [OF assms(2)]
  show ?thesis
    unfolding dispatch_line_def Let_def
    by (intro ok_step_if ok_step_option ok_step_Stopped leaves)
qed

lemma dispatch_loop_ok:
  assumes "sort_contract (by_item S)" "menu_ok (h_select h)"
  shows "\<exists>evs e h'. dispatch_loop E S h b ins = Ret (evs, e, h')
    \<and> (\<forall>s. ProxyRun s \<in> set evs \<longrightarrow> (\<exists>i \<in> set ins. granted E i (h_user h) s))"
  using assms
proof (induction E S h b ins rule: dispatch_loop.induct)
  case (1 E S h b ins)
  show ?case
  proof (cases "\<exists>i rest typed. ins = i # rest \<and> in_line i = Inr typed")
    case False
    then show ?thesis by (subst dispatch_loop.simps) (auto split: list.split sum.split)
  next
    case True
    then obtain i rest typed where ins: "ins = i # rest" "in_line i = Inr typed" by blast
    from dispatch_line_ok [OF 1(2,3), of E i rest b typed] obtain x where
      x: "dispatch_line E S h b typed i rest = Ret x"
        "\<And>evs h' b' rest'. x = Next evs h' b' rest' \<Longrightarrow> good_step E h i rest evs h' rest'" unfolding ok_step_def by blast
    show ?thesis
    proof (cases x)
      case (Next evs h' b' rest')
      note g = x(2) [OF Next, unfolded good_step_def]
      from 1(1) [OF ins x(1) Next] 1(2) g obtain evs' e h'' where
        "dispatch_loop E S h' b' rest' = Ret (evs', e, h'')"
        "\<forall>s. ProxyRun s \<in> set evs' \<longrightarrow> (\<exists>i \<in> set rest'. granted E i (h_user h) s)" by auto
      moreover have "set rest' \<subseteq> set ins" using g ins by (auto simp: suffix_def)
      ultimately show ?thesis
        using ins x(1) Next g by (subst dispatch_loop.simps) (auto simp del: outcome_bind_eq_Ret)
    qed (use ins x(1) in \<open>subst dispatch_loop.simps, simp\<close>)+
  qed
qed

lemma granted_rows:
  assumes "engine_ok E tbl" "granted E i user s" "typed_table the_Asset (tbl (core_db (in_core i)) ''ASSET'')"
    "typed_table the_AssetUserInfo (tbl (core_db (in_core i)) ''ASSETUSERINFO'')"
    "typed_table the_SystemUser (tbl (core_db (in_core i)) ''SYSTEMUSER'')"
  shows "RAsset (ps_asset s) \<in> set (tbl (core_db (in_core i)) ''ASSET'')
    \<and> (\<exists>info. RAssetUserInfo info \<in> set (tbl (core_db (in_core i)) ''ASSETUSERINFO'') \<and> aui_UserID info = user_ID user
         \<and> aui_AssetID info = asset_ID (ps_asset s) \<and> sys_ID (ps_systemUser s) \<in> set (SysUserID info))"
proof -
  from assms(2) obtain k sus where a: "GetAssetById E (in_core i) k = (ps_asset s, None)" "asset_ID (ps_asset s) \<noteq> []"
    and su: "GetSystemUsersByUserIdAndAssetId E (in_core i) (user_ID user) (asset_ID (ps_asset s)) = Inr sus" "ps_systemUser s \<in> set sus"
    unfolding granted_def by blast
  from a(2) have "ps_asset s \<noteq> zero_Asset" by (auto simp: zero_Asset_def)
  from QueryStruct_row [OF assms(1,3) a(1) [unfolded GetAssetById_def] this]
  have "RAsset (ps_asset s) \<in> set (tbl (core_db (in_core i)) ''ASSET'')" by auto
  with GetSystemUsers_ok [OF assms(1,4,5) su] show ?thesis by blast
qed

definition typed_core :: "('db \<Rightarrow> string \<Rightarrow> row list) \<Rightarrow> 'db Core \<Rightarrow> bool" where
  "typed_core tbl c \<longleftrightarrow> typed_table the_Asset (tbl (core_db c) ''ASSET'')
     \<and> typed_table the_AssetUserInfo (tbl (core_db c) ''ASSETUSERINFO'') \<and> typed_table the_SystemUser (tbl (core_db c) ''SYSTEMUSER'')"

lemma new_handler_ok: "menu_ok (h_select (NewInteractiveHandler E c user conf addr)) \<and> h_user (NewInteractiveHandler E c user conf addr) = user"
  using GetAllUserPermsAssets_entries [of E c "NodeIDs user"]
  by (auto simp: NewInteractiveHandler_def menu_ok_def SetAllLocalData_def new_select_def split: sum.split)


definition example_sorts :: sorts where
  "example_sorts = \<lparr>by_string = insertion_sort, by_item = insertion_sort, by_node = insertion_sort, by_tree = insertion_sort\<rparr>"

definition example_input :: "string \<Rightarrow> (string \<Rightarrow> row list) prompt_input" where
  "example_input s = \<lparr>in_line = Inr s, in_core = example_core, in_width = 80, in_height = 24, in_uuid = ''0123456789''\<rparr>"

definition example_handler :: InteractiveHandler where
  "example_handler = NewInteractiveHandler mem_engine example_core example_user zero_TerminalConfig ''10.0.0.9''"

lemma example_dispatch:
  "\<exists>s e h'. Dispatch mem_engine example_sorts example_handler (example_input []) [] = Ret ([ProxyRun s], e, h')"
proof -
  have "case Dispatch mem_engine example_sorts example_handler (example_input []) [] of
      Ret ([ProxyRun s], _) \<Rightarrow> True | _ \<Rightarrow> False" by code_simp
  then show ?thesis by (auto split: outcome.splits prod.splits list.splits menu_event.splits)
qed


section \<open>The tables of the menus\<close>

text \<open>The table of assets of \<^verbatim>\<open>displaySortedAssets\<close> and the one of system users of \<^verbatim>\<open>chooseSystemUser\<close>, for a terminal of width \<open>w\<close>.\<close>

definition to_row :: "string list \<Rightarrow> string list \<Rightarrow> (string \<Rightarrow> string option)" where
  "to_row names cells = map_of (zip names cells)"

definition asset_columns :: "string list" where
  "asset_columns = [''ID'', ''Hostname'', ''IP'', ''Platform'', ''Comment'']"

definition asset_table :: "int \<Rightarrow> string list list \<Rightarrow> string \<Rightarrow> WrapperTable" where
  "asset_table w rows caption = \<lparr>Labels = Some asset_columns, Fields = asset_columns,
     FieldsSize = [''ID'' \<mapsto> (0, 0, 5), ''Hostname'' \<mapsto> (0, 40, 0), ''IP'' \<mapsto> (0, 8, 40), ''Platform'' \<mapsto> (0, 8, 0), ''Comment'' \<mapsto> (0, 0, 0)],
     Data = map (to_row asset_columns) rows, TotalSize = w, tbl_policy = TruncMiddle, tbl_totalSize = 0, paddingSize = 0,
     bolderSize = 0, fieldsSize = (\<lambda>_. None), Caption = caption\<rparr>"

definition user_columns :: "string list" where
  "user_columns = [''ID'', ''Name'', ''Username'']"

definition system_user_table :: "int \<Rightarrow> SystemUser list \<Rightarrow> WrapperTable" where
  "system_user_table w systemUsers = \<lparr>Labels = Some user_columns, Fields = user_columns,
     FieldsSize = [''ID'' \<mapsto> (0, 0, 5), ''Name'' \<mapsto> (0, 8, 0), ''Username'' \<mapsto> (0, 10, 0)],
     Data = map (\<lambda>(i, j). to_row user_columns [Itoa (int i + 1), sys_Username j, sys_Username j])
       (zip [0..<length systemUsers] systemUsers),
     TotalSize = w, tbl_policy = TruncMiddle, tbl_totalSize = 0, paddingSize = 0, bolderSize = 0, fieldsSize = (\<lambda>_. None), Caption = []\<rparr>"

lemma to_row_cells: "length names = length cells \<Longrightarrow> k \<in> set names \<Longrightarrow> to_row names cells k \<noteq> None"
  by (simp add: to_row_def map_of_zip_is_None)

lemma table_okI:
  assumes "dom (FieldsSize t) = set (Fields t)" "\<forall>k \<in> set (Fields t). spec_ok (spec_of (FieldsSize t) k)"
    "to_row (Fields t) cells \<in> set (Data t)" "length (Fields t) = length cells"
  shows "table_ok t"
  using assms(1,2) to_row_cells [OF assms(4)] by (auto simp: table_ok_def intro!: bexI [OF _ assms(3)])

lemma asset_table_ok:
  assumes "cells \<in> set rows" "length cells = 5"
  shows "\<exists>t. Table_Initial (asset_table w rows caption) = Ret t \<and> table_ok t"
proof -
  let ?sizes = "[''Hostname'' \<mapsto> (0, 40, 0), ''IP'' \<mapsto> (0, 8, 40), ''Platform'' \<mapsto> (0, 8, 0), ''ID'' \<mapsto> (0, 2, 5), ''Comment'' \<mapsto> (0, 7, 0)]"
  obtain t where t: "Table_Initial (asset_table w rows caption) = Ret t" "Fields t = asset_columns"
    "Data t = map (to_row asset_columns) rows" "FieldsSize t = ?sizes"
    by (simp add: Table_Initial_def asset_table_def asset_columns_def Let_def spec_of_def)
  have "table_ok t"
    by (rule table_okI [where cells = cells]) (use assms t in \<open>auto simp: asset_columns_def spec_ok_def spec_of_def\<close>)
  with t show ?thesis by blast
qed

lemma system_user_table_ok:
  assumes "systemUsers \<noteq> []"
  shows "\<exists>t. Table_Initial (system_user_table w systemUsers) = Ret t \<and> table_ok t"
proof -
  let ?sizes = "[''Name'' \<mapsto> (0, 8, 0), ''Username'' \<mapsto> (0, 10, 0), ''ID'' \<mapsto> (0, 2, 5)]"
  let ?cells = "[Itoa 1, sys_Username (hd systemUsers), sys_Username (hd systemUsers)]"
  obtain t where t: "Table_Initial (system_user_table w systemUsers) = Ret t" "Fields t = user_columns"
    "Data t = map (\<lambda>(i, j). to_row user_columns [Itoa (int i + 1), sys_Username j, sys_Username j]) (zip [0..<length systemUsers] systemUsers)"
    "FieldsSize t = ?sizes"
    by (simp add: Table_Initial_def system_user_table_def user_columns_def Let_def spec_of_def)
  have "to_row user_columns ?cells \<in> set (Data t)" using assms
    by (cases systemUsers) (simp_all add: t(3) upt_conv_Cons del: upt_Suc)
  then have "table_ok t"
    by (intro table_okI [where cells = ?cells]) (use t in \<open>auto simp: user_columns_def spec_ok_def spec_of_def\<close>)
  with t show ?thesis by blast
qed

end
