(* ===== verification/Admin.thy ===== *)
theory Admin
  imports Tickets Otp Directory Util
begin

text \<open>
  The console of the administrator and the help screens (\<^verbatim>\<open>pkg/handler/admin.go\<close>, \<^verbatim>\<open>pkg/handler/banner.go\<close>).  Each line the
  administrator types comes with the moment's date, the random number a one-time password would use, and what other
  sessions did to the core since the last line.
\<close>

section \<open>Help\<close>

record MenuItem =
  mi_id :: int
  instruct :: string
  helpText :: string

definition GreenBoldColor :: string where "GreenBoldColor = ColorEscape @ ''1;32m''"

text \<open>One line of a menu; the template of the source only inserts the colour codes.\<close>

definition menu_line :: "MenuItem \<Rightarrow> string" where
  "menu_line v = CharTab @ Itoa (mi_id v) @ '') Enter '' @ GreenBoldColor @ instruct v @ ColorEnd @ '' to '' @ helpText v @ ''.''
     @ CharNewLine"

definition menu_item :: "int \<Rightarrow> string \<Rightarrow> string \<Rightarrow> MenuItem" where
  "menu_item i ins hlp = \<lparr>mi_id = i, instruct = ins, helpText = hlp\<rparr>"

definition displayBanner :: "TerminalConfig \<Rightarrow> string list" where
  "displayBanner termConf =
     (let menu = [
        menu_item 1 ''part IP, Hostname, Comment'' ''to search login if unique'',
        menu_item 2 ''/ + IP, Hostname, Comment'' ''to search, such as: /192.168'',
        menu_item 3 ''p'' ''display the host you have permission'',
        menu_item 4 ''g'' ''display the node that you have permission'',
        menu_item 5 ''r'' ''refresh your assets and nodes'',
        menu_item 6 ''h'' ''print help'',
        menu_item 7 ''q'' ''exit''];
        title = (if HeaderTitle termConf \<noteq> [] then HeaderTitle termConf else WrapperTitle ''Welcome to use GOJump'')
      in (CharClear @ CharTab @ CharTab @ CharTab @ title @ CharNewLine @ CharNewLine) # map menu_line menu)"

definition displayAdminHelp :: "string list" where
  "displayAdminHelp =
     (let menu = [
        menu_item 1 ''otp USERNAME'' ''generate otp for user'',
        menu_item 2 ''list TABLE'' ''list [USERLOG, TICKET, USER, SYSUSER, ASSET, NDOE, ASSETUSER, CONFIG, SECRET]'',
        menu_item 3 ''ticket'' ''list pending tickets'',
        menu_item 4 ''approve TICKET_ID'' ''approve the ticket'',
        menu_item 5 ''reject TICKET_ID'' ''reject the ticket'',
        menu_item 6 ''h'' ''print help'',
        menu_item 7 ''q'' ''exit'']
      in (CharClear @ CharTab @ CharTab @ CharTab @ WrapperTitle ''GOJump Admin'' @ CharNewLine @ CharNewLine) # map menu_line menu)"

section \<open>Listings\<close>

text \<open>
  The formatted time and the two JSON encodings come from libraries.  A failed query prints nothing.
\<close>

record 'db admin_env =
  ad_engine :: "'db engine"
  unix_text :: "int \<Rightarrow> string"
  config_json :: "string result"
  termconf_json :: "string result"
  admin_name :: string

definition crlf_text :: "string \<Rightarrow> string" where
  "crlf_text s = concat (map (\<lambda>ch. if ch = CHR 0x0A then CharNewLine else [ch]) s)"

definition showConfig :: "'db admin_env \<Rightarrow> string list" where
  "showConfig A =
     (case config_json A of
        Inl err \<Rightarrow> []
      | Inr cfg \<Rightarrow>
          (case termconf_json A of
             Inl err \<Rightarrow> []
           | Inr tcfg \<Rightarrow> [crlf_text cfg @ '','' @ crlf_text tcfg @ CharNewLine]))"

definition table_rows :: "'db admin_env \<Rightarrow> 'db Core \<Rightarrow> string \<Rightarrow> (string \<times> string list result) option" where
  "table_rows A c t =
     (let E = ad_engine A in
      if t = ''USERLOG'' then Some (''           Date          |    Type  |    User  |    Log'', QueryUserLog E c)
      else if t = ''TICKET'' then
        Some (''                 Ticket ID                | Application Date  |    User  |   Asset  |  SysUser |  Approver|   Approve Date    |   State'',
          QueryLoginTicket E c)
      else if t = ''PENDINGTICKET'' then
        Some (''                 Ticket ID                | Application Date  |    User  |   Asset  |  SysUser '', QueryPengdingLoginTicket E c)
      else if t = ''USER'' then
        Some (''        ID|    User  |  Role|      Expire At    |OTP Level|Active|      Nodes     |    White list'', QueryAllUser E (unix_text A) c)
      else if t = ''SYSUSER'' then
        Some (''        ID|    User  |Priority|Protocol|Password|Private Key|Comment'', QueryAllSystemUser E c)
      else if t = ''ASSET'' then
        Some (''        ID|Asset Name| Hostname |                   IP                  |    OS    |Active| Platform |   Protocols   |Comment'',
          QueryAllAsset E c)
      else if t = ''NODE'' then Some (''        ID|   Name   |    Key   |      Asset IDs'', QueryAllNode E c)
      else if t = ''ASSETUSER'' then
        Some (''        ID|User ID|Asset ID|      Expire At    |Need Confirm|Enable VS Code|System User IDs'', QueryAssetUserInfo E (unix_text A) c)
      else if t = ''SECRET'' then Some (''   User ID|Password|Private Key|Authorized Keys'', QueryAllUserSecret E c)
      else None)"

definition numbered :: "string list \<Rightarrow> string list" where
  "numbered rows = map (\<lambda>(i, v). pad_left 4 (Itoa (int i + 1)) @ ''. '' @ v @ CharNewLine) (zip [0..<length rows] rows)"

definition listTable :: "'db admin_env \<Rightarrow> 'db Core \<Rightarrow> string \<Rightarrow> string list" where
  "listTable A c t =
     (case table_rows A c (ToUpper t) of
        Some (title, Inl err) \<Rightarrow> []
      | Some (title, Inr rows) \<Rightarrow> (title @ CharNewLine) # numbered rows
      | None \<Rightarrow> (if ToUpper t = ''CONFIG'' then showConfig A else []) @ [CharNewLine])"

section \<open>Commands\<close>

definition admin_updateTicketState :: "'db admin_env \<Rightarrow> 'db Core \<Rightarrow> string \<Rightarrow> string \<Rightarrow> string \<Rightarrow> string list \<times> 'db Core" where
  "admin_updateTicketState A c date tid state =
     (case UpdateTicketState (ad_engine A) c date tid state (admin_name A) of
        (Some err, c) \<Rightarrow> ([WrapperString ''Error'' Red [] @ CharNewLine], c)
      | (None, c) \<Rightarrow> ([WrapperString ''Submit'' Green [] @ CharNewLine], c))"

record 'db admin_input =
  ad_line :: "string result"
  ad_others :: "'db Core \<Rightarrow> 'db Core"
  ad_date :: string
  ad_rnd :: "nat option"

definition second_word :: "string list \<Rightarrow> string outcome" where
  "second_word words = (if length words > 1 then Ret (words ! 1) else Panic IndexOutOfRange)"

text \<open>One line; \<open>None\<close> ends the console.\<close>

definition admin_line :: "'db admin_env \<Rightarrow> 'db admin_input \<Rightarrow> string \<Rightarrow> 'db Core \<Rightarrow> (string list \<times> 'db Core) option outcome" where
  "admin_line A i typed c =
     (let s = TrimSpace typed
      in if length s = 0 then Ret (Some ([], c))
         else if s ! 0 = CHR ''h'' then Ret (Some (displayAdminHelp, c))
         else if s ! 0 = CHR ''q'' then Ret None
         else
           (let words = Split s CHR '' ''; w = words ! 0
            in if w = ''list'' then outcome_bind (second_word words) (\<lambda>t. Ret (Some (listTable A c t, c)))
               else if w = ''ticket'' then Ret (Some (listTable A c ''PENDINGTICKET'', c))
               else if w = ''approve'' then
                 outcome_bind (second_word words) (\<lambda>tid. Ret (Some (admin_updateTicketState A c (ad_date i) tid TicketApproved)))
               else if w = ''reject'' then
                 outcome_bind (second_word words) (\<lambda>tid. Ret (Some (admin_updateTicketState A c (ad_date i) tid TicketRejected)))
               else if w = ''otp'' then
                 outcome_bind (second_word words) (\<lambda>name.
                   let (pass, _, c) = GenOTPassword c name (ad_rnd i) in Ret (Some ([pass @ CharNewLine], c)))
               else if w = ''help'' then Ret (Some (displayAdminHelp, c))
               else if w = ''exit'' \<or> w = ''quit'' then Ret None
               else Ret (Some ([], c))))"

fun admin_loop :: "'db admin_env \<Rightarrow> 'db admin_input list \<Rightarrow> 'db Core \<Rightarrow> (string list \<times> 'db Core) outcome" where
  "admin_loop A [] c = Ret ([], c)"
| "admin_loop A (i # is) c =
     (let c = ad_others i c
      in case ad_line i of
           Inl err \<Rightarrow> Ret ([], c)
         | Inr typed \<Rightarrow>
             outcome_bind (admin_line A i typed c) (\<lambda>r.
               case r of
                 None \<Rightarrow> Ret ([], c)
               | Some (out, c) \<Rightarrow> outcome_bind (admin_loop A is c) (\<lambda>(out', c). Ret (out @ out', c))))"

definition AdminSystem :: "'db admin_env \<Rightarrow> 'db admin_input list \<Rightarrow> 'db Core \<Rightarrow> (string list \<times> 'db Core) outcome" where
  "AdminSystem A is c = outcome_bind (admin_loop A is c) (\<lambda>(out, c). Ret (displayAdminHelp @ out, c))"

section \<open>Properties\<close>

lemma Split_one_word: "length (Split s c) \<le> 1 \<longleftrightarrow> c \<notin> set s"
proof
  assume "length (Split s c) \<le> 1"
  then have "Split s c = [Split s c ! 0]" by (cases "Split s c") auto
  then have "s = Split s c ! 0" using Join_Split [of s c] by (metis Join.simps(2))
  with \<open>Split s c = [Split s c ! 0]\<close> show "c \<notin> set s" using Split_pieces [of "Split s c ! 0" s c]
    by (metis list.set_intros(1))
qed (simp add: Split_no_sep)

text \<open>
  The console panics on a line exactly when the line is one of the commands \<^verbatim>\<open>list\<close>, \<^verbatim>\<open>approve\<close>, \<^verbatim>\<open>reject\<close> and
  \<^verbatim>\<open>otp\<close> without its argument; nothing else the administrator types can.
\<close>

theorem admin_line_panics_iff:
  "(\<exists>p. admin_line A i typed c = Panic p) \<longleftrightarrow> TrimSpace typed \<in> {''list'', ''approve'', ''reject'', ''otp''}"
proof (cases "CHR '' '' \<in> set (TrimSpace typed)")
  case True
  then have "length (Split (TrimSpace typed) CHR '' '') > 1" using Split_one_word [of "TrimSpace typed" "CHR '' ''"] by auto
  then have "\<exists>r. admin_line A i typed c = Ret r"
    by (simp add: admin_line_def second_word_def Let_def del: outcome_bind_eq_Ret split: prod.split)
  with True show ?thesis by auto
next
  case False
  then have w: "Split (TrimSpace typed) CHR '' '' = [TrimSpace typed]" by (rule Split_no_sep)
  show ?thesis
    by (auto simp: admin_line_def w second_word_def Let_def)
qed

text \<open>\<^verbatim>\<open>help\<close> and \<^verbatim>\<open>quit\<close> are only understood by their first letter, like every other word that starts with it.\<close>

lemma admin_first_letter:
  "TrimSpace typed = CHR ''h'' # s \<Longrightarrow> admin_line A i typed c = Ret (Some (displayAdminHelp, c))"
  "TrimSpace typed = CHR ''q'' # s \<Longrightarrow> admin_line A i typed c = Ret None"
  by (simp_all add: admin_line_def Let_def)

end
