(* ===== verification/JumpServer.thy ===== *)
theory JumpServer
  imports Interactive Admin Auth Switch WrapSession
begin

text \<open>
  The jump server itself (\<^verbatim>\<open>pkg/server\<close>): the authentication callbacks, what a session becomes (a direct login, the console of
  the administrator, the menu, or the tunnel of an editor), and port forwarding through that tunnel; and the direct handler of
  \<^verbatim>\<open>pkg/handler\<close>.
\<close>

section \<open>Direct logins\<close>

definition WrapperSession_RemoteAddr :: "WrapperSession \<Rightarrow> string" where
  "WrapperSession_RemoteAddr w = (case SplitHostPort (ws_addr w) of Inr (host, _) \<Rightarrow> host | Inl _ \<Rightarrow> [])"

record DirectHandler =
  d_user :: User
  d_asset :: Asset
  d_sysUser :: SystemUser

definition NewDirectHandler :: "'db engine \<Rightarrow> 'db Core \<Rightarrow> User \<Rightarrow> (string \<Rightarrow> string option) \<Rightarrow> DirectHandler result" where
  "NewDirectHandler E c user directLogin =
     (case QueryDirectLoginInfo E c (user_ID user) directLogin of
        Inl err \<Rightarrow> Inl err
      | Inr (asset, sysUser) \<Rightarrow> Inr \<lparr>d_user = user, d_asset = asset, d_sysUser = sysUser\<rparr>)"

definition DirectHandler_Proxy :: "'db engine \<Rightarrow> 'db Core \<Rightarrow> string \<Rightarrow> WrapperSession \<Rightarrow> DirectHandler \<Rightarrow> ProxyServer result outcome" where
  "DirectHandler_Proxy E c uuid w d =
     outcome_bind (NewServer E c uuid WrapperSession_LoginFrom (WrapperSession_RemoteAddr w)
         [ConnectUser (d_user d), ConnectAsset (d_asset d), ConnectSystemUser (d_sysUser d)]) (\<lambda>(_, r). Ret r)"

section \<open>State of the server\<close>

record vscodeReq =
  vs_reqId :: string
  vs_user :: User
  vs_client :: nat
  vs_name :: string
  vs_expireInfo :: int

record 'db server =
  terminalConf :: TerminalConfig
  srv_core :: "'db Core"
  vscodeClients :: "string \<Rightarrow> vscodeReq option"

definition UpdateTerminalConfig :: "TerminalConfig \<Rightarrow> 'db server \<Rightarrow> 'db server" where
  "UpdateTerminalConfig conf s = s\<lparr>terminalConf := conf\<rparr>"

text \<open>One round of \<^verbatim>\<open>updateTermCfgPeriodcally\<close>: a failed query keeps the old settings.\<close>

definition updateTermCfg :: "'db engine \<Rightarrow> 'db server \<Rightarrow> 'db server" where
  "updateTermCfg E s =
     (case GetTerminalConfig E (srv_core s) of (_, Some err) \<Rightarrow> s | (conf, None) \<Rightarrow> UpdateTerminalConfig conf s)"

text \<open>\<^verbatim>\<open>NewServer\<close>; without settings the process ends.\<close>

definition new_jump_server :: "'db engine \<Rightarrow> 'db Core \<Rightarrow> 'db server result" where
  "new_jump_server E c =
     (case GetTerminalConfig E c of
        (_, Some err) \<Rightarrow> Inl err
      | (conf, None) \<Rightarrow> Inr (UpdateTerminalConfig conf \<lparr>terminalConf = zero_TerminalConfig, srv_core = c, vscodeClients = (\<lambda>_. None)\<rparr>))"

definition GetSSHAddr :: "Config \<Rightarrow> string" where
  "GetSSHAddr cf = JoinHostPort (BindHost cf) (SSHPort cf)"

definition getVSCodeReq :: "string \<Rightarrow> 'db server \<Rightarrow> vscodeReq option" where
  "getVSCodeReq reqId s = vscodeClients s reqId"

definition addVSCodeReq :: "'db engine \<Rightarrow> string \<Rightarrow> vscodeReq \<Rightarrow> 'db server \<Rightarrow> 'db server" where
  "addVSCodeReq E date vsReq s =
     s\<lparr>srv_core := InsertLog E (srv_core s) date ''vscode'' (Username (vs_user vsReq)) (''vscode connect to '' @ vs_name vsReq @ '' successfully''),
       vscodeClients := (vscodeClients s)(vs_reqId vsReq \<mapsto> vsReq)\<rparr>"

definition deleteVSCodeReq :: "'db engine \<Rightarrow> string \<Rightarrow> vscodeReq \<Rightarrow> 'db server \<Rightarrow> 'db server" where
  "deleteVSCodeReq E date vsReq s =
     s\<lparr>srv_core := InsertLog E (srv_core s) date ''vscode'' (Username (vs_user vsReq)) (''vscode disconnect to '' @ vs_name vsReq),
       vscodeClients := (vscodeClients s)(vs_reqId vsReq := None)\<rparr>"

interpretation tunnels: live_register vs_reqId "addVSCodeReq E date" "\<lambda>i. deleteVSCodeReq E date (r\<lparr>vs_reqId := i\<rparr>)" getVSCodeReq for E date r
  by unfold_locales (simp_all add: addVSCodeReq_def deleteVSCodeReq_def getVSCodeReq_def)

section \<open>Authentication\<close>

text \<open>The context of a connection: what the authentication uses, and the id stored under \<^verbatim>\<open>ctxID\<close>.\<close>

record server_ctx =
  sc_auth :: auth_ctx
  sc_id :: "string option"

definition set_ctxID :: "server_ctx \<Rightarrow> server_ctx" where
  "set_ctxID ctx = ctx\<lparr>sc_id := Some (ctx_SessionID (sc_auth ctx))\<rparr>"

definition finish_auth :: "'db server \<Rightarrow> server_ctx \<Rightarrow> (bool \<times> auth_ctx \<times> 'db Core) outcome \<Rightarrow> (bool \<times> server_ctx \<times> 'db server) outcome" where
  "finish_auth s ctx r = outcome_bind r (\<lambda>(ok, a, c). Ret (ok, ctx\<lparr>sc_auth := a\<rparr>, s\<lparr>srv_core := c\<rparr>))"

definition srv_PasswordAuth ::
  "'db engine \<Rightarrow> (string \<Rightarrow> string \<Rightarrow> goerror option) \<Rightarrow> Config \<Rightarrow> int \<Rightarrow> string \<Rightarrow> 'db server \<Rightarrow> server_ctx \<Rightarrow> string
   \<Rightarrow> (bool \<times> server_ctx \<times> 'db server) outcome" where
  "srv_PasswordAuth E compare cfg now date s ctx password =
     (let ctx = set_ctxID ctx
      in if \<not> conf_PasswordAuth (terminalConf s) then Ret (False, ctx, s)
         else finish_auth s ctx (SSHPasswordAndPublicKeyAuth E compare cfg now date (srv_core s) (sc_auth ctx) password []))"

text \<open>The argument is the marshalled key.\<close>

definition srv_PublicKeyAuth ::
  "'db engine \<Rightarrow> (string \<Rightarrow> string \<Rightarrow> goerror option) \<Rightarrow> Config \<Rightarrow> int \<Rightarrow> string \<Rightarrow> 'db server \<Rightarrow> server_ctx \<Rightarrow> string
   \<Rightarrow> (bool \<times> server_ctx \<times> 'db server) outcome" where
  "srv_PublicKeyAuth E compare cfg now date s ctx key =
     (let ctx = set_ctxID ctx
      in if \<not> conf_PublicKeyAuth (terminalConf s) then Ret (False, ctx, s)
         else finish_auth s ctx (SSHPasswordAndPublicKeyAuth E compare cfg now date (srv_core s) (sc_auth ctx) [] (Base64Encode key)))"

definition NextAuthMethodsHandler :: "string list" where
  "NextAuthMethodsHandler = [''keyboard-interactive'']"

section \<open>Sessions\<close>

datatype session_action =
  NotAuthUser | DirectLogin User "(string \<Rightarrow> string option)" | AdminConsole InteractiveHandler | UserMenu InteractiveHandler
| NoPtyRequested | EditorTunnel User "(string \<Rightarrow> string option)" | NothingToDo

text \<open>\<^verbatim>\<open>SessionHandler\<close> up to the point where one of the handlers takes over.\<close>

definition SessionHandler :: "'db engine \<Rightarrow> Config \<Rightarrow> 'db server \<Rightarrow> server_ctx \<Rightarrow> bool \<Rightarrow> string \<Rightarrow> session_action" where
  "SessionHandler E cfg s ctx isPty addr =
     (case val_User (sc_auth ctx) of
        None \<Rightarrow> NotAuthUser
      | Some user \<Rightarrow>
          if user_ID user = [] then NotAuthUser
          else if isPty then
            (case val_DirectLogin (sc_auth ctx) of
               Some directLogin \<Rightarrow> DirectLogin user directLogin
             | None \<Rightarrow>
                 (let interactiveSrv = NewInteractiveHandler E (srv_core s) user (terminalConf s) addr
                  in if Username user = ''admin'' then AdminConsole interactiveSrv else UserMenu interactiveSrv))
          else if \<not> EnableLocalPortForward cfg then NoPtyRequested
          else
            (case val_DirectLogin (sc_auth ctx) of
               Some directLogin \<Rightarrow> EditorTunnel user directLogin
             | None \<Rightarrow> NothingToDo))"

section \<open>The editor tunnel\<close>

datatype tunnel_event = TunnelDone | TunnelTimeout | TunnelTick int
datatype tunnel_end = SessionDone | TimedOut | PermissionRanOut

text \<open>
  The loop of \<^verbatim>\<open>proxyVscodeShell\<close>; \<open>None\<close> while the tunnel is open.  Every end logs the first ten characters of the request id.
\<close>

fun tunnel_loop :: "int \<Rightarrow> tunnel_event list \<Rightarrow> tunnel_end option" where
  "tunnel_loop expireInfo [] = None"
| "tunnel_loop expireInfo (TunnelDone # es) = Some SessionDone"
| "tunnel_loop expireInfo (TunnelTimeout # es) = Some TimedOut"
| "tunnel_loop expireInfo (TunnelTick now # es) =
     (if IsExpired expireInfo now then Some PermissionRanOut else tunnel_loop expireInfo es)"

definition session_pipes :: "session_calls \<Rightarrow> goerror option" where
  "session_pipes calls =
     (case StdoutPipe calls of
        Some err \<Rightarrow> Some (''get SSH session StdoutPipe failed: '' @ err)
      | None \<Rightarrow>
          (case StdinPipe calls of
             Some err \<Rightarrow> Some (''get SSH session StdinPipe failed: '' @ err)
           | None \<Rightarrow> (case Shell calls of Some err \<Rightarrow> Some (''get SSH session shell failed: '' @ err) | None \<Rightarrow> None)))"

definition proxyVscodeShell ::
  "'db engine \<Rightarrow> ('s, 'w) outside \<Rightarrow> tunnel_event list \<Rightarrow> vscodeReq \<Rightarrow> 'db server \<Rightarrow> (tunnel_end option result \<times> 'db server) outcome" where
  "proxyVscodeShell E X es vsReq s =
     (case acquired X of
        Inl err \<Rightarrow> Ret (Inl (''get SSH session failed: '' @ err), s)
      | Inr sess \<Rightarrow>
          (case conn_calls X of
             None \<Rightarrow> Panic NilDereference
           | Some calls \<Rightarrow>
               (case session_pipes calls of
                  Some err \<Rightarrow> Ret (Inl err, s)
                | None \<Rightarrow>
                    (let s = addVSCodeReq E (date_text X) vsReq s
                     in case tunnel_loop (vs_expireInfo vsReq) es of
                          None \<Rightarrow> Ret (Inr None, s)
                        | Some e \<Rightarrow>
                            if length (vs_reqId vsReq) < 10 then Panic SliceBounds
                            else Ret (Inr (Some e), deleteVSCodeReq E (date_text X) vsReq s)))))"

text \<open>\<^verbatim>\<open>proxyVscode\<close>: an error, nothing (no permission), or what the shell did.\<close>

definition proxyVscode ::
  "'db engine \<Rightarrow> Config \<Rightarrow> ('s, 'w) outside \<Rightarrow> tunnel_event list \<Rightarrow> server_ctx \<Rightarrow> User \<Rightarrow> (string \<Rightarrow> string option) \<Rightarrow> 'db server
   \<Rightarrow> (tunnel_end option option result \<times> 'db server) outcome" where
  "proxyVscode E cfg X es ctx user directLogin s =
     (case QueryDirectLoginInfo E (srv_core s) (user_ID user) directLogin of
        Inl err \<Rightarrow> Ret (Inl err, s)
      | Inr (asset, sysUser) \<Rightarrow>
          (case sc_id ctx of
             None \<Rightarrow> Ret (Inl ''not found ctxID'', s)
           | Some ctxId \<Rightarrow>
               (case QueryAssetUserExpire E (srv_core s) (user_ID user) (asset_ID asset) of
                  Inl err \<Rightarrow> Ret (Inl (''get asset expire info err: '' @ err), s)
                | Inr expireInfo \<Rightarrow>
                    (case QueryAssetUserVscodePerm E (srv_core s) (user_ID user) (asset_ID asset) of
                       (_, Some err) \<Rightarrow> Ret (Inl (''get asset expire info err: '' @ err), s)
                     | (vscodePerm, None) \<Rightarrow>
                         if \<not> vscodePerm then Ret (Inr None, s)
                         else
                           (case NewSSHClient (parse_pass X) (parse_plain X) (dial X)
                                  (BuildSSHClientOptions (parse_pass X) (parse_plain X) cfg asset sysUser) of
                              Inl err \<Rightarrow> Ret (Inl (''get SSH Client failed: '' @ err), s)
                            | Inr sshClient \<Rightarrow>
                                outcome_bind (proxyVscodeShell E X es \<lparr>vs_reqId = ctxId, vs_user = user, vs_client = fresh_client X,
                                    vs_name = SSHClient_String sshClient, vs_expireInfo = expireInfo\<rparr> s) (\<lambda>(r, s).
                                  Ret (case r of Inl err \<Rightarrow> Inl err | Inr e \<Rightarrow> Inr (Some e), s)))))))"

section \<open>Port forwarding\<close>

datatype forward_action = RejectedChannel string | Forwarding vscodeReq string

text \<open>\<^verbatim>\<open>DirectTCPIPChannelHandler\<close>; \<open>dialled\<close> is what dialling through the client gives, \<open>opened\<close> whether the channel opened.\<close>

definition DirectTCPIPChannelHandler ::
  "'db server \<Rightarrow> server_ctx \<Rightarrow> (vscodeReq \<Rightarrow> string \<Rightarrow> goerror option) \<Rightarrow> goerror option \<Rightarrow> string \<Rightarrow> forward_action" where
  "DirectTCPIPChannelHandler s ctx dialled opened destAddr =
     (case sc_id ctx of
        None \<Rightarrow> RejectedChannel ''port forwarding is disabled''
      | Some reqId \<Rightarrow>
          (case getVSCodeReq reqId s of
             None \<Rightarrow> RejectedChannel ''port forwarding is disabled''
           | Some vsReq \<Rightarrow>
               (case dialled vsReq destAddr of
                  Some err \<Rightarrow> RejectedChannel err
                | None \<Rightarrow> (case opened of Some err \<Rightarrow> RejectedChannel err | None \<Rightarrow> Forwarding vsReq destAddr))))"

definition LocalPortForwardingPermission :: "Config \<Rightarrow> bool" where
  "LocalPortForwardingPermission cfg = EnableLocalPortForward cfg"

text \<open>The handler of \<^verbatim>\<open>direct-tcpip\<close> channels that \<^verbatim>\<open>initSSHServer\<close> installs; the request is decoded by the library.\<close>

definition direct_tcpip ::
  "Config \<Rightarrow> 'db server \<Rightarrow> server_ctx \<Rightarrow> (string \<times> nat) result \<Rightarrow> (vscodeReq \<Rightarrow> string \<Rightarrow> goerror option) \<Rightarrow> goerror option \<Rightarrow> forward_action" where
  "direct_tcpip cfg s ctx localD dialled opened =
     (case localD of
        Inl err \<Rightarrow> RejectedChannel (''error parsing forward data: '' @ err)
      | Inr (destHost, destPort) \<Rightarrow>
          if \<not> LocalPortForwardingPermission cfg then RejectedChannel ''port forwarding is disabled''
          else DirectTCPIPChannelHandler s ctx dialled opened (JoinHostPort destHost (Itoa (int destPort))))"

section \<open>Every session belongs to an authenticated user\<close>

text \<open>One attempt to log in on a connection, with the moment it happens at.\<close>

datatype credential = Password string | PublicKey string

record 'db login_try =
  try_with :: credential
  try_now :: int
  try_date :: string
  try_server :: "'db server"

definition try_login ::
  "'db engine \<Rightarrow> (string \<Rightarrow> string \<Rightarrow> goerror option) \<Rightarrow> Config \<Rightarrow> 'db login_try \<Rightarrow> server_ctx \<Rightarrow> (bool \<times> server_ctx \<times> 'db server) outcome" where
  "try_login E compare cfg t ctx =
     (case try_with t of
        Password p \<Rightarrow> srv_PasswordAuth E compare cfg (try_now t) (try_date t) (try_server t) ctx p
      | PublicKey k \<Rightarrow> srv_PublicKeyAuth E compare cfg (try_now t) (try_date t) (try_server t) ctx k)"

fun try_logins ::
  "'db engine \<Rightarrow> (string \<Rightarrow> string \<Rightarrow> goerror option) \<Rightarrow> Config \<Rightarrow> 'db login_try list \<Rightarrow> server_ctx \<Rightarrow> server_ctx outcome" where
  "try_logins E compare cfg [] ctx = Ret ctx"
| "try_logins E compare cfg (t # ts) ctx =
     outcome_bind (try_login E compare cfg t ctx) (\<lambda>(ok, ctx, _). if ok then Ret ctx else try_logins E compare cfg ts ctx)"

text \<open>An attempt that was rightly accepted for \<open>user\<close>: the method is enabled, the user is stored and admitted, and there is evidence.\<close>

definition accepted_for ::
  "('db \<Rightarrow> string \<Rightarrow> row list) \<Rightarrow> (string \<Rightarrow> string \<Rightarrow> goerror option) \<Rightarrow> string \<Rightarrow> 'db login_try \<Rightarrow> User \<Rightarrow> bool" where
  "accepted_for tbl compare host t user \<longleftrightarrow>
     (let c = srv_core (try_server t); conf = terminalConf (try_server t)
      in RUser user \<in> set (tbl (core_db c) ''USER'') \<and> admitted (try_now t) host user
       \<and> (case try_with t of
            Password p \<Rightarrow> conf_PasswordAuth conf \<and> evidence compare (tbl (core_db c)) c user p []
          | PublicKey k \<Rightarrow> conf_PublicKeyAuth conf \<and> evidence compare (tbl (core_db c)) c user [] (Base64Encode k)))"

definition typed_users :: "('db \<Rightarrow> string \<Rightarrow> row list) \<Rightarrow> 'db Core \<Rightarrow> bool" where
  "typed_users tbl c \<longleftrightarrow> typed_table the_User (tbl (core_db c) ''USER'') \<and> typed_table the_UserSecret (tbl (core_db c) ''USERSECRET'')"

lemma SSHAuth_frame:
  assumes "SSHPasswordAndPublicKeyAuth E compare cfg now date c ctx password publicKey = Ret (ok, ctx', c')"
  shows "ctx_SessionID ctx' = ctx_SessionID ctx \<and> ctx_User ctx' = ctx_User ctx \<and> ctx_RemoteAddr ctx' = ctx_RemoteAddr ctx
    \<and> (\<not> ok \<longrightarrow> val_User ctx' = val_User ctx)"
  using assms
  by (cases "parseUserFormatBySeparator (ctx_User ctx)")
    (auto simp: SSHPasswordAndPublicKeyAuth_def Let_def split: prod.splits auth_result.splits if_splits)

lemma try_login_cases:
  assumes "engine_ok E tbl" "typed_users tbl (srv_core (try_server t))" "try_login E compare cfg t ctx = Ret (ok, ctx', s')"
  shows "if ok then \<exists>user. val_User (sc_auth ctx') = Some user \<and> Username user = auth_name (sc_auth ctx)
        \<and> accepted_for tbl compare (remote_host (sc_auth ctx)) t user
    else val_User (sc_auth ctx') = val_User (sc_auth ctx) \<and> auth_name (sc_auth ctx') = auth_name (sc_auth ctx)
      \<and> remote_host (sc_auth ctx') = remote_host (sc_auth ctx)"
proof -
  have one: "if ok then \<exists>user. val_User a' = Some user \<and> Username user = auth_name (sc_auth ctx)
        \<and> RUser user \<in> set (tbl (core_db (srv_core (try_server t))) ''USER'') \<and> admitted (try_now t) (remote_host (sc_auth ctx)) user
        \<and> evidence compare (tbl (core_db (srv_core (try_server t)))) (srv_core (try_server t)) user p k
      else val_User a' = val_User (sc_auth ctx) \<and> auth_name a' = auth_name (sc_auth ctx) \<and> remote_host a' = remote_host (sc_auth ctx)"
    if r: "SSHPasswordAndPublicKeyAuth E compare cfg (try_now t) (try_date t) (srv_core (try_server t)) (sc_auth ctx) p k = Ret (ok, a', c')"
    for p k a' c'
  proof (cases ok)
    case True
    with r have "SSHPasswordAndPublicKeyAuth E compare cfg (try_now t) (try_date t) (srv_core (try_server t)) (sc_auth ctx) p k
        = Ret (True, a', c')" by simp
    from SSHAuth_accepted [OF assms(1) _ _ this] assms(2) True show ?thesis unfolding typed_users_def by auto
  next
    case False
    with SSHAuth_frame [OF r] show ?thesis by (simp add: auth_name_def remote_host_def split: option.split)
  qed
  show ?thesis
  proof (cases "try_with t")
    case (Password p)
    with assms(3) one [of p "[]"] show ?thesis
      by (auto simp: try_login_def srv_PasswordAuth_def finish_auth_def set_ctxID_def accepted_for_def Let_def split: if_splits)
  next
    case (PublicKey k)
    with assms(3) one [of "[]" "Base64Encode k"] show ?thesis
      by (auto simp: try_login_def srv_PublicKeyAuth_def finish_auth_def set_ctxID_def accepted_for_def Let_def split: if_splits)
  qed
qed

lemma try_logins_user:
  assumes "engine_ok E tbl" "\<forall>t \<in> set ts. typed_users tbl (srv_core (try_server t))" "val_User (sc_auth ctx) = None"
    "try_logins E compare cfg ts ctx = Ret ctx'" "val_User (sc_auth ctx') = Some user"
  shows "\<exists>t \<in> set ts. accepted_for tbl compare (remote_host (sc_auth ctx)) t user \<and> Username user = auth_name (sc_auth ctx)"
  using assms(2-4)
proof (induction ts arbitrary: ctx)
  case Nil
  with assms(5) show ?case by simp
next
  case (Cons t ts)
  from Cons.prems(3) obtain ok ctx1 s1 where t: "try_login E compare cfg t ctx = Ret (ok, ctx1, s1)"
    and rest: "(if ok then Ret ctx1 else try_logins E compare cfg ts ctx1) = Ret ctx'" by auto
  note c = try_login_cases [OF assms(1) _ t] Cons.prems(1)
  show ?case
  proof (cases ok)
    case True
    with rest have "ctx1 = ctx'" by simp
    with c True assms(5) show ?thesis by auto
  next
    case False
    with c have same: "val_User (sc_auth ctx1) = None" "auth_name (sc_auth ctx1) = auth_name (sc_auth ctx)"
      "remote_host (sc_auth ctx1) = remote_host (sc_auth ctx)" using Cons.prems(2) by auto
    with Cons.IH [of ctx1] rest False Cons.prems(1) show ?thesis by auto
  qed
qed

text \<open>
  C4: whatever a session on a connection becomes, its user has logged in on this connection: one of the attempts was accepted
  for exactly this user, stored, active, not expired, from an allowed address, with a method that is switched on and on valid evidence.
  The administrator's console opens only for the user named admin.
\<close>

theorem sessions_authenticated:
  assumes "engine_ok E tbl" "\<forall>t \<in> set ts. typed_users tbl (srv_core (try_server t))" "val_User (sc_auth ctx) = None"
    "try_logins E compare cfg ts ctx = Ret ctx'" "SessionHandler E cfg s ctx' isPty addr \<noteq> NotAuthUser"
  shows "\<exists>t \<in> set ts. \<exists>user. accepted_for tbl compare (remote_host (sc_auth ctx)) t user \<and> Username user = auth_name (sc_auth ctx)
    \<and> (case SessionHandler E cfg s ctx' isPty addr of
         AdminConsole h \<Rightarrow> h_user h = user \<and> Username user = ''admin''
       | UserMenu h \<Rightarrow> h_user h = user \<and> Username user \<noteq> ''admin''
       | DirectLogin u d \<Rightarrow> u = user
       | EditorTunnel u d \<Rightarrow> u = user \<and> EnableLocalPortForward cfg
       | _ \<Rightarrow> True)"
proof -
  from assms(5) obtain user where u: "val_User (sc_auth ctx') = Some user"
    by (auto simp: SessionHandler_def split: option.splits)
  from try_logins_user [OF assms(1-4) u] obtain t where
    t: "t \<in> set ts" "accepted_for tbl compare (remote_host (sc_auth ctx)) t user" "Username user = auth_name (sc_auth ctx)" by blast
  have h: "h_user (NewInteractiveHandler E (srv_core s) user (terminalConf s) addr) = user" by (simp add: new_handler_ok)
  have "case SessionHandler E cfg s ctx' isPty addr of
         AdminConsole h \<Rightarrow> h_user h = user \<and> Username user = ''admin''
       | UserMenu h \<Rightarrow> h_user h = user \<and> Username user \<noteq> ''admin''
       | DirectLogin u d \<Rightarrow> u = user
       | EditorTunnel u d \<Rightarrow> u = user \<and> EnableLocalPortForward cfg
       | _ \<Rightarrow> True"
    using u h by (simp add: SessionHandler_def Let_def split: option.split)
  with t show ?thesis by blast
qed

definition example_jump :: "(string \<Rightarrow> row list) server" where
  "example_jump = \<lparr>terminalConf = zero_TerminalConfig\<lparr>conf_PasswordAuth := True\<rparr>, srv_core = example_core, vscodeClients = (\<lambda>_. None)\<rparr>"

definition example_conn :: server_ctx where
  "example_conn = \<lparr>sc_auth = example_ctx, sc_id = None\<rparr>"

definition example_try :: "string \<Rightarrow> (string \<Rightarrow> row list) login_try" where
  "example_try p = \<lparr>try_with = Password p, try_now = 100, try_date = ''now'', try_server = example_jump\<rparr>"

lemma example_session:
  "case try_logins mem_engine example_compare newDefaultConfig [example_try ''no'', example_try ''pw''] example_conn of
     Ret ctx' \<Rightarrow> (case SessionHandler mem_engine newDefaultConfig example_jump ctx' True ''10.1.1.9'' of DirectLogin u d \<Rightarrow> True | _ \<Rightarrow> False)
   | Panic _ \<Rightarrow> False"
  by code_simp

theorem sessions_authenticated_witness:
  "\<exists>user. accepted_for (\<lambda>db. db) example_compare ''10.1.1.9'' (example_try ''no'') user
     \<or> accepted_for (\<lambda>db. db) example_compare ''10.1.1.9'' (example_try ''pw'') user"
proof -
  obtain ctx' where r: "try_logins mem_engine example_compare newDefaultConfig [example_try ''no'', example_try ''pw''] example_conn = Ret ctx'"
    and a: "SessionHandler mem_engine newDefaultConfig example_jump ctx' True ''10.1.1.9'' \<noteq> NotAuthUser"
    using example_session by (auto split: outcome.splits session_action.splits)
  have "\<forall>t \<in> set [example_try ''no'', example_try ''pw'']. typed_users (\<lambda>db. db) (srv_core (try_server t))"
    using example_typed by (simp add: typed_users_def example_try_def example_jump_def)
  from sessions_authenticated [OF mem_engine_ok this _ r a] example_ctx_name show ?thesis
    by (auto simp: example_conn_def example_ctx_def)
qed

section \<open>Tunnels and forwarded ports\<close>

lemma vscode_permission:
  assumes "engine_ok E tbl" "typed_table the_AssetUserInfo (tbl (core_db c) ''ASSETUSERINFO'')"
    "QueryAssetUserVscodePerm E c uid aid = (True, None)"
  shows "\<exists>info. RAssetUserInfo info \<in> set (tbl (core_db c) ''ASSETUSERINFO'') \<and> aui_UserID info = uid \<and> aui_AssetID info = aid
    \<and> EnableVscode info"
proof -
  let ?rows = "rows_where tbl (core_db c) ''ASSETUSERINFO'' (aui_conds uid aid)"
  let ?val = "\<lambda>r. the (the_bool (the (column r ''enablevscode'')))"
  from assms(3) have q: "QueryOneField E (core_db c) the_bool False (Select [''enablevscode''] ''ASSETUSERINFO'' (aui_conds uid aid)) = (True, None)"
    by (auto simp: QueryAssetUserVscodePerm_def split: prod.splits option.splits)
  have rows: "\<exists>i. r = RAssetUserInfo i \<and> RAssetUserInfo i \<in> set (tbl (core_db c) ''ASSETUSERINFO'')
      \<and> aui_UserID i = uid \<and> aui_AssetID i = aid" if "r \<in> set ?rows" for r
    using that assms(2) by (fastforce simp: typed_table_def list_all_iff)
  then have "\<forall>r \<in> set ?rows. the_bool (the (column r ''enablevscode'')) \<noteq> None" by fastforce
  from QueryOneField_ok [OF assms(1) this q] have "True \<in> set (map ?val ?rows)"
    using last_or_cases [of False "map ?val ?rows"] by auto
  then obtain r where "r \<in> set ?rows" "?val r" by auto
  with rows show ?thesis by fastforce
qed

lemma proxyVscodeShell_registered:
  "all_ret (\<lambda>(r, s'). \<forall>e. r = Inr e \<longrightarrow> (e = None \<longleftrightarrow> getVSCodeReq (vs_reqId req) s' \<noteq> None)) (proxyVscodeShell E X es req s)"
  unfolding proxyVscodeShell_def Let_def
  by (intro all_ret_intros) (auto simp: all_ret_def getVSCodeReq_def addVSCodeReq_def deleteVSCodeReq_def)

lemma proxyVscode_opened:
  "all_ret (\<lambda>(r, s'). \<forall>e. r = Inr (Some e) \<longrightarrow> (\<exists>asset sysUser i req.
       QueryDirectLoginInfo E (srv_core s) (user_ID user) directLogin = Inr (asset, sysUser) \<and> sc_id ctx = Some i
     \<and> QueryAssetUserVscodePerm E (srv_core s) (user_ID user) (asset_ID asset) = (True, None)
     \<and> vs_reqId req = i \<and> proxyVscodeShell E X es req s = Ret (Inr e, s')))
   (proxyVscode E cfg X es ctx user directLogin s)"
  unfolding proxyVscode_def by (intro all_ret_intros) (fastforce split: sum.splits)+


definition tunnel_jump :: "(string \<Rightarrow> row list) server" where
  "tunnel_jump = example_jump\<lparr>srv_core := example_core\<lparr>core_db :=
     example_data(''ASSETUSERINFO'' := [RAssetUserInfo (example_aui\<lparr>EnableVscode := True\<rparr>)])\<rparr>\<rparr>"

definition tunnel_ctx :: server_ctx where
  "tunnel_ctx = example_conn\<lparr>sc_id := Some ''0123456789ab''\<rparr>"

lemma example_tunnel:
  "case proxyVscode mem_engine newDefaultConfig example_outside [TunnelTick 5, TunnelDone] tunnel_ctx example_user example_direct tunnel_jump of
     Ret (Inr (Some (Some SessionDone)), s') \<Rightarrow> True | _ \<Rightarrow> False"
  by code_simp


text \<open>
  The expiry of the permission is read when the tunnel opens but only looked at by the ticks of its loop, so a tunnel opens on a
  permission that expired long ago; nor is a login confirmation asked for.
\<close>

definition expired_jump :: "(string \<Rightarrow> row list) server" where
  "expired_jump = example_jump\<lparr>srv_core := example_core\<lparr>core_db :=
     example_data(''ASSETUSERINFO'' := [RAssetUserInfo (example_aui\<lparr>EnableVscode := True, aui_ExpireAt := 1\<rparr>)])\<rparr>\<rparr>"

lemma tunnel_opens_expired:
  "IsExpired 1 (clock example_outside)
   \<and> (case proxyVscode mem_engine newDefaultConfig example_outside [] tunnel_ctx example_user example_direct expired_jump of
        Ret (Inr (Some None), s') \<Rightarrow> getVSCodeReq ''0123456789ab'' s' \<noteq> None | _ \<Rightarrow> False)"
  by code_simp

text \<open>What tunnels do to the register, in the order it happens.\<close>

datatype tunnel_op = OpenTunnel string vscodeReq | CloseTunnel string vscodeReq

fun tunnel_exec :: "'db engine \<Rightarrow> tunnel_op \<Rightarrow> 'db server \<Rightarrow> 'db server" where
  "tunnel_exec E (OpenTunnel date r) s = addVSCodeReq E date r s"
| "tunnel_exec E (CloseTunnel date r) s = deleteVSCodeReq E date r s"

lemma tunnel_found:
  assumes "getVSCodeReq i s = None" "getVSCodeReq i (fold (tunnel_exec E) ops s) = Some req"
  shows "vs_reqId req = i \<and> (\<exists>before date after. ops = before @ OpenTunnel date req # after
    \<and> (\<forall>d r. CloseTunnel d r \<in> set after \<longrightarrow> vs_reqId r \<noteq> i))"
  using assms(2)
proof (induction ops rule: rev_induct)
  case Nil
  with assms(1) show ?case by simp
next
  case (snoc op ops)
  let ?s = "fold (tunnel_exec E) ops s"
  have keep: ?case if "getVSCodeReq i ?s = Some req" "\<And>d r. op = CloseTunnel d r \<Longrightarrow> vs_reqId r \<noteq> i"
  proof -
    from snoc.IH [OF that(1)] obtain before date after where
      a: "vs_reqId req = i" "ops = before @ OpenTunnel date req # after" "\<forall>d r. CloseTunnel d r \<in> set after \<longrightarrow> vs_reqId r \<noteq> i" by blast
    with that(2) show ?thesis
      by (intro conjI exI [of _ before] exI [of _ date] exI [of _ "after @ [op]"]) auto
  qed
  show ?case
  proof (cases op)
    case (OpenTunnel date r)
    show ?thesis
    proof (cases "i = vs_reqId r")
      case True
      with snoc.prems OpenTunnel have "req = r" by (simp add: tunnels.find_enter)
      with True OpenTunnel show ?thesis by (intro conjI exI [of _ ops] exI [of _ date] exI [of _ "[]"]) auto
    next
      case False
      with snoc.prems OpenTunnel show ?thesis by (intro keep) (simp_all add: tunnels.find_enter)
    qed
  next
    case (CloseTunnel date r)
    have "getVSCodeReq i (deleteVSCodeReq E date r ?s) = (if i = vs_reqId r then None else getVSCodeReq i ?s)"
      using tunnels.find_leave [where i = i and j = "vs_reqId r" and ra = r and r = ?s and E = E and date = date] by simp
    with snoc.prems CloseTunnel show ?thesis by (intro keep) (auto split: if_splits)
  qed
qed

text \<open>
  C18: a port is forwarded only when forwarding is switched on and only through the client of a tunnel that was opened on the very
  connection that asks, and that no tunnel of this connection has closed since.
\<close>

theorem port_forward_needs_tunnel:
  assumes "vscodeClients s = (\<lambda>_. None)"
    "direct_tcpip cfg (fold (tunnel_exec E) ops s) ctx localD dialled opened = Forwarding req dest"
  shows "EnableLocalPortForward cfg \<and> sc_id ctx = Some (vs_reqId req) \<and> dialled req dest = None
    \<and> (\<exists>before date after. ops = before @ OpenTunnel date req # after
         \<and> (\<forall>d r. CloseTunnel d r \<in> set after \<longrightarrow> vs_reqId r \<noteq> vs_reqId req))"
proof -
  from assms(2) obtain i where i: "sc_id ctx = Some i" "getVSCodeReq i (fold (tunnel_exec E) ops s) = Some req"
    and "EnableLocalPortForward cfg" "dialled req dest = None"
    by (auto simp: direct_tcpip_def DirectTCPIPChannelHandler_def LocalPortForwardingPermission_def
        split: sum.splits prod.splits if_splits option.splits)
  with tunnel_found [OF _ i(2)] assms(1) show ?thesis by (auto simp: getVSCodeReq_def)
qed

definition example_req :: "string \<Rightarrow> vscodeReq" where
  "example_req i = \<lparr>vs_reqId = i, vs_user = example_user, vs_client = 7, vs_name = ''root@10.0.0.1:22'', vs_expireInfo = 0\<rparr>"

theorem port_forward_needs_tunnel_witness:
  "direct_tcpip (newDefaultConfig\<lparr>EnableLocalPortForward := True\<rparr>) (fold (tunnel_exec mem_engine)
       [OpenTunnel ''d'' (example_req ''0123456789ab''), CloseTunnel ''e'' (example_req ''other'')] example_jump) tunnel_ctx
       (Inr (''localhost'', 80)) (\<lambda>_ _. None) None = Forwarding (example_req ''0123456789ab'') (JoinHostPort ''localhost'' (Itoa 80))
   \<and> (\<exists>before date after. [OpenTunnel ''d'' (example_req ''0123456789ab''), CloseTunnel ''e'' (example_req ''other'')]
      = before @ OpenTunnel date (example_req ''0123456789ab'') # after)"
proof -
  let ?ops = "[OpenTunnel ''d'' (example_req ''0123456789ab''), CloseTunnel ''e'' (example_req ''other'')]"
  have fwd: "direct_tcpip (newDefaultConfig\<lparr>EnableLocalPortForward := True\<rparr>) (fold (tunnel_exec mem_engine) ?ops example_jump) tunnel_ctx
      (Inr (''localhost'', 80)) (\<lambda>_ _. None) None = Forwarding (example_req ''0123456789ab'') (JoinHostPort ''localhost'' (Itoa 80))"
    by (simp add: direct_tcpip_def DirectTCPIPChannelHandler_def LocalPortForwardingPermission_def tunnel_ctx_def getVSCodeReq_def
        addVSCodeReq_def deleteVSCodeReq_def example_req_def)
  have "vscodeClients example_jump = (\<lambda>_. None)" by (simp add: example_jump_def)
  from port_forward_needs_tunnel [OF this fwd] fwd show ?thesis by blast
qed

text \<open>
  The register is kept by connection: of two tunnels on one connection the first to end takes the other's port forwarding with it.
\<close>

lemma second_tunnel_loses_forwarding:
  assumes "vs_reqId a = vs_reqId b"
  shows "getVSCodeReq (vs_reqId b) (deleteVSCodeReq E d3 a (addVSCodeReq E d2 b (addVSCodeReq E d1 a s))) = None"
  using assms by (simp add: getVSCodeReq_def deleteVSCodeReq_def addVSCodeReq_def)

end
