(* ===== verification/HostKey.thy ===== *)
theory HostKey
  imports SshSession
begin

text \<open>
  The host key that is generated when a database is set up (\<^verbatim>\<open>pkg/common/edkey.go\<close> and the key generators of \<^verbatim>\<open>pkg/common/util.go\<close>): the
  OpenSSH private key format is written, and a reader of that format gets the key back.  The generators of key material, the PEM
  and ASN.1 encodings and the marshalling of the SSH library are parameters.
\<close>

section \<open>Writing a key\<close>

text \<open>The fields of a struct given to \<^verbatim>\<open>ssh.Marshal\<close>, and the encoding that its documentation (RFC 4251) gives them.\<close>

datatype wire_field = WUint32 "32 word" | WString string | WRest string

fun wire_encode :: "wire_field \<Rightarrow> string" where
  "wire_encode (WUint32 w) = enc32 (unat w)"
| "wire_encode (WString s) = enc32 (length s) @ s"
| "wire_encode (WRest s) = s"

definition wire_ok :: "(wire_field list \<Rightarrow> string) \<Rightarrow> bool" where
  "wire_ok Marshal \<longleftrightarrow> (\<forall>fs. Marshal fs = concat (map wire_encode fs))"

definition KeyAlgoED25519 :: string where "KeyAlgoED25519 = ''ssh-ed25519''"

text \<open>\<^verbatim>\<open>PrivateKey.Public\<close> copies the second half of the key into 32 bytes.\<close>

definition Public :: "string \<Rightarrow> string outcome" where
  "Public key =
     (if length key < 32 then Panic SliceBounds
      else Ret (take 32 (drop 32 key @ replicate 32 (char_of (0 :: nat)))))"

definition pk1 :: "32 word \<Rightarrow> string \<Rightarrow> string \<Rightarrow> string \<Rightarrow> wire_field list" where
  "pk1 ci pubKey key Pad = [WUint32 ci, WUint32 ci, WString KeyAlgoED25519, WString pubKey, WString key, WString [], WRest Pad]"

definition padding :: "nat \<Rightarrow> string" where
  "padding padLen = map (\<lambda>i. char_of (i + 1)) [0..<padLen]"

definition MarshalED25519PrivateKey :: "(wire_field list \<Rightarrow> string) \<Rightarrow> 32 word \<Rightarrow> string \<Rightarrow> string outcome" where
  "MarshalED25519PrivateKey Marshal ci key =
     outcome_bind (Public key) (\<lambda>pubKey.
       let magic = ''openssh-key-v1'' @ [char_of (0 :: nat)];
           bs = 8;
           blockLen = length (Marshal (pk1 ci pubKey key []));
           padLen = (bs - blockLen mod bs) mod bs;
           prefix = map char_of [0, 0, 0, 11 :: nat] @ KeyAlgoED25519 @ map char_of [0, 0, 0, 32 :: nat];
           w = [WString ''none'', WString ''none'', WString [], WUint32 1, WString (prefix @ pubKey),
                WString (Marshal (pk1 ci pubKey key (padding padLen)))]
       in Ret (magic @ Marshal w))"

text \<open>
  A generator that fails yields a nil key, and its error is dropped; \<open>EncodeToMemory\<close> is given the type of the block and its bytes.
  The fatal log entry of the RSA generator does not end the program.
\<close>

definition GenerateEd25519Pem ::
  "string result \<Rightarrow> (wire_field list \<Rightarrow> string) \<Rightarrow> 32 word \<Rightarrow> (string \<Rightarrow> string \<Rightarrow> string) \<Rightarrow> string outcome" where
  "GenerateEd25519Pem GenerateKey Marshal ci EncodeToMemory =
     outcome_bind (MarshalED25519PrivateKey Marshal ci (case GenerateKey of Inl _ \<Rightarrow> [] | Inr k \<Rightarrow> k))
       (\<lambda>b. Ret (EncodeToMemory ''OPENSSH PRIVATE KEY'' b))"

definition generateRSAPrivateKey :: "(nat \<Rightarrow> 'k result) \<Rightarrow> ('k \<Rightarrow> goerror option) \<Rightarrow> nat \<Rightarrow> 'k result" where
  "generateRSAPrivateKey GenerateKey Validate bitSize =
     (case GenerateKey bitSize of
        Inl err \<Rightarrow> Inl err
      | Inr privateKey \<Rightarrow> (case Validate privateKey of Some err \<Rightarrow> Inl err | None \<Rightarrow> Inr privateKey))"

definition encodeRSAPrivateKeyToPEM :: "('k \<Rightarrow> string) \<Rightarrow> (string \<Rightarrow> string \<Rightarrow> string) \<Rightarrow> 'k option \<Rightarrow> string outcome" where
  "encodeRSAPrivateKeyToPEM MarshalPKCS1PrivateKey EncodeToMemory privateKey =
     (case privateKey of
        None \<Rightarrow> Panic NilDereference
      | Some k \<Rightarrow> Ret (EncodeToMemory ''RSA PRIVATE KEY'' (MarshalPKCS1PrivateKey k)))"

definition GenerateRSAPem ::
  "(nat \<Rightarrow> 'k result) \<Rightarrow> ('k \<Rightarrow> goerror option) \<Rightarrow> ('k \<Rightarrow> string) \<Rightarrow> (string \<Rightarrow> string \<Rightarrow> string) \<Rightarrow> string outcome" where
  "GenerateRSAPem GenerateKey Validate MarshalPKCS1PrivateKey EncodeToMemory =
     encodeRSAPrivateKeyToPEM MarshalPKCS1PrivateKey EncodeToMemory
       (case generateRSAPrivateKey GenerateKey Validate 2048 of Inl _ \<Rightarrow> None | Inr k \<Rightarrow> Some k)"

section \<open>Reading it back\<close>

text \<open>A reader of the format as OpenSSH documents it, with the parsers of the repository's SSH library.\<close>

definition with_string :: "string \<Rightarrow> (string \<Rightarrow> string \<Rightarrow> 'a option outcome) \<Rightarrow> 'a option outcome" where
  "with_string s f = outcome_bind (parseString s) (\<lambda>r. case r of None \<Rightarrow> Ret None | Some (x, s') \<Rightarrow> f x s')"

definition with_uint32 :: "string \<Rightarrow> (32 word \<Rightarrow> string \<Rightarrow> 'a option outcome) \<Rightarrow> 'a option outcome" where
  "with_uint32 s f = (case parseUint32 s of None \<Rightarrow> Ret None | Some (x, s') \<Rightarrow> f x s')"

definition openssh_pad :: "nat \<Rightarrow> string" where
  "openssh_pad n = take n (map char_of [1, 2, 3, 4, 5, 6, 7 :: nat])"

definition read_private_block :: "string \<Rightarrow> (string \<times> string) option outcome" where
  "read_private_block s =
     (if length s mod 8 \<noteq> 0 then Ret None
      else with_uint32 s (\<lambda>c1 s. with_uint32 s (\<lambda>c2 s. with_string s (\<lambda>alg s. with_string s (\<lambda>pub s. with_string s (\<lambda>priv s.
        with_string s (\<lambda>comment pad.
          Ret (if c1 = c2 \<and> alg = KeyAlgoED25519 \<and> pad = openssh_pad (length pad) then Some (pub, priv) else None))))))))"

definition read_public_key :: "string \<Rightarrow> string option outcome" where
  "read_public_key s =
     with_string s (\<lambda>alg s. with_string s (\<lambda>pub rest. Ret (if alg = KeyAlgoED25519 \<and> rest = [] then Some pub else None)))"

definition read_openssh_key :: "string \<Rightarrow> (string \<times> string \<times> string) option outcome" where
  "read_openssh_key s =
     (let magic = ''openssh-key-v1'' @ [char_of (0 :: nat)] in
      if take (length magic) s \<noteq> magic then Ret None
      else with_string (drop (length magic) s) (\<lambda>cipher s. with_string s (\<lambda>kdf s. with_string s (\<lambda>opts s. with_uint32 s (\<lambda>num s.
        with_string s (\<lambda>pubblob s. with_string s (\<lambda>block rest.
          if cipher \<noteq> ''none'' \<or> kdf \<noteq> ''none'' \<or> opts \<noteq> [] \<or> num \<noteq> 1 \<or> rest \<noteq> [] then Ret None
          else outcome_bind (read_public_key pubblob) (\<lambda>p. outcome_bind (read_private_block block) (\<lambda>b.
            Ret (case (p, b) of (Some pub, Some (pub', priv)) \<Rightarrow> Some (pub, pub', priv) | _ \<Rightarrow> None))))))))))"

lemma length_wire [simp]:
  "length (wire_encode (WString x)) = 4 + length x" "length (wire_encode (WUint32 w)) = 4"
  by simp_all

lemma with_string_enc:
  "length x + length s < 2 ^ 32 - 4 \<Longrightarrow> with_string (wire_encode (WString x) @ s) f = f x s"
  by (simp add: with_string_def parseString_enc)

lemma with_string_last: "length x < 2 ^ 32 - 4 \<Longrightarrow> with_string (wire_encode (WString x)) f = f x []"
  using with_string_enc [of x "[]" f] by simp

lemma with_uint32_enc: "with_uint32 (wire_encode (WUint32 w) @ s) f = f w s"
  using parseUint32_enc [of "unat w" s] unsigned_less [of w, where ?'a = nat] by (simp add: with_uint32_def)

lemma length_padding [simp]: "length (padding n) = n"
  by (simp add: padding_def)

lemma padding_counts: "n < 8 \<Longrightarrow> openssh_pad n = padding n"
proof -
  assume "n < 8"
  then have "n \<in> {0, 1, 2, 3, 4, 5, 6, 7}" by auto
  then show ?thesis by (elim insertE) (simp_all add: padding_def openssh_pad_def upt_rec)
qed

lemma length_algo [simp]: "length KeyAlgoED25519 = 11"
  by (simp add: KeyAlgoED25519_def)

lemmas wire_simps = with_string_enc with_string_last with_uint32_enc wire_ok_def pk1_def
declare wire_encode.simps(1,2) [simp del]

lemma length_pk1: "wire_ok Marshal \<Longrightarrow> length (Marshal (pk1 ci pub key pad)) = 35 + length pub + length key + length pad"
  by (simp add: wire_simps)

lemma Public_key: "length key = 64 \<Longrightarrow> Public key = Ret (drop 32 key)"
  by (simp add: Public_def)

lemma read_private_block_written:
  assumes "wire_ok Marshal" "length pub + length key < 2 ^ 16" "(35 + length pub + length key + n) mod 8 = 0" "n < 8"
  shows "read_private_block (Marshal (pk1 ci pub key (padding n))) = Ret (Some (pub, key))"
  using assms length_pk1 [OF assms(1), of ci pub key "padding n"]
  by (simp add: read_private_block_def) (simp add: wire_simps padding_counts)

lemma public_prefix:
  "length pub = 32 \<Longrightarrow> map char_of [0, 0, 0, 11 :: nat] @ KeyAlgoED25519 @ map char_of [0, 0, 0, 32 :: nat] @ pub
     = wire_encode (WString KeyAlgoED25519) @ wire_encode (WString pub)"
  by (simp add: wire_encode.simps enc32_def)

lemma read_public_key_written:
  "length pub = 32 \<Longrightarrow> read_public_key (wire_encode (WString KeyAlgoED25519) @ wire_encode (WString pub)) = Ret (Some pub)"
  by (simp add: read_public_key_def wire_simps)

text \<open>
  C36: A generated host key can be read back: whatever the check number, a reader of the OpenSSH format that checks the padding, the block size
  and the repeated check number returns the private key, and its public half in both places where the format has it.
\<close>

theorem host_key_reads_back:
  assumes "wire_ok Marshal" "length key = 64"
  shows "outcome_bind (MarshalED25519PrivateKey Marshal ci key) read_openssh_key = Ret (Some (drop 32 key, drop 32 key, key))"
proof -
  let ?pub = "drop 32 key" and ?magic = "''openssh-key-v1'' @ [char_of (0 :: nat)]"
  let ?blob = "wire_encode (WString KeyAlgoED25519) @ wire_encode (WString ?pub)"
  let ?n = "(8 - 131 mod 8) mod 8 :: nat"
  let ?block = "Marshal (pk1 ci ?pub key (padding ?n))"
  have block: "read_private_block ?block = Ret (Some (?pub, key))" and len: "length ?block = 136"
    using assms by (simp_all add: read_private_block_written length_pk1)
  have "MarshalED25519PrivateKey Marshal ci key
      = Ret (?magic @ Marshal [WString ''none'', WString ''none'', WString [], WUint32 1, WString ?blob, WString ?block])"
    using assms by (simp add: MarshalED25519PrivateKey_def Public_key length_pk1 public_prefix Let_def del: list.map append_Cons)
  moreover have "read_openssh_key (?magic @ Marshal [WString ''none'', WString ''none'', WString [], WUint32 1, WString ?blob, WString ?block])
      = Ret (Some (?pub, ?pub, key))"
    using assms len block
    by (simp add: read_openssh_key_def wire_ok_def with_string_enc with_string_last with_uint32_enc read_public_key_written)
  ultimately show ?thesis by simp
qed

theorem host_key_reads_back_witness:
  "outcome_bind (MarshalED25519PrivateKey (\<lambda>fs. concat (map wire_encode fs)) 7 (replicate 64 (CHR ''k''))) read_openssh_key
     = Ret (Some (replicate 32 (CHR ''k''), replicate 32 (CHR ''k''), replicate 64 (CHR ''k'')))"
  using host_key_reads_back [of "\<lambda>fs. concat (map wire_encode fs)" "replicate 64 (CHR ''k'')" 7]
  by (simp add: wire_ok_def)

text \<open>Both generators run into a nil key when the source of randomness fails, although the first was written to ignore the error.\<close>

lemma generators_panic:
  "GenerateEd25519Pem (Inl err) Marshal ci pem = Panic SliceBounds"
  "(\<exists>err. generateRSAPrivateKey gen validate 2048 = Inl err) \<longleftrightarrow> GenerateRSAPem gen validate der pem = Panic NilDereference"
  by (auto simp: GenerateEd25519Pem_def MarshalED25519PrivateKey_def Public_def GenerateRSAPem_def encodeRSAPrivateKeyToPEM_def
      split: sum.split)

end
