(* ===== verification/InitDB.thy ===== *)
theory InitDB
  imports HostKey Directory
begin

text \<open>
  Setting up a database (\<^verbatim>\<open>pkg/initDB\<close>, \<^verbatim>\<open>cmd/initDB\<close>): the tables, the settings with a fresh host key, and the rows to try the server with.
  Creating a table and bcrypt are parameters; errors are only logged, as in the source.  What comes out is shown to be a
  directory in which every reference resolves.
\<close>

section \<open>The settings\<close>

definition initDB_InsertData :: "'db engine \<Rightarrow> 'db \<Rightarrow> string \<Rightarrow> row \<Rightarrow> goerror option \<times> 'db" where
  "initDB_InsertData E db t r = Exec E db (Insert t r)"

definition insert_logged :: "'db engine \<Rightarrow> string \<Rightarrow> row \<Rightarrow> 'db \<Rightarrow> 'db" where
  "insert_logged E t r db = snd (initDB_InsertData E db t r)"

definition InitSchema :: "('db \<Rightarrow> string \<Rightarrow> goerror option \<times> 'db) \<Rightarrow> 'db \<Rightarrow> 'db" where
  "InitSchema create db = fold (\<lambda>v db. snd (create db v)) schemas db"

definition initial_config :: "string \<Rightarrow> TerminalConfig" where
  "initial_config key = \<lparr>AssetListPageSize = [], HeaderTitle = [], HostKey = key, MaxIdleTime = 90, AssetListSortByIp = False,
     conf_PasswordAuth = True, conf_PublicKeyAuth = True, EnableSessionShare = False\<rparr>"

definition InitData ::
  "'db engine \<Rightarrow> string result \<Rightarrow> (wire_field list \<Rightarrow> string) \<Rightarrow> 32 word \<Rightarrow> (string \<Rightarrow> string \<Rightarrow> string) \<Rightarrow> 'db \<Rightarrow> 'db outcome" where
  "InitData E GenerateKey Marshal ci EncodeToMemory db =
     outcome_bind (GenerateEd25519Pem GenerateKey Marshal ci EncodeToMemory) (\<lambda>key.
       Ret (insert_logged E ''TERMINALCONF'' (RTerminalConfig (initial_config key)) db))"

section \<open>The rows to try the server with\<close>

definition HashPassword :: "(string \<Rightarrow> string result) \<Rightarrow> string \<Rightarrow> string \<times> goerror option" where
  "HashPassword GenerateFromPassword password =
     (case GenerateFromPassword password of Inl err \<Rightarrow> ([], Some err) | Inr h \<Rightarrow> (h, None))"

definition test_secret :: "string \<Rightarrow> string \<Rightarrow> UserSecret" where
  "test_secret userID pass = \<lparr>secret_UserID = userID, secret_Password = pass, secret_PrivateKey = [], AuthorizedKeys = Some [[]]\<rparr>"

definition test_rick :: User where
  "test_rick = \<lparr>user_ID = ''2'', Username = ''rick'', Role = ''user'', user_ExpireAt = 0, OTPLevel = 0, user_IsActive = True,
     NodeIDs = [''1'', ''2'', ''10'', ''59''], AddrWhiteList = None\<rparr>"

definition test_admin :: User where
  "test_admin = \<lparr>user_ID = ''1'', Username = ''admin'', Role = ''admin'', user_ExpireAt = 0, OTPLevel = 0, user_IsActive = True,
     NodeIDs = [], AddrWhiteList = Some [''127.0.0.1'']\<rparr>"

definition test_jack :: User where
  "test_jack = \<lparr>user_ID = ''3'', Username = ''jack'', Role = ''admin'', user_ExpireAt = 1672216237, OTPLevel = 0, user_IsActive = True,
     NodeIDs = [], AddrWhiteList = None\<rparr>"

definition insertUser :: "'db engine \<Rightarrow> (string \<Rightarrow> string result) \<Rightarrow> 'db \<Rightarrow> 'db" where
  "insertUser E bcrypt db =
     (let pass = fst (HashPassword bcrypt ''123456'');
          db = insert_logged E ''USER'' (RUser test_rick) db;
          db = insert_logged E ''USERSECRET'' (RUserSecret (test_secret ''2'' pass)) db;
          db = insert_logged E ''USER'' (RUser test_admin) db;
          db = insert_logged E ''USERSECRET'' (RUserSecret (test_secret ''1'' pass)) db;
          db = insert_logged E ''USER'' (RUser test_jack) db
      in insert_logged E ''USERSECRET'' (RUserSecret (test_secret ''3'' pass)) db)"

definition insertNode :: "'db engine \<Rightarrow> 'db \<Rightarrow> 'db" where
  "insertNode E = insert_logged E ''NODE'' (RNode \<lparr>node_ID = ''1'', Key = ''1'', node_Name = ''Default'', AssetIDs = []\<rparr>)"

definition test_asset :: "string \<Rightarrow> string \<Rightarrow> nat \<Rightarrow> Asset" where
  "test_asset pre netprefix i =
     \<lparr>asset_ID = Itoa (int i), asset_Name = pre @ Itoa (int i), Hostname = pre @ Itoa (int i), IP = netprefix @ ''.'' @ Itoa (int i),
       Os = ''CentOS 7'', asset_Comment = [], Protocols = [''ssh/22''], Platform = ''Linux'', asset_IsActive = True\<rparr>"

definition test_grant :: "bool \<Rightarrow> nat \<Rightarrow> AssetUserInfo" where
  "test_grant needConfirm i =
     \<lparr>aui_ID = Itoa (int i), aui_UserID = ''2'', aui_AssetID = Itoa (int i), aui_ExpireAt = 0, SysUserID = [''1'', ''2''],
       EnableVscode = False, aui_NeedConfirm = needConfirm\<rparr>"

definition test_node :: "string \<Rightarrow> nat \<Rightarrow> nat \<Rightarrow> Node" where
  "test_node pre first end =
     \<lparr>node_ID = Itoa (int first), Key = ''1:'' @ Itoa (int first), node_Name = pre, AssetIDs = map (\<lambda>i. Itoa (int i)) [first..<end]\<rparr>"

definition insertAssets :: "'db engine \<Rightarrow> string \<Rightarrow> nat \<Rightarrow> nat \<Rightarrow> string \<Rightarrow> bool \<Rightarrow> 'db \<Rightarrow> 'db" where
  "insertAssets E pre first end netprefix needConfirm db =
     (let db = fold (\<lambda>i db. insert_logged E ''ASSETUSERINFO'' (RAssetUserInfo (test_grant needConfirm i))
                 (insert_logged E ''ASSET'' (RAsset (test_asset pre netprefix i)) db)) [first..<end] db
      in insert_logged E ''NODE'' (RNode (test_node pre first end)) db)"

definition test_sysuser :: "string \<Rightarrow> string \<Rightarrow> SystemUser" where
  "test_sysuser sid name = \<lparr>sys_ID = sid, sys_Username = name, Priority = 1, sys_Protocol = ''ssh'', sys_Comment = [],
     sys_Password = [], sys_PrivateKey = []\<rparr>"

definition insertSystemUser :: "'db engine \<Rightarrow> 'db \<Rightarrow> 'db" where
  "insertSystemUser E db =
     (let db = insert_logged E ''SYSTEMUSER'' (RSystemUser (test_sysuser ''1'' ''root'')) db
      in insert_logged E ''SYSTEMUSER'' (RSystemUser (test_sysuser ''2'' ''rick'')) db)"

definition InsertTestData :: "'db engine \<Rightarrow> (string \<Rightarrow> string result) \<Rightarrow> 'db \<Rightarrow> 'db" where
  "InsertTestData E bcrypt db =
     (let db = insertAssets E ''localhost'' 1 2 ''127.0.0'' False db;
          db = insertAssets E ''elastic'' 2 9 ''192.168.0'' True db;
          db = insertAssets E ''k8s'' 10 58 ''192.168.1'' True db;
          db = insertAssets E ''hadoop'' 59 158 ''192.168.2'' True db
      in insertSystemUser E (insertNode E (insertUser E bcrypt db)))"

definition init_main ::
  "'db engine \<Rightarrow> ('db \<Rightarrow> string \<Rightarrow> goerror option \<times> 'db) \<Rightarrow> string result \<Rightarrow> (wire_field list \<Rightarrow> string) \<Rightarrow> 32 word
   \<Rightarrow> (string \<Rightarrow> string \<Rightarrow> string) \<Rightarrow> (string \<Rightarrow> string result) \<Rightarrow> 'db \<Rightarrow> 'db outcome" where
  "init_main E create GenerateKey Marshal ci EncodeToMemory bcrypt db =
     outcome_bind (InitData E GenerateKey Marshal ci EncodeToMemory (InitSchema create db)) (\<lambda>db. Ret (InsertTestData E bcrypt db))"

section \<open>The tables afterwards\<close>

definition create_ok :: "('db \<Rightarrow> string \<Rightarrow> goerror option \<times> 'db) \<Rightarrow> ('db \<Rightarrow> string \<Rightarrow> row list) \<Rightarrow> bool" where
  "create_ok create tbl \<longleftrightarrow> (\<forall>db t. tbl (snd (create db t)) = tbl db)"

definition inserts_succeed :: "'db engine \<Rightarrow> bool" where
  "inserts_succeed E \<longleftrightarrow> (\<forall>db t r. fst (Exec E db (Insert t r)) = None)"

text \<open>Rows in one table, and that an operation appends rows to the tables.\<close>

definition rows_in :: "string \<Rightarrow> row list \<Rightarrow> string \<Rightarrow> row list" where
  "rows_in t rs = (\<lambda>t'. if t' = t then rs else [])"

definition appends :: "('db \<Rightarrow> string \<Rightarrow> row list) \<Rightarrow> ('db \<Rightarrow> 'db) \<Rightarrow> (string \<Rightarrow> row list) \<Rightarrow> bool" where
  "appends tbl f rows \<longleftrightarrow> (\<forall>db t. tbl (f db) t = tbl db t @ rows t)"

lemma appends_comp: "appends tbl f r \<Longrightarrow> appends tbl g r' \<Longrightarrow> appends tbl (\<lambda>db. g (f db)) (\<lambda>t. r t @ r' t)"
  by (simp add: appends_def)

lemma appends_fold: "(\<And>x. appends tbl (f x) (r x)) \<Longrightarrow> appends tbl (fold f xs) (\<lambda>t. concat (map (\<lambda>x. r x t) xs))"
  by (induction xs) (simp_all add: appends_def)

lemma appends_insert:
  assumes "engine_ok E tbl" "inserts_succeed E"
  shows "appends tbl (insert_logged E t r) (rows_in t [r])"
  using assms engine_insert [OF assms(1), of _ t r "snd (Exec E _ (Insert t r))"]
  by (simp add: insert_logged_def initDB_InsertData_def inserts_succeed_def prod_eq_iff appends_def rows_in_def)

lemma tbl_InitSchema: "create_ok create tbl \<Longrightarrow> tbl (InitSchema create db) = tbl db"
proof -
  assume "create_ok create tbl"
  then have "tbl (fold (\<lambda>v db. snd (create db v)) vs db) = tbl db" for vs
    by (induction vs arbitrary: db) (auto simp: create_ok_def)
  then show ?thesis by (simp add: InitSchema_def)
qed

definition asset_rows :: "string \<Rightarrow> nat \<Rightarrow> nat \<Rightarrow> string \<Rightarrow> bool \<Rightarrow> string \<Rightarrow> row list" where
  "asset_rows pre first end net conf t =
     rows_in ''ASSET'' (map (RAsset \<circ> test_asset pre net) [first..<end]) t
     @ rows_in ''ASSETUSERINFO'' (map (RAssetUserInfo \<circ> test_grant conf) [first..<end]) t
     @ rows_in ''NODE'' [RNode (test_node pre first end)] t"

lemma appends_insertAssets:
  assumes "engine_ok E tbl" "inserts_succeed E"
  shows "appends tbl (insertAssets E pre first end net conf) (asset_rows pre first end net conf)"
proof -
  have rows: "concat (map (\<lambda>i. rows_in ''ASSET'' [RAsset (test_asset pre net i)] t @ rows_in ''ASSETUSERINFO'' [RAssetUserInfo (test_grant conf i)] t) xs)
      = rows_in ''ASSET'' (map (RAsset \<circ> test_asset pre net) xs) t
        @ rows_in ''ASSETUSERINFO'' (map (RAssetUserInfo \<circ> test_grant conf) xs) t" for xs t
    by (induction xs) (simp_all add: rows_in_def)
  have "appends tbl (fold (\<lambda>i db. insert_logged E ''ASSETUSERINFO'' (RAssetUserInfo (test_grant conf i))
        (insert_logged E ''ASSET'' (RAsset (test_asset pre net i)) db)) [first..<end])
      (\<lambda>t. rows_in ''ASSET'' (map (RAsset \<circ> test_asset pre net) [first..<end]) t
        @ rows_in ''ASSETUSERINFO'' (map (RAssetUserInfo \<circ> test_grant conf) [first..<end]) t)" (is "appends tbl ?loop ?rows")
    unfolding rows [symmetric] by (intro appends_fold appends_comp appends_insert assms)
  from appends_comp [OF this appends_insert [OF assms, of "''NODE''" "RNode (test_node pre first end)"]]
  have "appends tbl (\<lambda>db. insert_logged E ''NODE'' (RNode (test_node pre first end)) (?loop db)) (asset_rows pre first end net conf)"
    by (simp add: asset_rows_def [abs_def])
  then show ?thesis by (simp add: insertAssets_def [abs_def] Let_def)
qed

text \<open>The numbers of the assets, with the prefix of their name and net and whether they need a confirmation.\<close>

definition test_ranges :: "(string \<times> nat \<times> nat \<times> string \<times> bool) list" where
  "test_ranges = [(''localhost'', 1, 2, ''127.0.0'', False), (''elastic'', 2, 9, ''192.168.0'', True),
     (''k8s'', 10, 58, ''192.168.1'', True), (''hadoop'', 59, 158, ''192.168.2'', True)]"

definition test_tables :: "string \<Rightarrow> string \<Rightarrow> row list" where
  "test_tables pass =
     (\<lambda>_. [])(''ASSET'' := concat (map (\<lambda>(p, a, b, net, c). map (RAsset \<circ> test_asset p net) [a..<b]) test_ranges),
       ''ASSETUSERINFO'' := concat (map (\<lambda>(p, a, b, net, c). map (RAssetUserInfo \<circ> test_grant c) [a..<b]) test_ranges),
       ''NODE'' := map (\<lambda>(p, a, b, net, c). RNode (test_node p a b)) test_ranges
         @ [RNode \<lparr>node_ID = ''1'', Key = ''1'', node_Name = ''Default'', AssetIDs = []\<rparr>],
       ''USER'' := [RUser test_rick, RUser test_admin, RUser test_jack],
       ''USERSECRET'' := map (\<lambda>u. RUserSecret (test_secret u pass)) [''2'', ''1'', ''3''],
       ''SYSTEMUSER'' := [RSystemUser (test_sysuser ''1'' ''root''), RSystemUser (test_sysuser ''2'' ''rick'')])"

lemma tbl_InsertTestData:
  assumes "engine_ok E tbl" "inserts_succeed E"
  shows "tbl (InsertTestData E bcrypt db) t = tbl db t @ test_tables (fst (HashPassword bcrypt ''123456'')) t"
proof -
  note app = appends_insert [OF assms, unfolded appends_def, rule_format] appends_insertAssets [OF assms, unfolded appends_def, rule_format]
  show ?thesis
    unfolding InsertTestData_def insertUser_def insertNode_def insertSystemUser_def Let_def app append_assoc
    by (simp add: asset_rows_def rows_in_def test_tables_def test_ranges_def del: upt_Suc upt_rec_numeral)
qed

section \<open>Every reference resolves\<close>

definition has_row :: "(string \<Rightarrow> row list) \<Rightarrow> string \<Rightarrow> string \<Rightarrow> string \<Rightarrow> bool" where
  "has_row tables t c v = list_ex (\<lambda>r. column r c = Some (VStr v)) (tables t)"

fun row_resolves :: "(string \<Rightarrow> row list) \<Rightarrow> row \<Rightarrow> bool" where
  "row_resolves tables (RAssetUserInfo i) =
     (has_row tables ''USER'' ''id'' (aui_UserID i) \<and> has_row tables ''ASSET'' ''id'' (aui_AssetID i)
      \<and> list_all (has_row tables ''SYSTEMUSER'' ''id'') (SysUserID i))"
| "row_resolves tables (RNode n) = list_all (has_row tables ''ASSET'' ''id'') (AssetIDs n)"
| "row_resolves tables (RUser u) =
     (list_all (has_row tables ''NODE'' ''id'') (NodeIDs u) \<and> has_row tables ''USERSECRET'' ''userid'' (user_ID u))"
| "row_resolves tables (RUserSecret s) = has_row tables ''USER'' ''id'' (secret_UserID s)"
| "row_resolves tables _ = True"

definition references_ok :: "(string \<Rightarrow> row list) \<Rightarrow> bool" where
  "references_ok tables \<longleftrightarrow> list_all (\<lambda>t. list_all (row_resolves tables) (tables t)) schemas"

lemma has_test_asset:
  assumes "(p, a, b, net, c) \<in> set test_ranges" "a \<le> i" "i < b"
  shows "has_row (test_tables pass) ''ASSET'' ''id'' (Itoa (int i))"
  unfolding has_row_def list_ex_iff
proof (rule bexI)
  show "column (RAsset (test_asset p net i)) ''id'' = Some (VStr (Itoa (int i)))" by (simp add: test_asset_def)
  from assms show "RAsset (test_asset p net i) \<in> set (test_tables pass ''ASSET'')" by (force simp: test_tables_def)
qed

lemma has_test_ids:
  "list_all (has_row (test_tables pass) ''USER'' ''id'') [''1'', ''2'', ''3'']"
  "list_all (has_row (test_tables pass) ''SYSTEMUSER'' ''id'') [''1'', ''2'']"
  "list_all (has_row (test_tables pass) ''USERSECRET'' ''userid'') [''1'', ''2'', ''3'']"
  by (simp_all add: has_row_def test_tables_def test_rick_def test_admin_def test_jack_def test_sysuser_def test_secret_def)

lemma test_node_ids: "map (\<lambda>i. Itoa (int i)) [1, 2, 10, 59] = [''1'', ''2'', ''10'', ''59'']"
  by code_simp

lemma has_test_nodes: "list_all (has_row (test_tables pass) ''NODE'' ''id'') [''1'', ''2'', ''10'', ''59'']"
  unfolding test_node_ids [symmetric]
  by (simp add: has_row_def test_tables_def test_ranges_def test_node_def del: upt_Suc upt_rec_numeral)

lemma test_grants_resolve: "list_all (row_resolves (test_tables pass)) (test_tables pass ''ASSETUSERINFO'')"
proof -
  have "row_resolves (test_tables pass) (RAssetUserInfo (test_grant c i))" if "(p, a, b, net, c) \<in> set test_ranges" "a \<le> i" "i < b" for p a b net c i
    using that has_test_ids [of pass] by (auto simp: test_grant_def has_test_asset)
  then show ?thesis by (force simp: list_all_iff test_tables_def)
qed

lemma test_nodes_resolve: "list_all (row_resolves (test_tables pass)) (test_tables pass ''NODE'')"
proof -
  have "row_resolves (test_tables pass) (RNode (test_node p a b))" if "(p, a, b, net, c) \<in> set test_ranges" for p a b net c
    using that by (auto simp: test_node_def list_all_iff has_test_asset)
  then show ?thesis by (force simp: list_all_iff test_tables_def)
qed

lemma test_user_tables:
  "test_tables pass ''USER'' = [RUser test_rick, RUser test_admin, RUser test_jack]"
  "test_tables pass ''USERSECRET'' = map (\<lambda>u. RUserSecret (test_secret u pass)) [''2'', ''1'', ''3'']"
  by (simp_all add: test_tables_def)

lemma test_users_resolve:
  "list_all (row_resolves (test_tables pass)) (test_tables pass ''USER'')"
  "list_all (row_resolves (test_tables pass)) (test_tables pass ''USERSECRET'')"
  using has_test_ids [of pass] has_test_nodes [of pass]
  by (simp_all add: test_user_tables test_rick_def test_admin_def test_jack_def test_secret_def)

lemma test_assets_resolve: "list_all (row_resolves tables) (test_tables pass ''ASSET'')"
proof -
  have "test_tables pass ''ASSET'' = concat (map (\<lambda>(p, a, b, net, c). map (RAsset \<circ> test_asset p net) [a..<b]) test_ranges)"
    by (simp add: test_tables_def)
  then show ?thesis by (auto simp: list_all_iff)
qed

lemma test_other_tables:
  "test_tables pass ''TERMINALCONF'' = []" "test_tables pass ''USERLOG'' = []" "test_tables pass ''LOGINTICKET'' = []"
  "test_tables pass ''SYSTEMUSER'' = [RSystemUser (test_sysuser ''1'' ''root''), RSystemUser (test_sysuser ''2'' ''rick'')]"
  by (simp_all add: test_tables_def)

lemmas test_tables_resolve = test_assets_resolve test_users_resolve test_nodes_resolve test_grants_resolve

lemma row_resolves_more:
  assumes "row_resolves tables r" "\<And>t. set (tables t) \<subseteq> set (tables' t)"
  shows "row_resolves tables' r"
proof -
  have "has_row tables t c v \<Longrightarrow> has_row tables' t c v" for t c v
    using assms(2) by (force simp: has_row_def list_ex_iff)
  with assms(1) show ?thesis by (cases r) (auto simp: list_all_iff)
qed

lemma test_references_ok:
  assumes "\<And>t. tables t = rows_in ''TERMINALCONF'' [RTerminalConfig conf] t @ test_tables pass t"
  shows "references_ok tables"
proof -
  have "row_resolves tables r" if "row_resolves (test_tables pass) r" for r
    using that by (rule row_resolves_more) (simp add: assms)
  then have "list_all (row_resolves tables) rs" if "list_all (row_resolves (test_tables pass)) rs" for rs
    using that by (simp add: list_all_iff)
  then show ?thesis
    using test_tables_resolve [where pass = pass]
    by (simp add: references_ok_def schemas_def assms rows_in_def test_other_tables)
qed

lemma init_main_tables:
  assumes "engine_ok E tbl" "inserts_succeed E" "create_ok create tbl" "\<And>t. tbl db t = []" "length key = 64"
  shows "\<exists>db' pem. init_main E create (Inr key) Marshal ci EncodeToMemory bcrypt db = Ret db'
     \<and> GenerateEd25519Pem (Inr key) Marshal ci EncodeToMemory = Ret pem
     \<and> (\<forall>t. tbl db' t = rows_in ''TERMINALCONF'' [RTerminalConfig (initial_config pem)] t @ test_tables (fst (HashPassword bcrypt ''123456'')) t)"
proof -
  let ?db = "InitSchema create db"
  obtain pem where pem: "GenerateEd25519Pem (Inr key) Marshal ci EncodeToMemory = Ret pem"
    using assms(5) by (simp add: GenerateEd25519Pem_def MarshalED25519PrivateKey_def Public_key Let_def)
  let ?conf = "insert_logged E ''TERMINALCONF'' (RTerminalConfig (initial_config pem)) ?db"
  let ?pass = "fst (HashPassword bcrypt ''123456'')"
  have tables: "tbl (InsertTestData E bcrypt ?conf) t
      = rows_in ''TERMINALCONF'' [RTerminalConfig (initial_config pem)] t @ test_tables ?pass t" for t
    using assms(4) tbl_InitSchema [OF assms(3), of db] appends_insert [OF assms(1,2)]
    by (simp add: tbl_InsertTestData [OF assms(1,2)] appends_def)
  have "init_main E create (Inr key) Marshal ci EncodeToMemory bcrypt db = Ret (InsertTestData E bcrypt ?conf)"
    by (simp add: init_main_def InitData_def pem)
  with pem tables show ?thesis by blast
qed



text \<open>The default node gets an id that the first group of assets already has.\<close>

lemma default_node_id_taken:
  "map (\<lambda>r. column r ''id'') (test_tables pass ''NODE'') ! 0 = map (\<lambda>r. column r ''id'') (test_tables pass ''NODE'') ! 4"
proof -
  have "Itoa (int 1) = ''1''" by code_simp
  then show ?thesis by (simp add: test_tables_def test_ranges_def test_node_def del: upt_Suc upt_rec_numeral)
qed

end
