(* ===== verification/Logging.thy ===== *)
theory Logging
  imports Core
begin

text \<open>
  The loggers (\<^verbatim>\<open>pkg/log/logger.go\<close>): where each level writes to, depending on the log file and the configured level.
\<close>

datatype sink = Stdout | Stderr | File nat

text \<open>The output of a logger: the list of sinks; the empty list is \<^verbatim>\<open>io.Discard\<close>.\<close>

record loggers =
  Debug :: "sink list"
  Info :: "sink list"
  Warning :: "sink list"
  Error :: "sink list"
  Fatal :: "sink list"
  log_LogFile :: "nat option"

definition init_loggers :: loggers where
  "init_loggers = \<lparr>Debug = [Stdout], Info = [Stdout], Warning = [Stdout], Error = [Stderr], Fatal = [Stderr], log_LogFile = None\<rparr>"

text \<open>A file that cannot be opened ends the program.\<close>

definition SetLogFile :: "(string \<Rightarrow> nat result) \<Rightarrow> string \<Rightarrow> bool \<Rightarrow> loggers \<Rightarrow> loggers outcome" where
  "SetLogFile OpenFile f fileOnly l =
     (case OpenFile f of
        Inl err \<Rightarrow> Panic (ExplicitPanic err)
      | Inr fd \<Rightarrow>
          (let ioo = (if fileOnly then [File fd] else [Stdout, File fd]);
               ioe = (if fileOnly then [File fd] else [Stderr, File fd])
           in Ret (l\<lparr>log_LogFile := Some fd, Debug := ioo, Info := ioo, Warning := ioe, Error := ioe, Fatal := ioe\<rparr>)))"

definition SetLogLevel :: "string \<Rightarrow> loggers \<Rightarrow> loggers" where
  "SetLogLevel lvl l =
     (if lvl = ''INFO'' then l\<lparr>Debug := []\<rparr>
      else if lvl = ''WARNING'' then l\<lparr>Debug := [], Info := []\<rparr>
      else if lvl = ''ERROR'' then l\<lparr>Debug := [], Info := [], Warning := []\<rparr>
      else if lvl = ''FATAL'' then l\<lparr>Debug := [], Info := [], Warning := [], Error := []\<rparr>
      else l)"

text \<open>\<^verbatim>\<open>Close\<close>: the file that is closed.\<close>

definition log_Close :: "loggers \<Rightarrow> nat option" where
  "log_Close l = log_LogFile l"

text \<open>How \<^verbatim>\<open>Run\<close> sets the loggers up from the configuration.\<close>

definition start_logging :: "(string \<Rightarrow> nat result) \<Rightarrow> Config \<Rightarrow> bool \<Rightarrow> loggers outcome" where
  "start_logging OpenFile cf isDaemon =
     outcome_bind (SetLogFile OpenFile (LogFile cf) isDaemon init_loggers) (\<lambda>l. Ret (SetLogLevel (LogLevel cf) l))"

section \<open>What is logged\<close>

datatype log_level = LevelDebug | LevelInfo | LevelWarning | LevelError | LevelFatal

fun level_rank :: "log_level \<Rightarrow> nat" where
  "level_rank LevelDebug = 0"
| "level_rank LevelInfo = 1"
| "level_rank LevelWarning = 2"
| "level_rank LevelError = 3"
| "level_rank LevelFatal = 4"

lemma level_rank_inj: "level_rank a = level_rank b \<longleftrightarrow> a = b"
  by (cases a; cases b) simp_all

text \<open>The levels in the order of their severity.\<close>

instantiation log_level :: linorder
begin

definition less_eq_log_level :: "log_level \<Rightarrow> log_level \<Rightarrow> bool" where
  "less_eq_log_level a b \<longleftrightarrow> level_rank a \<le> level_rank b"

definition less_log_level :: "log_level \<Rightarrow> log_level \<Rightarrow> bool" where
  "less_log_level a b \<longleftrightarrow> level_rank a < level_rank b"

instance
  by standard (auto simp: less_eq_log_level_def less_log_level_def level_rank_inj)

end

text \<open>The level a configured name stands for; every other name leaves all levels on.\<close>

definition configured_level :: "string \<Rightarrow> log_level" where
  "configured_level name =
     (if name = ''INFO'' then LevelInfo else if name = ''WARNING'' then LevelWarning
      else if name = ''ERROR'' then LevelError else if name = ''FATAL'' then LevelFatal else LevelDebug)"

fun level_output :: "loggers \<Rightarrow> log_level \<Rightarrow> sink list" where
  "level_output l LevelDebug = Debug l"
| "level_output l LevelInfo = Info l"
| "level_output l LevelWarning = Warning l"
| "level_output l LevelError = Error l"
| "level_output l LevelFatal = Fatal l"

text \<open>
  After the start a level is written to the log file exactly when it is at least the configured one; a level below it is written nowhere,
  and a daemon writes nowhere else.
\<close>

theorem logging_levels:
  assumes "OpenFile (LogFile cf) = Inr fd" "start_logging OpenFile cf isDaemon = Ret l"
  shows "(File fd \<in> set (level_output l lvl) \<longleftrightarrow> configured_level (LogLevel cf) \<le> lvl)
    \<and> (lvl < configured_level (LogLevel cf) \<longrightarrow> level_output l lvl = [])
    \<and> (isDaemon \<longrightarrow> set (level_output l lvl) \<subseteq> {File fd})"
proof -
  have l: "l = SetLogLevel (LogLevel cf) (init_loggers\<lparr>log_LogFile := Some fd,
      Debug := (if isDaemon then [File fd] else [Stdout, File fd]), Info := (if isDaemon then [File fd] else [Stdout, File fd]),
      Warning := (if isDaemon then [File fd] else [Stderr, File fd]), Error := (if isDaemon then [File fd] else [Stderr, File fd]),
      Fatal := (if isDaemon then [File fd] else [Stderr, File fd])\<rparr>)"
    using assms by (auto simp: start_logging_def SetLogFile_def Let_def)
  show ?thesis
    unfolding l by (cases lvl) (auto simp: SetLogLevel_def configured_level_def init_loggers_def less_eq_log_level_def less_log_level_def)
qed

end
