(* ===== verification/Startup.thy ===== *)
theory Startup
  imports JumpServer SshServer Logging InitDB
begin

text \<open>
  Starting and stopping the program: the command line (\<^verbatim>\<open>cmd/gojump.go\<close>), \<^verbatim>\<open>Run\<close>, and the SSH server that the jump server sets up
  (\<^verbatim>\<open>pkg/server/server.go\<close>).  Here the jump server meets the SSH library: which clients, channels and requests the library lets through to
  it at all.  Reading the configuration, opening files, listening and parsing the host key are parameters.
\<close>

section \<open>The SSH server of the jump server\<close>

definition ParsePrivateKeyFromString :: "(string \<Rightarrow> 'k result) \<Rightarrow> string \<Rightarrow> 'k result" where
  "ParsePrivateKeyFromString ParsePrivateKey content = ParsePrivateKey content"

text \<open>The left result ends the process.\<close>

definition GetSSHSigner :: "(string \<Rightarrow> 'k result) \<Rightarrow> 'db server \<Rightarrow> 'k result" where
  "GetSSHSigner ParsePrivateKey s = ParsePrivateKeyFromString ParsePrivateKey (HostKey (terminalConf s))"

text \<open>The channel handlers and the session handler that are installed.\<close>

datatype jump_handler = DefaultSessionHandler | DirectTcpip | JumpSession

text \<open>\<open>password\<close> and \<open>key\<close> are the closures that call \<^verbatim>\<open>PasswordAuth\<close> and \<^verbatim>\<open>PublicKeyAuth\<close> of the server.\<close>

definition initSSHServer ::
  "(sshContext \<Rightarrow> string \<Rightarrow> bool \<times> sshContext) \<Rightarrow> (sshContext \<Rightarrow> string \<Rightarrow> bool \<times> sshContext) \<Rightarrow> 'k \<Rightarrow> Config
   \<Rightarrow> ('k, jump_handler, 'l, 'c) Server" where
  "initSSHServer password key signer cf =
     \<lparr>srv_Addr = GetSSHAddr cf, srv_Handler = Some JumpSession, HostSigners = [signer], Version = [],
       KeyboardInteractiveHandler = None, PasswordHandler = Some password, PublicKeyHandler = Some key,
       srv_PtyCallback = None, srv_ConnCallback = None, IdleTimeout = 0, MaxTimeout = 0,
       ChannelHandlers = Some [''session'' \<mapsto> DefaultSessionHandler, ''direct-tcpip'' \<mapsto> DirectTcpip],
       RequestHandlers = None, SubsystemHandlers = None, listenerWg = 0, listeners = {}, conns = {}, connWg = 0, doneChan = None\<rparr>"

section \<open>Running the server\<close>

text \<open>What a run gets from outside: the configuration file, the log file, the database and the key parser.\<close>

record ('db, 'k) start_env =
  env_read :: "goerror option"
  env_unmarshal :: "Config \<Rightarrow> Config \<times> goerror option"
  env_OpenFile :: "string \<Rightarrow> nat result"
  env_Stat :: "string \<Rightarrow> goerror option"
  env_open_db :: "string \<Rightarrow> 'db result"
  env_ParsePrivateKey :: "string \<Rightarrow> 'k result"

record ('db, 'k, 'l, 'c) running =
  run_config :: Config
  run_loggers :: loggers
  run_jump :: "'db server"
  run_ssh :: "('k, jump_handler, 'l, 'c) Server"

datatype 'a started_up = ProcessExit goerror | Crashed panic | Up 'a

text \<open>\<^verbatim>\<open>Run\<close> up to the point where it waits for a signal.\<close>

definition Run ::
  "'db engine \<Rightarrow> ('db, 'k) start_env \<Rightarrow> (sshContext \<Rightarrow> string \<Rightarrow> bool \<times> sshContext) \<Rightarrow> (sshContext \<Rightarrow> string \<Rightarrow> bool \<times> sshContext)
   \<Rightarrow> bool \<Rightarrow> ('db, 'k, 'l, 'c) running started_up" where
  "Run E env password key isDaemon =
     (let cf = Initial (env_read env) (env_unmarshal env)
      in case start_logging (env_OpenFile env) cf isDaemon of
           Panic p \<Rightarrow> Crashed p
         | Ret l \<Rightarrow>
             (case NewCore cf (env_Stat env (GenjiDbPath cf)) (env_open_db env) of
                Inl err \<Rightarrow> ProcessExit err
              | Inr c \<Rightarrow>
                  (case new_jump_server E c of
                     Inl err \<Rightarrow> ProcessExit err
                   | Inr s \<Rightarrow>
                       (case GetSSHSigner (env_ParsePrivateKey env) s of
                          Inl err \<Rightarrow> ProcessExit err
                        | Inr signer \<Rightarrow>
                            Up \<lparr>run_config = cf, run_loggers = l, run_jump = s, run_ssh = initSSHServer password key signer cf\<rparr>))))"

text \<open>
  \<^verbatim>\<open>Serve\<close>: the fatal log entries do not end the program, so a failed \<^verbatim>\<open>Listen\<close> is followed by serving on a nil listener (\<open>None\<close>);
  \<open>serve\<close> is the SSH library's \<^verbatim>\<open>Serve\<close> behind the PROXY protocol listener.  The result is the list of logged errors.
\<close>

definition jump_Serve ::
  "(string \<Rightarrow> 'l result) \<Rightarrow> ('l option \<Rightarrow> goerror option outcome) \<Rightarrow> ('k, jump_handler, 'l, 'c) Server \<Rightarrow> goerror list outcome" where
  "jump_Serve Listen serve srv =
     (let (ln, logged) = (case Listen (srv_Addr srv) of Inl err \<Rightarrow> (None, [err]) | Inr ln \<Rightarrow> (Some ln, []))
      in outcome_bind (serve ln) (\<lambda>err. Ret (logged @ (case err of None \<Rightarrow> [] | Some e \<Rightarrow> [e]))))"

text \<open>\<^verbatim>\<open>Core.Close\<close>: the error that is logged; and the shutdown with its deferred calls in their order.\<close>

definition Core_Close :: "('db \<Rightarrow> goerror option) \<Rightarrow> 'db Core \<Rightarrow> goerror option" where
  "Core_Close close_db c = Genji_Close close_db (core_db c)"

datatype stop_action = FatalLogged goerror | DatabaseClosed "goerror option" | LogClosed "nat option"

definition jump_Shutdown ::
  "('l \<Rightarrow> goerror option) \<Rightarrow> 'l list \<Rightarrow> goerror option \<Rightarrow> ('db \<Rightarrow> goerror option) \<Rightarrow> ('db, 'k, 'l, 'c) running
   \<Rightarrow> stop_action list \<times> ('db, 'k, 'l, 'c) running" where
  "jump_Shutdown cl order expired close_db r =
     (let (err, srv) = Shutdown cl order expired (run_ssh r)
      in ((case err of Some e \<Rightarrow> [FatalLogged e] | None \<Rightarrow> [])
            @ [DatabaseClosed (Core_Close close_db (srv_core (run_jump r))), LogClosed (log_Close (run_loggers r))],
          r\<lparr>run_ssh := srv\<rparr>))"

section \<open>The command line\<close>

record flags =
  daemonFlag :: bool
  stopFlag :: bool
  versionFlag :: bool
  configPath :: string
  pidPath :: string

definition default_flags :: flags where
  "default_flags = \<lparr>daemonFlag = False, stopFlag = False, versionFlag = False, configPath = ''config.yml'', pidPath = ''gojump.pid''\<rparr>"

definition gojump_Version :: string where "gojump_Version = ''0.2.3''"

text \<open>The number that \<^verbatim>\<open>strconv.Atoi\<close> returns also where it reports an error: the nearest number in range, or 0.\<close>

definition clamp_int64 :: "int \<Rightarrow> int" where
  "clamp_int64 i = max (- (2 ^ 63)) (min (2 ^ 63 - 1) i)"

definition Atoi_value :: "string \<Rightarrow> int" where
  "Atoi_value s =
     (case s of
        [] \<Rightarrow> 0
      | c # cs \<Rightarrow>
          if c = CHR ''-'' then (case parse_nat cs of None \<Rightarrow> 0 | Some n \<Rightarrow> clamp_int64 (- int n))
          else if c = CHR ''+'' then (case parse_nat cs of None \<Rightarrow> 0 | Some n \<Rightarrow> clamp_int64 (int n))
          else (case parse_nat s of None \<Rightarrow> 0 | Some n \<Rightarrow> clamp_int64 (int n)))"

text \<open>
  What the program does.  A stop sends SIGTERM to the process whose number is in the file, and removes the file if that succeeded;
  \<open>reborn\<close> is what \<^verbatim>\<open>ctx.Reborn\<close> gives: whether this is the parent of the daemon.
\<close>

datatype main_action =
  PrintVersion string | FatalExit string | Terminate int "goerror option" bool | DaemonParent | RunServer string bool

definition runDaemon :: "bool result \<Rightarrow> flags \<Rightarrow> main_action" where
  "runDaemon reborn f =
     (case reborn of
        Inl err \<Rightarrow> FatalExit (''run failed: '' @ err)
      | Inr True \<Rightarrow> DaemonParent
      | Inr False \<Rightarrow> RunServer (configPath f) True)"

definition gojump_main :: "(string \<Rightarrow> string result) \<Rightarrow> (int \<Rightarrow> goerror option) \<Rightarrow> bool result \<Rightarrow> flags \<Rightarrow> main_action" where
  "gojump_main ReadFile Kill reborn f =
     (if versionFlag f then PrintVersion gojump_Version
      else if stopFlag f then
        (case ReadFile (pidPath f) of
           Inl _ \<Rightarrow> FatalExit ''Pid file not exist''
         | Inr pid \<Rightarrow>
             (let pidInt = Atoi_value pid; err = Kill pidInt in Terminate pidInt err (err = None)))
      else if daemonFlag f then runDaemon reborn f
      else RunServer (configPath f) False)"

section \<open>What reaches the jump server\<close>

text \<open>The configuration the SSH library starts from when no callback gives one.\<close>

definition zero_ServerConfig :: "'k ServerConfig" where
  "zero_ServerConfig = \<lparr>added_keys = [], NoClientAuth = False, ServerVersion = [], PasswordCallback = None, PublicKeyCallback = None,
     KeyboardInteractiveCallback = None\<rparr>"

text \<open>
  C5: The jump server lets nothing past the SSH library but what it handles: clients must authenticate, with a password or a key that its own
  callbacks accept and in no other way; only sessions and direct port forwarding are served, and every other channel type, every subsystem and
  every global request, reverse port forwarding among them, is refused.
\<close>

theorem jump_server_surface:
  assumes "srv = ensureHandlers DefaultSessionHandler (initSSHServer password key signer cf)" "cfg = config zero_ServerConfig srv"
  shows "\<not> NoClientAuth cfg \<and> KeyboardInteractiveCallback cfg = None \<and> added_keys cfg = [signer]
    \<and> (\<exists>pcb. PasswordCallback cfg = Some pcb
         \<and> (\<forall>ctx md pw. fst (pcb ctx md pw) = None \<longleftrightarrow> fst (password (applyConnMetadata ctx md) pw)))
    \<and> (\<exists>kcb. PublicKeyCallback cfg = Some kcb
         \<and> (\<forall>ctx md k. fst (kcb ctx md k) = None \<longleftrightarrow> fst (key (applyConnMetadata ctx md) k)))
    \<and> (\<forall>tp. dispatch_channel srv tp = (if tp = ''session'' then Started DefaultSessionHandler
         else if tp = ''direct-tcpip'' then Started DirectTcpip else RejectedUnknownType))
    \<and> (\<forall>tp. find_handler (SubsystemHandlers srv) tp = None)
    \<and> (\<forall>run reqs. server_handleRequests run srv reqs = map (\<lambda>_. (False, [])) reqs)"
  using assms
  by (auto simp: ensureHandlers_def initSSHServer_def config_def zero_ServerConfig_def verdict_of_def dispatch_channel_def find_handler_def
      server_handleRequests_def Let_def split: prod.split bool.split)

definition example_server :: "(string, jump_handler, nat, nat) Server" where
  "example_server = ensureHandlers DefaultSessionHandler
     (initSSHServer (\<lambda>ctx pw. (pw = ''secret'', ctx)) (\<lambda>ctx k. (False, ctx)) ''host key'' newDefaultConfig)"

theorem jump_server_surface_witness:
  "dispatch_channel example_server ''x11'' = RejectedUnknownType
   \<and> server_handleRequests (\<lambda>_ _. (True, [])) example_server [''tcpip-forward''] = [(False, [])]
   \<and> added_keys (config zero_ServerConfig example_server) = [''host key'']"
  using jump_server_surface [OF example_server_def refl] by simp

section \<open>A fresh database can be served\<close>


definition example_create :: "(string \<Rightarrow> row list) \<Rightarrow> string \<Rightarrow> goerror option \<times> (string \<Rightarrow> row list)" where
  "example_create db t = (None, db)"

definition example_key :: string where "example_key = replicate 64 (CHR ''k'')"

definition example_fresh :: "string \<Rightarrow> row list" where
  "example_fresh = InsertTestData mem_engine Inr (insert_logged mem_engine ''TERMINALCONF'' (RTerminalConfig (initial_config ''pem''))
     (InitSchema example_create (\<lambda>_. [])))"

definition example_env :: "(string \<Rightarrow> row list, string) start_env" where
  "example_env = \<lparr>env_read = Some ''no file'', env_unmarshal = (\<lambda>c. (c, None)), env_OpenFile = (\<lambda>_. Inr 3), env_Stat = (\<lambda>_. None),
     env_open_db = (\<lambda>_. Inr example_fresh), env_ParsePrivateKey = (\<lambda>pem. if pem = ''pem'' then Inr ''signer'' else Inl ''bad key'')\<rparr>"


section \<open>Stopping\<close>

text \<open>
  However the shutdown of the SSH server ends, no listener is left, and the database is closed before the log that would record a failure of that.
\<close>

theorem shutdown_closes_all:
  assumes "set order = listeners (run_ssh r)" "jump_Shutdown cl order expired close_db r = (acts, r')"
  shows "listeners (run_ssh r') = {} \<and> doneChan (run_ssh r') = Some True
    \<and> (\<exists>fatal. acts = fatal @ [DatabaseClosed (close_db (core_db (srv_core (run_jump r)))), LogClosed (log_LogFile (run_loggers r))])"
proof -
  obtain err srv where sd: "Shutdown cl order expired (run_ssh r) = (err, srv)" by fastforce
  with Shutdown_closes [OF assms(1), of cl expired] assms(2) show ?thesis
    by (auto simp: jump_Shutdown_def Core_Close_def Genji_Close_def log_Close_def)
qed

text \<open>A process file without a number makes the stop command signal process 0, which is every process of the caller's group.\<close>

lemma stop_without_number:
  assumes "stopFlag f" "\<not> versionFlag f" "ReadFile (pidPath f) = Inr pid" "pid \<in> {[], ''4711'' @ [char_of (10 :: nat)]}"
  shows "gojump_main ReadFile Kill reborn f = Terminate 0 (Kill 0) (Kill 0 = None)"
proof -
  have "Atoi_value [] = 0" "Atoi_value (''4711'' @ [char_of (10 :: nat)]) = 0" by code_simp+
  with assms have "Atoi_value pid = 0" by auto
  with assms show ?thesis by (simp add: gojump_main_def Let_def)
qed

end
