(* ===== verification/Gateway.thy ===== *)
theory Gateway
  imports SrvConn
begin

text \<open>
  The SSH client of the server package (\<^verbatim>\<open>pkg/server/sshConn.go\<close>), a variant of the one of \<^verbatim>\<open>pkg/srvconn\<close> that can reach a host through gateways:
  the options of a client may list clients to go through, each with gateways of its own.  The network is a parameter; what is
  open is kept track of, so that nothing is left open by a connection that fails.
\<close>

section \<open>Options\<close>

text \<open>The fields shared with \<^verbatim>\<open>pkg/srvconn\<close> are those of its record; the proxies come on top.\<close>

datatype 's gw_options = GwOptions (gw_base: "'s SSHClientOptions") (gw_proxies: "'s gw_options list")

type_synonym 's gw_option = "'s gw_options \<Rightarrow> 's gw_options"

definition on_base :: "('s SSHClientOptions \<Rightarrow> 's SSHClientOptions) \<Rightarrow> 's gw_option" where
  "on_base f opts = GwOptions (f (gw_base opts)) (gw_proxies opts)"

definition gw_SSHClientUsername :: "string \<Rightarrow> 's gw_option" where
  "gw_SSHClientUsername username = on_base (opt_Username_update (\<lambda>_. username))"

definition gw_SSHClientPassword :: "string \<Rightarrow> 's gw_option" where
  "gw_SSHClientPassword password = on_base (opt_Password_update (\<lambda>_. password))"

definition gw_SSHClientPrivateKey :: "string \<Rightarrow> 's gw_option" where
  "gw_SSHClientPrivateKey privateKey = on_base (opt_PrivateKey_update (\<lambda>_. privateKey))"

definition gw_SSHClientPassphrase :: "string \<Rightarrow> 's gw_option" where
  "gw_SSHClientPassphrase passphrase = on_base (opt_Passphrase_update (\<lambda>_. passphrase))"

definition gw_SSHClientHost :: "string \<Rightarrow> 's gw_option" where
  "gw_SSHClientHost host = on_base (opt_Host_update (\<lambda>_. host))"

definition gw_SSHClientPort :: "int \<Rightarrow> 's gw_option" where
  "gw_SSHClientPort port = on_base (opt_Port_update (\<lambda>_. Itoa port))"

definition gw_SSHClientTimeout :: "int \<Rightarrow> 's gw_option" where
  "gw_SSHClientTimeout timeout = on_base (opt_Timeout_update (\<lambda>_. timeout))"

definition gw_SSHClientPrivateAuth :: "'s \<Rightarrow> 's gw_option" where
  "gw_SSHClientPrivateAuth privateAuth = on_base (PrivateAuth_update (\<lambda>_. Some privateAuth))"

definition gw_SSHClientKeyboardAuth :: "challenge \<Rightarrow> 's gw_option" where
  "gw_SSHClientKeyboardAuth kb = on_base (keyboardAuth_update (\<lambda>_. Some kb))"

definition SSHClientProxyClient :: "'s gw_options list \<Rightarrow> 's gw_option" where
  "SSHClientProxyClient proxyArgs opts = GwOptions (gw_base opts) proxyArgs"

section \<open>Connecting\<close>

text \<open>
  The calls into the network: dialling a host directly, or through the connection of a gateway, and the handshake on a connection.  \<open>net\<close> gives the
  error of the n-th call.  A connection that opens has the number of the call that opened it.
\<close>

datatype 's gw_call = GwDial string "'s ClientConfig" | GwThrough nat string | GwHandshake nat string "'s ClientConfig"

record gw_world =
  gw_calls :: nat
  gw_open :: "nat set"

definition net_call :: "(nat \<Rightarrow> 's gw_call \<Rightarrow> goerror option) \<Rightarrow> 's gw_call \<Rightarrow> gw_world \<Rightarrow> goerror option \<times> gw_world" where
  "net_call net call w = (net (gw_calls w) call, w\<lparr>gw_calls := Suc (gw_calls w)\<rparr>)"

definition net_open :: "(nat \<Rightarrow> 's gw_call \<Rightarrow> goerror option) \<Rightarrow> 's gw_call \<Rightarrow> gw_world \<Rightarrow> nat result \<times> gw_world" where
  "net_open net call w =
     (case net_call net call w of
        (Some err, w') \<Rightarrow> (Inl err, w')
      | (None, w') \<Rightarrow> (Inr (gw_calls w), w'\<lparr>gw_open := insert (gw_calls w) (gw_open w)\<rparr>))"

definition close_conn :: "nat \<Rightarrow> gw_world \<Rightarrow> gw_world" where
  "close_conn c w = w\<lparr>gw_open := gw_open w - {c}\<rparr>"

datatype 's gw_client = GwClient (gwc_Cfg: "'s gw_options") (gwc_conn: nat) (gwc_ProxyClient: "'s gw_client option")

definition gw_String :: "'s gw_client \<Rightarrow> string" where
  "gw_String s = (let b = gw_base (gwc_Cfg s) in opt_Username b @ ''@'' @ opt_Host b @ '':'' @ opt_Port b)"

fun gw_Close :: "'s gw_client \<Rightarrow> gw_world \<Rightarrow> gw_world" where
  "gw_Close (GwClient cfg c None) w = close_conn c w"
| "gw_Close (GwClient cfg c (Some p)) w = close_conn c (gw_Close p w)"

definition ErrNoAvailable :: goerror where "ErrNoAvailable = ''no available gateway''"
definition ErrGatewayDial :: goerror where "ErrGatewayDial = ''gateway dial addr failed''"
definition ErrSSHClient :: goerror where "ErrSSHClient = ''new ssh client failed''"

text \<open>Two functions that this package repeats from the other line by line.\<close>

definition gw_AuthMethods ::
  "(string \<Rightarrow> string \<Rightarrow> 's option) \<Rightarrow> (string \<Rightarrow> 's option) \<Rightarrow> 's SSHClientOptions \<Rightarrow> 's auth_method list \<times> 's SSHClientOptions" where
  "gw_AuthMethods = AuthMethods"

definition gw_createSSHConfig :: "ssh_config \<Rightarrow> ssh_config" where
  "gw_createSSHConfig = createSSHConfig"

definition gw_ClientConfig :: "'s auth_method list \<Rightarrow> 's SSHClientOptions \<Rightarrow> 's ClientConfig" where
  "gw_ClientConfig methods b = \<lparr>cc_User = opt_Username b, cc_Auth = methods, cc_Timeout = opt_Timeout b * 1000000000, cc_Config = gw_createSSHConfig\<rparr>"

text \<open>
  The last two cases of a connection through a gateway are in \<open>through_proxy\<close>.
\<close>

definition through_proxy ::
  "(nat \<Rightarrow> 's gw_call \<Rightarrow> goerror option) \<Rightarrow> 's gw_options \<Rightarrow> string \<Rightarrow> 's ClientConfig \<Rightarrow> 's gw_client \<Rightarrow> gw_world
   \<Rightarrow> 's gw_client result \<times> gw_world" where
  "through_proxy net cfg destAddr gosshCfg proxyClient w =
     (case net_open net (GwThrough (gwc_conn proxyClient) destAddr) w of
        (Inl err, w) \<Rightarrow> (Inl (ErrGatewayDial @ '': '' @ err), gw_Close proxyClient w)
      | (Inr destConn, w) \<Rightarrow>
          (case net_call net (GwHandshake destConn destAddr gosshCfg) w of
             (Some err, w) \<Rightarrow> (Inl (ErrSSHClient @ '': '' @ err), close_conn destConn (gw_Close proxyClient w))
           | (None, w) \<Rightarrow> (Inr (GwClient cfg destConn (Some proxyClient)), w)))"

fun gw_NewSSHClientWithCfg ::
  "(string \<Rightarrow> string \<Rightarrow> 's option) \<Rightarrow> (string \<Rightarrow> 's option) \<Rightarrow> (nat \<Rightarrow> 's gw_call \<Rightarrow> goerror option) \<Rightarrow> 's gw_options \<Rightarrow> gw_world
   \<Rightarrow> 's gw_client result \<times> gw_world"
and getAvailableProxyClient ::
  "(string \<Rightarrow> string \<Rightarrow> 's option) \<Rightarrow> (string \<Rightarrow> 's option) \<Rightarrow> (nat \<Rightarrow> 's gw_call \<Rightarrow> goerror option) \<Rightarrow> 's gw_options list \<Rightarrow> gw_world
   \<Rightarrow> 's gw_client result \<times> gw_world" where
  "gw_NewSSHClientWithCfg parse_pass parse_plain net (GwOptions b proxies) w =
     (let (methods, b) = gw_AuthMethods parse_pass parse_plain b;
          cfg = GwOptions b proxies;
          gosshCfg = gw_ClientConfig methods b;
          destAddr = JoinHostPort (opt_Host b) (opt_Port b)
      in if length proxies > 0 then
           (case getAvailableProxyClient parse_pass parse_plain net proxies w of
              (Inl err, w) \<Rightarrow> (Inl err, w)
            | (Inr proxyClient, w) \<Rightarrow> through_proxy net cfg destAddr gosshCfg proxyClient w)
         else
           (case net_open net (GwDial destAddr gosshCfg) w of
              (Inl err, w) \<Rightarrow> (Inl err, w)
            | (Inr c, w) \<Rightarrow> (Inr (GwClient cfg c None), w)))"
| "getAvailableProxyClient parse_pass parse_plain net [] w = (Inl ErrNoAvailable, w)"
| "getAvailableProxyClient parse_pass parse_plain net (cfg # cfgs) w =
     (case gw_NewSSHClientWithCfg parse_pass parse_plain net cfg w of
        (Inr proxyClient, w) \<Rightarrow> (Inr proxyClient, w)
      | (Inl _, w) \<Rightarrow> getAvailableProxyClient parse_pass parse_plain net cfgs w)"

definition gw_NewSSHClient ::
  "(string \<Rightarrow> string \<Rightarrow> 's option) \<Rightarrow> (string \<Rightarrow> 's option) \<Rightarrow> (nat \<Rightarrow> 's gw_call \<Rightarrow> goerror option) \<Rightarrow> 's gw_option list \<Rightarrow> gw_world
   \<Rightarrow> 's gw_client result \<times> gw_world" where
  "gw_NewSSHClient parse_pass parse_plain net opts w =
     gw_NewSSHClientWithCfg parse_pass parse_plain net (fold (\<lambda>setter cfg. setter cfg) opts (GwOptions default_options [])) w"

section \<open>Sessions on a client\<close>

record gw_sessions =
  gw_traceSessionMap :: "nat \<rightharpoonup> int"
  gw_refCount :: "32 word"

definition gw_RefCount :: "gw_sessions \<Rightarrow> int" where
  "gw_RefCount s = sint (gw_refCount s)"

definition gw_AcquireSession :: "int \<Rightarrow> nat result \<Rightarrow> gw_sessions \<Rightarrow> nat result \<times> gw_sessions" where
  "gw_AcquireSession now newSession s =
     (let s = s\<lparr>gw_refCount := gw_refCount s + 1\<rparr>
      in case newSession of
           Inl err \<Rightarrow> (Inl err, s\<lparr>gw_refCount := gw_refCount s - 1\<rparr>)
         | Inr sess \<Rightarrow> (Inr sess, s\<lparr>gw_traceSessionMap := (gw_traceSessionMap s)(sess \<mapsto> now)\<rparr>))"

definition gw_ReleaseSession :: "nat \<Rightarrow> gw_sessions \<Rightarrow> gw_sessions" where
  "gw_ReleaseSession sess s = s\<lparr>gw_refCount := gw_refCount s - 1, gw_traceSessionMap := (gw_traceSessionMap s)(sess := None)\<rparr>"

section \<open>Nothing is left open\<close>

text \<open>The connections of a client: its own and those of the gateways it goes through.\<close>

fun gw_conns :: "'s gw_client \<Rightarrow> nat set" where
  "gw_conns (GwClient cfg c None) = {c}"
| "gw_conns (GwClient cfg c (Some p)) = insert c (gw_conns p)"

text \<open>From \<open>w\<close> a failed attempt led to \<open>w'\<close> with the same connections open, a successful one with those of the client, all new.\<close>

definition settled :: "gw_world \<Rightarrow> 's gw_client result \<times> gw_world \<Rightarrow> bool" where
  "settled w r \<longleftrightarrow> gw_calls w \<le> gw_calls (snd r)
     \<and> (case fst r of
          Inl _ \<Rightarrow> gw_open (snd r) = gw_open w
        | Inr cl \<Rightarrow> gw_open (snd r) = gw_open w \<union> gw_conns cl \<and> gw_conns cl \<subseteq> {gw_calls w..<gw_calls (snd r)})"

definition world_ok :: "gw_world \<Rightarrow> bool" where
  "world_ok w \<longleftrightarrow> gw_open w \<subseteq> {..<gw_calls w}"

lemma gw_Close_frame [simp]:
  "gw_open (gw_Close cl w) = gw_open w - gw_conns cl" "gw_calls (gw_Close cl w) = gw_calls w"
  by (induction cl w rule: gw_Close.induct) (auto simp: close_conn_def)

lemma settled_ok: "settled w r \<Longrightarrow> world_ok w \<Longrightarrow> world_ok (snd r)"
  by (fastforce simp: settled_def world_ok_def split: sum.splits)

lemma settled_close: "settled w (Inr cl, w') \<Longrightarrow> world_ok w \<Longrightarrow> gw_open w' - gw_conns cl = gw_open w"
  by (fastforce simp: settled_def world_ok_def)

lemma settled_open:
  "settled w (case net_open net call w of (Inl err, w') \<Rightarrow> (Inl err, w') | (Inr c, w') \<Rightarrow> (Inr (GwClient cfg c None), w'))"
  by (auto simp: settled_def net_open_def net_call_def split: option.split)

lemma settled_through_proxy:
  assumes "settled w (Inr cl, w1)" "world_ok w"
  shows "settled w (through_proxy net cfg addr gosshCfg cl w1)"
proof -
  have c: "gw_calls w \<le> gw_calls w1" "gw_open w1 = gw_open w \<union> gw_conns cl" "gw_conns cl \<subseteq> {gw_calls w..<gw_calls w1}"
    using assms(1) by (auto simp: settled_def)
  moreover have "gw_calls w1 \<notin> gw_open w1" using settled_ok [OF assms] by (auto simp: world_ok_def)
  ultimately show ?thesis
    using settled_close [OF assms]
    by (auto simp: settled_def through_proxy_def net_open_def net_call_def close_conn_def split: option.splits)
qed

lemma settled_fail: "settled w (Inl e, w') \<Longrightarrow> settled w' r \<Longrightarrow> settled w r"
  by (fastforce simp: settled_def split: sum.splits)

lemma gateway_settled:
  "world_ok w \<Longrightarrow> settled w (gw_NewSSHClientWithCfg parse_pass parse_plain net opts w)"
  "world_ok w \<Longrightarrow> settled w (getAvailableProxyClient parse_pass parse_plain net cfgs w)"
proof (induction parse_pass parse_plain net opts w and parse_pass parse_plain net cfgs w
    rule: gw_NewSSHClientWithCfg_getAvailableProxyClient.induct)
  case (1 parse_pass parse_plain net b proxies w)
  obtain methods b' where am: "gw_AuthMethods parse_pass parse_plain b = (methods, b')" by fastforce
  show ?case
  proof (cases "length proxies > 0")
    case True
    obtain r w1 where g: "getAvailableProxyClient parse_pass parse_plain net proxies w = (r, w1)" by fastforce
    have "settled w (r, w1)" using "1.IH" [OF am [symmetric] refl refl refl refl True] "1.prems" am g by simp
    with True am g "1.prems" settled_through_proxy [of w] show ?thesis by (cases r) (auto simp: Let_def)
  next
    case False
    with am show ?thesis by (simp add: Let_def settled_open)
  qed
next
  case (2 parse_pass parse_plain net w)
  then show ?case by (simp add: settled_def)
next
  case (3 parse_pass parse_plain net cfg cfgs w)
  obtain r w1 where g: "gw_NewSSHClientWithCfg parse_pass parse_plain net cfg w = (r, w1)" by fastforce
  with 3 settled_ok [of w "(r, w1)"] show ?case by (cases r) (auto intro: settled_fail)
qed

text \<open>
  No connection is left open.  A connection attempt, through however many gateways with gateways of their own, that fails leaves open exactly
  what was open before; one that succeeds has opened new connections only, and closing its client closes exactly these.
\<close>

theorem gateways_leave_nothing_open:
  assumes "gw_open w \<subseteq> {..<gw_calls w}" "gw_NewSSHClientWithCfg parse_pass parse_plain net opts w = (r, w')"
  shows "case r of
      Inl err \<Rightarrow> gw_open w' = gw_open w
    | Inr cl \<Rightarrow> gw_conns cl \<inter> gw_open w = {} \<and> gw_open w' = gw_open w \<union> gw_conns cl \<and> gw_open (gw_Close cl w') = gw_open w"
proof -
  have "settled w (r, w')"
    using gateway_settled(1) [of w parse_pass parse_plain net opts] assms by (simp add: world_ok_def)
  then show ?thesis using assms(1) by (fastforce simp: settled_def split: sum.splits)
qed

definition example_host :: "string \<Rightarrow> unit SSHClientOptions" where
  "example_host h = default_options\<lparr>opt_Host := h\<rparr>"

text \<open>Of two gateways the first does not answer, and the handshake behind the second fails.\<close>

definition example_net :: "nat \<Rightarrow> unit gw_call \<Rightarrow> goerror option" where
  "example_net n call = (if n = 1 then None else if n = 2 then None else Some ''refused'')"

definition example_route :: "unit gw_options" where
  "example_route = GwOptions (example_host ''db'') [GwOptions (example_host ''gw1'') [], GwOptions (example_host ''gw2'') []]"

theorem gateways_leave_nothing_open_witness:
  "\<exists>err w'. gw_NewSSHClientWithCfg (\<lambda>_ _. None) (\<lambda>_. None) example_net example_route \<lparr>gw_calls = 0, gw_open = {}\<rparr> = (Inl err, w')
     \<and> gw_calls w' = 4 \<and> gw_open w' = {}"
proof -
  let ?w = "\<lparr>gw_calls = 0, gw_open = {}\<rparr>"
  obtain r w' where run: "gw_NewSSHClientWithCfg (\<lambda>_ _. None) (\<lambda>_. None) example_net example_route ?w = (r, w')" by fastforce
  then have "\<exists>err. r = Inl err" "gw_calls w' = 4"
    by (auto simp: example_route_def example_host_def default_options_def gw_AuthMethods_def AuthMethods_def key_methods_def net_open_def net_call_def
        through_proxy_def example_net_def close_conn_def Let_def)
  with gateways_leave_nothing_open [OF _ run] run show ?thesis by auto
qed

text \<open>Without gateways the client dials what the client of \<^verbatim>\<open>pkg/srvconn\<close> dials, with the same configuration.\<close>

theorem gateway_free_client:
  "case gw_NewSSHClientWithCfg parse_pass parse_plain net (GwOptions b []) w of
     (Inl err, _) \<Rightarrow> NewSSHClientWithCfg parse_pass parse_plain (\<lambda>addr cfg. net (gw_calls w) (GwDial addr cfg)) b = Inl err
   | (Inr cl, _) \<Rightarrow> (\<exists>c. NewSSHClientWithCfg parse_pass parse_plain (\<lambda>addr cfg. net (gw_calls w) (GwDial addr cfg)) b = Inr c
       \<and> cli_Cfg c = gw_base (gwc_Cfg cl))"
proof -
  obtain methods b' where "gw_AuthMethods parse_pass parse_plain b = (methods, b')" by fastforce
  then show ?thesis
    by (simp add: NewSSHClientWithCfg_def gw_AuthMethods_def gw_createSSHConfig_def gw_ClientConfig_def net_open_def net_call_def Let_def split: option.split)
qed

end
