(* ===== verification/Connecting.thy ===== *)
theory Connecting
  imports Proxy
begin

text \<open>
  The progress display while a connection is made (\<^verbatim>\<open>sendConnectingMsg\<close> of \<^verbatim>\<open>pkg/proxy/server.go\<close>).  The seconds that have passed are a floating
  point number counted up by 0.1; what the loop uses of it are inputs: \<open>fmt i\<close> is its text after \<open>i\<close> rounds and \<open>below i\<close> whether it
  is still below the maximum of five minutes.
\<close>

section \<open>The keyboard mode\<close>

definition IsKeyboardMode :: "ProxyServer \<Rightarrow> bool" where
  "IsKeyboardMode s = ps_keyboardMode s"

definition setKeyBoardMode :: "ProxyServer \<Rightarrow> ProxyServer" where
  "setKeyBoardMode s = s\<lparr>ps_keyboardMode := True\<rparr>"

definition resetKeyboardMode :: "ProxyServer \<Rightarrow> ProxyServer" where
  "resetKeyboardMode s = s\<lparr>ps_keyboardMode := False\<rparr>"

section \<open>The display\<close>

text \<open>In each round the loop sees whether the connection is done and whether the keyboard mode is on.\<close>

record round =
  is_done :: bool
  keyboard :: bool

definition backspaces :: "nat \<Rightarrow> string" where
  "backspaces n = replicate n (char_of (8 :: nat))"

fun connecting_rounds :: "(nat \<Rightarrow> bool) \<Rightarrow> (nat \<Rightarrow> string) \<Rightarrow> string \<Rightarrow> nat \<Rightarrow> bool \<Rightarrow> round list \<Rightarrow> string list" where
  "connecting_rounds below fmt msg i activeFlag [] = []"
| "connecting_rounds below fmt msg i activeFlag (r # rs) =
     (if \<not> below i \<or> is_done r then []
      else if keyboard r then connecting_rounds below fmt msg (Suc i) True rs
      else if activeFlag then CharClear # (msg @ ''  '' @ fmt i) # connecting_rounds below fmt msg (Suc i) False rs
      else (backspaces (length (fmt i)) @ fmt i) # connecting_rounds below fmt msg (Suc i) False rs)"

definition sendConnectingMsg :: "(nat \<Rightarrow> bool) \<Rightarrow> (nat \<Rightarrow> string) \<Rightarrow> ProxyServer \<Rightarrow> round list \<Rightarrow> string list" where
  "sendConnectingMsg below fmt s rs =
     (let msg = ConnectMsg (ps_systemUser s) (ps_asset s) in (msg @ ''  '' @ fmt 0) # connecting_rounds below fmt msg 0 False rs)"

section \<open>What the user sees\<close>

text \<open>A line with the cursor at a column: a backspace goes left, any other character overwrites.\<close>

fun type_over :: "string \<times> nat \<Rightarrow> string \<Rightarrow> string \<times> nat" where
  "type_over (l, x) [] = (l, x)"
| "type_over (l, x) (c # cs) =
     (if c = char_of (8 :: nat) then type_over (l, x - 1) cs
      else type_over (take x l @ c # drop (Suc x) l, Suc x) cs)"

lemma type_over_append: "type_over p (a @ b) = type_over (type_over p a) b"
  by (induction p a rule: type_over.induct) auto

lemma type_over_backspaces: "type_over (l, x) (backspaces n) = (l, x - n)"
  by (induction n arbitrary: x) (auto simp: backspaces_def)

lemma type_over_text:
  "char_of (8 :: nat) \<notin> set s \<Longrightarrow> length l = x + length s \<or> x \<le> length l \<and> length l \<le> x + length s \<Longrightarrow>
   type_over (l, x) s = (take x l @ s, x + length s)"
proof (induction s arbitrary: l x)
  case (Cons c s)
  then have "type_over (take x l @ c # drop (Suc x) l, Suc x) s = (take (Suc x) (take x l @ c # drop (Suc x) l) @ s, Suc x + length s)"
    by (intro Cons.IH) auto
  with Cons.prems show ?case by (auto simp: min_def)
qed auto

text \<open>
  The number on the line is replaced by the next one as long as its text does not grow; when it does, one more character is erased than
  was written, so the number moves a column to the left into the message.
\<close>

theorem counter_overwrites:
  assumes "char_of (8 :: nat) \<notin> set new" "length old \<le> length new" "length new \<le> length m + length old"
  shows "type_over (m @ old, length (m @ old)) (backspaces (length new) @ new)
    = (take (length m + length old - length new) m @ new, length m + length old)"
proof -
  have "type_over (m @ old, length m + length old - length new) new
      = (take (length m + length old - length new) (m @ old) @ new, length m + length old - length new + length new)"
    using assms by (intro type_over_text) auto
  with assms(2,3) show ?thesis by (simp add: type_over_append type_over_backspaces)
qed

lemma tenth_second_shifts:
  "type_over (m @ ''  9.9'', length m + 5) (backspaces (length ''10.0'') @ ''10.0'') = (m @ '' 10.0'', length m + 5)"
proof -
  have "char_of (8 :: nat) \<notin> set ''10.0''" by code_simp
  from counter_overwrites [OF this, of "''9.9''" "m @ ''  ''"] show ?thesis by (simp add: eval_nat_numeral)
qed

text \<open>While a password is being typed nothing is written over the prompt, and nothing is written once the connection is there.\<close>

theorem connecting_silent:
  "list_all keyboard rs \<Longrightarrow> connecting_rounds below fmt msg i f rs = []"
  "is_done r \<Longrightarrow> connecting_rounds below fmt msg i f (r # rs') = []"
  by (induction rs arbitrary: i f) auto

end
