(* ===== verification/Agent.thy ===== *)
theory Agent
  imports SshServer
begin

text \<open>
  Agent forwarding of the SSH library (\<^verbatim>\<open>pkg/ssh/agent.go\<close>): the mark in the context of a connection, the socket, and the loop that forwards
  its connections.  Making the directory, listening and opening channels are parameters; connections of the socket are numbered.
\<close>

definition agentTempDir :: string where "agentTempDir = ''auth-agent''"
definition agentListenFile :: string where "agentListenFile = ''listener.sock''"

definition contextKeyAgentRequest :: contextKey where "contextKeyAgentRequest = OtherKey ''auth-agent-req''"

definition SetAgentRequested :: "sshContext \<Rightarrow> sshContext" where
  "SetAgentRequested ctx = SetValue contextKeyAgentRequest (CBool True) ctx"

definition AgentRequested :: "sshContext \<Rightarrow> bool" where
  "AgentRequested ctx \<longleftrightarrow> ctx_Value ctx contextKeyAgentRequest = Some (CBool True)"

text \<open>\<open>TempDir\<close> is given the pattern of the name, \<open>path_Join\<close> is \<^verbatim>\<open>path.Join\<close>; the second component is the directory that was made.\<close>

definition NewAgentListener ::
  "(string \<Rightarrow> string result) \<Rightarrow> (string \<Rightarrow> string \<Rightarrow> string) \<Rightarrow> (string \<Rightarrow> nat result) \<Rightarrow> nat result \<times> string option" where
  "NewAgentListener TempDir path_Join Listen =
     (case TempDir agentTempDir of
        Inl err \<Rightarrow> (Inl err, None)
      | Inr dir \<Rightarrow>
          (case Listen (path_Join dir agentListenFile) of
             Inl err \<Rightarrow> (Inl err, Some dir)
           | Inr l \<Rightarrow> (Inr l, Some dir)))"

text \<open>
  What happens to an accepted connection: it is forwarded on a channel, or closed when none can be opened.  The accept loop ends at the first
  error (\<open>True\<close> in the result); the connection of the session is asserted before it starts.
\<close>

datatype agent_action = Forwarded nat | ClosedUnopened nat

fun agent_accept_loop :: "(nat \<Rightarrow> goerror option) \<Rightarrow> nat result list \<Rightarrow> agent_action list \<times> bool" where
  "agent_accept_loop OpenChannel [] = ([], False)"
| "agent_accept_loop OpenChannel (Inl err # es) = ([], True)"
| "agent_accept_loop OpenChannel (Inr conn # es) =
     (let (acts, ended) = agent_accept_loop OpenChannel es
      in ((case OpenChannel conn of Some _ \<Rightarrow> ClosedUnopened conn | None \<Rightarrow> Forwarded conn) # acts, ended))"

definition ForwardAgentConnections ::
  "sshContext \<Rightarrow> (nat \<Rightarrow> goerror option) \<Rightarrow> nat result list \<Rightarrow> (agent_action list \<times> bool) outcome" where
  "ForwardAgentConnections ctx OpenChannel es =
     (case ctx_Value ctx ContextKeyConn of
        Some (CConn _) \<Rightarrow> Ret (agent_accept_loop OpenChannel es)
      | _ \<Rightarrow> Panic TypeAssertion)"

section \<open>Properties\<close>

fun accepted_conns :: "nat result list \<Rightarrow> nat list" where
  "accepted_conns (Inr c # es) = c # accepted_conns es"
| "accepted_conns _ = []"

lemma agent_accept_loop_serves:
  "fst (agent_accept_loop OpenChannel es)
     = map (\<lambda>c. if OpenChannel c = None then Forwarded c else ClosedUnopened c) (accepted_conns es)
   \<and> (snd (agent_accept_loop OpenChannel es) \<longleftrightarrow> (\<exists>err. Inl err \<in> set es))"
  by (induction OpenChannel es rule: agent_accept_loop.induct) (auto simp: Let_def split: prod.split option.split)

text \<open>
  On a connection that was served, the loop does not panic, every accepted connection is forwarded or closed, in order, and the loop ends
  exactly at the first accept error; the mark is seen once it was set, and setting it keeps the identity of the connection.
\<close>

theorem agent_forwarding_serves:
  assumes "ctx = SetAgentRequested (SetValue ContextKeyConn (CConn n) ctx')"
  shows "\<exists>acts ended. ForwardAgentConnections ctx OpenChannel es = Ret (acts, ended)
      \<and> acts = map (\<lambda>c. if OpenChannel c = None then Forwarded c else ClosedUnopened c) (accepted_conns es)
      \<and> (ended \<longleftrightarrow> (\<exists>err. Inl err \<in> set es))
    \<and> AgentRequested ctx \<and> ctx_User ctx = ctx_User ctx'"
  using agent_accept_loop_serves [of OpenChannel es] unfolding assms
  by (auto simp: ForwardAgentConnections_def AgentRequested_def SetAgentRequested_def contextKeyAgentRequest_def SetValue_def ctx_Value_def
      ctx_User_def intro!: prod_eqI)

end
