(* ===== verification/Spec2Isabelle.thy ===== *)
theory Spec2Isabelle
  imports Model Database Core Otp LoginLimit Directory Tickets Auth WindowSize TerminalTyped SshServer PortForward JumpServer InitDB Logging Startup Gateway Connecting Agent
begin

text \<open>
  Gojump is an SSH jump server: users log in to it over SSH, and it connects them to the assets (hosts) that an
  administrator granted them, relays the terminal in both directions and records it.  This development models its Go sources
  under \<^verbatim>\<open>src/pkg\<close> and proves what makes the parts, and their composition, correct.

  \<^bold>\<open>How the program is put together.\<close>  The SSH library (\<^verbatim>\<open>pkg/ssh\<close>) accepts connections and calls the authentication callbacks of the
  jump server (\<^verbatim>\<open>pkg/server\<close>), which ask the core (\<^verbatim>\<open>pkg/auth\<close>, \<^verbatim>\<open>pkg/core\<close>) about the user; the core keeps everything in an embedded
  database.  A session of an authenticated user becomes a direct login, the administrator's console, the menu
  (\<^verbatim>\<open>pkg/handler\<close>) or the tunnel of an editor.  The menu reads lines from a terminal (\<^verbatim>\<open>pkg/common/terminal.go\<close>), and starts a proxy
  session (\<^verbatim>\<open>pkg/proxy\<close>) for the asset that was chosen.  The proxy asks for missing credentials, checks expiry, waits for
  a confirmation if one is needed, dials the asset or reuses a cached connection (\<^verbatim>\<open>pkg/srvconn\<close>), and bridges the two ends.

  \<^bold>\<open>Theories and sources.\<close>
  \<^item> \<open>Prelude\<close>, \<open>Utf8\<close>: what the source uses of the Go language and library (results, panics, strings, numbers, sorting, UTF-8).
  \<^item> \<open>Model\<close> (\<^verbatim>\<open>pkg/model\<close>): the records, protocols, sort orders, expiry.
  \<^item> \<open>Database\<close> (\<^verbatim>\<open>core/genji.go\<close>, \<^verbatim>\<open>core/db.go\<close>): the query helpers over an abstract engine whose contract is \<open>engine_ok\<close>; \<open>mem_engine\<close>
    is an instance, used by the witnesses.
  \<^item> \<open>Core\<close> (\<^verbatim>\<open>config\<close>, \<^verbatim>\<open>core/core.go\<close>, \<^verbatim>\<open>log.go\<close>, \<^verbatim>\<open>session.go\<close>): configuration, state, audit log, live sessions.  \<open>Otp\<close> (\<^verbatim>\<open>otp.go\<close>):
    one-time passwords and their timers.  \<open>LoginLimit\<close> and \<open>Tickets\<close> (\<^verbatim>\<open>core/auth.go\<close>, \<^verbatim>\<open>auth/loginConfirm.go\<close>): failed
    attempts, login tickets and the wait for their decision.  \<open>Directory\<close> (\<^verbatim>\<open>user.go\<close>, \<^verbatim>\<open>asset.go\<close>, \<^verbatim>\<open>node.go\<close>, \<^verbatim>\<open>systemUser.go\<close>, \<^verbatim>\<open>utils.go\<close>): users,
    assets, permissions, listings.  \<open>Auth\<close> (\<^verbatim>\<open>auth/ssh.go\<close>, \<^verbatim>\<open>userAuth.go\<close>): the decision who gets in.
  \<^item> \<open>RingBuffer\<close>, \<open>Terminal\<close>, \<open>TerminalIO\<close>, \<open>TerminalProps\<close>, \<open>TerminalScreen\<close>, \<open>TerminalTyped\<close> (\<^verbatim>\<open>common/terminal.go\<close>): history, key
    decoding, line editing, screen updates, reading lines and passwords.
  \<^item> \<open>SshSession\<close>, \<open>SshServer\<close> (\<^verbatim>\<open>pkg/ssh\<close>): session requests and their wire format; options, context, accept loop, handshake callbacks.
  \<^item> \<open>PortForward\<close> (\<^verbatim>\<open>ssh/tcpip.go\<close>): the library's handlers for forwarded ports, the reverse ones as a transition system.
  \<^item> \<open>SrvConn\<close> (\<^verbatim>\<open>pkg/srvconn\<close>): client options, dialling, sessions on a client, the cache of clients and its manager.
  \<^item> \<open>Util\<close>, \<open>Table\<close>, \<open>Replay\<close> (\<^verbatim>\<open>common/util.go\<close>, \<^verbatim>\<open>table.go\<close>, \<^verbatim>\<open>asciinema.go\<close>, \<^verbatim>\<open>proxy/record.go\<close>): value helpers, tables, recordings.
  \<^item> \<open>Switch\<close>, \<open>Proxy\<close> (\<^verbatim>\<open>pkg/proxy\<close>): the bridge and the register of sessions; the proxy session from its checks to its end.
  \<^item> \<open>Selection\<close>, \<open>NodeTree\<close>, \<open>Interactive\<close>, \<open>Admin\<close> (\<^verbatim>\<open>pkg/handler\<close>): the asset menu, the tree of nodes, the prompt loop, the console.
  \<^item> \<open>WrapSession\<close> (\<^verbatim>\<open>handler/wrapperSession.go\<close>): the pipe between the client and the readers of the terminal.
  \<^item> \<open>WindowSize\<close> (\<^verbatim>\<open>handler/interactive.go\<close>): window changes while a line is edited.
  \<^item> \<open>JumpServer\<close> (\<^verbatim>\<open>pkg/server\<close>, and the direct handler of \<^verbatim>\<open>pkg/handler\<close>): authentication callbacks, what a
    session becomes, editor tunnels, port forwarding.
  \<^item> \<open>Startup\<close> (\<^verbatim>\<open>cmd/gojump.go\<close>, \<^verbatim>\<open>server/server.go\<close>): the command line, the start, the server that is handed to the SSH library, the stop.
  \<^item> \<open>Gateway\<close> (\<^verbatim>\<open>server/sshConn.go\<close>): the client that goes through gateways.  \<open>Connecting\<close> (\<^verbatim>\<open>proxy/server.go\<close>): the progress display.
    \<open>Agent\<close> (\<^verbatim>\<open>ssh/agent.go\<close>): agent forwarding of the library.
  \<^item> \<open>HostKey\<close>, \<open>InitDB\<close>, \<open>Logging\<close> (\<^verbatim>\<open>common/edkey.go\<close>, \<^verbatim>\<open>pkg/initDB\<close>, \<^verbatim>\<open>pkg/log\<close>): the generated host key, setting up a database, log levels.

  \<^bold>\<open>How the code is modelled.\<close>  A struct is a record with the source's fields, a method a function that returns the changed state; a
  result with an error is a sum, a run-time panic a value of \<open>outcome\<close>, so that every early return and every panic of the source is a
  branch.  Strings and byte slices are lists of bytes; counters whose width matters are words.  Each critical section under a
  lock is one function; goroutines and channels are lists of events or of operations in the order they happen, and the
  theorems hold for every such list.  What other sessions do meanwhile is an input too.  Clocks, random numbers, generated
  ids, the iteration order of maps, \<^verbatim>\<open>sort.Sort\<close>, the database engine, bcrypt, key parsing, dialling, JSON and compression are parameters;
  where a theorem relies on their documented behaviour it says so (\<open>engine_ok\<close>, \<open>sort_contract\<close>, \<open>columns_order\<close>).
  Interfaces are locales, interpreted on the model's own definitions: \<open>key_ordering\<close> (the four sort orders), \<open>bounded_history\<close> (the ring
  buffer), \<open>live_register\<close> (switch sessions, core sessions, tunnels), and \<open>invariant_system\<close> (the step relations with their reachable
  states: failed logins, one-time passwords, the client cache and its sessions, reverse port forwarding).

  \<^bold>\<open>What is proved.\<close>  What reaches the jump server: only authenticated clients, with sessions and
  direct port forwarding.  Logging in: only stored, active, unexpired, unblocked users from an allowed address with evidence are let in, and
  such users are; guessing is bounded; whatever a session becomes, its user logged in on that connection.  Connecting: the
  menu, a direct login and an editor tunnel reach only what a permission row grants to this user; the proxy connects only while the permission
  lasts and after an approval where one is needed; decided tickets are final; ports are forwarded only through an open tunnel of the same
  connection.  Sessions: the bridge relays and records exactly, ends on expiry, and finished sessions are in no register; recordings are complete.
  Terminal: typed lines are returned exactly however the input is cut, passwords are not echoed or kept, editing refines a
  cursor between two texts, and the movements sent take a VT100 cursor to its place, also when the window changes.  Library: sessions start one handler,
  identities are fixed by the first attempt, the client cache hands out live clients and keeps reused ones open,
  ports are only listened on where the policy allows.  Menus: paging
  shows every result once, the node tree every node once, columns fit.  Set-up: the host key is
  written so that it reads back, the database that is set up has no dangling reference, and a server started on it comes up.  Errors: where the program panics, exactly.

  \<^bold>\<open>Bounds and fuel.\<close>  Loops are structural recursions on their inputs or functions with a termination proof (the resize loop of the tables, the
  search for a common prefix, the prompt loop, the cut of a string to valid UTF-8, the reader of the terminal); only the printing of the node tree
  takes fuel, the number of nodes, and the theorem that every node is shown proves it enough.

  \<^bold>\<open>Not modelled.\<close>  The copying of bytes between a channel and a socket in \<^verbatim>\<open>pkg/ssh\<close> (\<^verbatim>\<open>io.Copy\<close>), and the goroutine that only sends
  keep-alives: calls into libraries without a decision of their own.  \<^verbatim>\<open>UUID\<close> and \<^verbatim>\<open>ValidUUIDString\<close> of \<^verbatim>\<open>common/util.go\<close>: one call into a library each;
  generated ids are inputs.  Declarations of interfaces and callback types, which have no behaviour, and the programs under
  \<^verbatim>\<open>pkg/ssh/_examples\<close>, which are not part of the jump server.  The handshake of the SSH protocol belongs to another library: an accepted key
  offer counts as an attempt here, and that a session starts only after its signature was verified is that library's business.
\<close>

end
